(* ===== verification/Prelude.thy ===== *)
theory Prelude
  imports
    Main
    "HOL-Library.Word"
    "HOL-Library.Char_ord"
    "HOL-Library.List_Lexorder"
begin

text \<open>
  The shared vocabulary of the development: the outcome type of a Go call
  (a value, an error, or a run-time panic), byte slices with Go's bounds
  checks, little-endian integers, and the list facts every component uses.
  The collections \<open>go_res\<close> (unfolding of the outcome combinators) and
  \<open>bytes_simps\<close> (byte-slice arithmetic) are extended by the component
  theories.
\<close>

named_theorems go_res "unfolding rules of the outcome combinators"
named_theorems bytes_simps "byte slices and little-endian integers"

section \<open>Outcomes of a Go call\<close>

text \<open>
  A Go function that returns \<open>(T, error)\<close> yields \<open>Ok\<close> or \<open>Err\<close>; an
  out-of-range index or slice expression is a run-time panic, kept apart so
  that "never panics" is a statement about the model.
\<close>

datatype ('e, 'a) res = Ok 'a | Err 'e | Panic

fun res_bind :: "('e, 'a) res \<Rightarrow> ('a \<Rightarrow> ('e, 'b) res) \<Rightarrow> ('e, 'b) res" where
  "res_bind (Ok x) f = f x"
| "res_bind (Err e) f = Err e"
| "res_bind Panic f = Panic"

fun res_map :: "('a \<Rightarrow> 'b) \<Rightarrow> ('e, 'a) res \<Rightarrow> ('e, 'b) res" where
  "res_map f (Ok x) = Ok (f x)"
| "res_map f (Err e) = Err e"
| "res_map f Panic = Panic"

fun res_map_err :: "('e \<Rightarrow> 'f) \<Rightarrow> ('e, 'a) res \<Rightarrow> ('f, 'a) res" where
  "res_map_err f (Ok x) = Ok x"
| "res_map_err f (Err e) = Err (f e)"
| "res_map_err f Panic = Panic"

definition guard_err :: "bool \<Rightarrow> 'e \<Rightarrow> ('e, unit) res" where
  "guard_err b e = (if b then Err e else Ok ())"

lemma res_bind_Ok_iff [go_res]:
  "res_bind m f = Ok y \<longleftrightarrow> (\<exists>x. m = Ok x \<and> f x = Ok y)"
  by (cases m) auto

lemma res_bind_Err_iff [go_res]:
  "res_bind m f = Err e \<longleftrightarrow> m = Err e \<or> (\<exists>x. m = Ok x \<and> f x = Err e)"
  by (cases m) auto

lemma res_bind_Panic_iff [go_res]:
  "res_bind m f = Panic \<longleftrightarrow> m = Panic \<or> (\<exists>x. m = Ok x \<and> f x = Panic)"
  by (cases m) auto

lemma res_map_Ok_iff [go_res]: "res_map f m = Ok y \<longleftrightarrow> (\<exists>x. m = Ok x \<and> y = f x)"
  by (cases m) auto

lemma res_map_Panic_iff [go_res]: "res_map f m = Panic \<longleftrightarrow> m = Panic"
  by (cases m) auto

lemma res_map_Err_iff [go_res]: "res_map f m = Err e \<longleftrightarrow> m = Err e"
  by (cases m) auto

lemma guard_err_iff [go_res]:
  "guard_err b e = Ok u \<longleftrightarrow> \<not> b"
  "guard_err b e = Err e' \<longleftrightarrow> b \<and> e' = e"
  "guard_err b e \<noteq> Panic"
  by (auto simp: guard_err_def)

lemma res_bind_assoc: "res_bind (res_bind m f) g = res_bind m (\<lambda>x. res_bind (f x) g)"
  by (cases m) auto

section \<open>Bytes and slices\<close>

type_synonym byte = "8 word"
type_synonym u32 = "32 word"
type_synonym u64 = "64 word"

text \<open>The value of Go's int64 arithmetic: two's complement, wrapping around.\<close>

definition int64 :: "int \<Rightarrow> int" where
  "int64 n = (n + 2 ^ 63) mod 2 ^ 64 - 2 ^ 63"

lemma int64_id: "- (2 ^ 63) \<le> n \<Longrightarrow> n < 2 ^ 63 \<Longrightarrow> int64 n = n"
  by (simp add: int64_def)

text \<open>The Go slice expression \<open>xs[i:j]\<close> (with \<open>len\<close> as capacity).\<close>

definition gslice :: "nat \<Rightarrow> nat \<Rightarrow> 'a list \<Rightarrow> 'a list" where
  "gslice i j xs = take (j - i) (drop i xs)"

definition go_slice :: "nat \<Rightarrow> nat \<Rightarrow> 'a list \<Rightarrow> ('e, 'a list) res" where
  "go_slice i j xs = (if i \<le> j \<and> j \<le> length xs then Ok (gslice i j xs) else Panic)"

definition go_index :: "'a list \<Rightarrow> nat \<Rightarrow> ('e, 'a) res" where
  "go_index xs i = (if i < length xs then Ok (xs ! i) else Panic)"

text \<open>The assignment \<open>xs[i] = v\<close>.\<close>

definition go_update :: "'a list \<Rightarrow> nat \<Rightarrow> 'a \<Rightarrow> ('e, 'a list) res" where
  "go_update xs i v = (if i < length xs then Ok (xs[i := v]) else Panic)"

lemma go_update_ok [simp]: "i < length xs \<Longrightarrow> go_update xs i v = Ok (xs[i := v])"
  by (simp add: go_update_def)

lemma length_gslice [bytes_simps, simp]: "length (gslice i j xs) = min (j - i) (length xs - i)"
  by (simp add: gslice_def)

lemma slice_self [simp]: "gslice i i xs = []"
  by (simp add: gslice_def)

lemma slice_all [simp]: "gslice 0 (length xs) xs = xs"
  by (simp add: gslice_def)

lemma slice_to_end [bytes_simps]: "gslice i (length xs) xs = drop i xs"
  by (simp add: gslice_def)

lemma slice_append_left [bytes_simps]:
  "j \<le> length xs \<Longrightarrow> gslice i j (xs @ ys) = gslice i j xs"
  by (simp add: gslice_def)

lemma slice_append_right [bytes_simps]:
  "length xs \<le> i \<Longrightarrow> gslice i j (xs @ ys) = gslice (i - length xs) (j - length xs) ys"
  by (simp add: gslice_def)

lemma slice_exact [bytes_simps]: "gslice (length xs) (length xs + length ys) (xs @ ys @ zs) = ys"
  by (simp add: gslice_def)

lemma drop_slice [bytes_simps]: "drop k (gslice i j xs) = gslice (i + k) j xs"
  by (simp add: gslice_def drop_take diff_diff_left add.commute)

lemma slice_slice [bytes_simps]:
  "b \<le> j - i \<Longrightarrow> gslice a b (gslice i j xs) = gslice (i + a) (i + b) xs"
  by (simp add: gslice_def drop_take min_absorb1 add.commute)

lemma slice_nth: "i + k < j \<Longrightarrow> i + k < length xs \<Longrightarrow> gslice i j xs ! k = xs ! (i + k)"
  by (simp add: gslice_def)

lemma slice_append_slice: "i \<le> j \<Longrightarrow> j \<le> k \<Longrightarrow> gslice i j xs @ gslice j k xs = gslice i k xs"
proof -
  assume "i \<le> j" "j \<le> k"
  then have "k - i = (j - i) + (k - j)" and "drop j xs = drop (j - i) (drop i xs)"
    by simp_all
  then show ?thesis
    by (simp only: gslice_def take_add)
qed

lemma go_slice_iff [go_res]:
  "go_slice i j xs = Ok ys \<longleftrightarrow> i \<le> j \<and> j \<le> length xs \<and> ys = gslice i j xs"
  "go_slice i j xs \<noteq> Err e"
  "go_slice i j xs = Panic \<longleftrightarrow> \<not> (i \<le> j \<and> j \<le> length xs)"
  by (auto simp: go_slice_def)

lemma go_slice_ok [simp]: "i \<le> j \<Longrightarrow> j \<le> length xs \<Longrightarrow> go_slice i j xs = Ok (gslice i j xs)"
  by (simp add: go_slice_def)

lemma go_index_iff [go_res]:
  "go_index xs i = Ok x \<longleftrightarrow> i < length xs \<and> x = xs ! i"
  "go_index xs i \<noteq> Err e"
  "go_index xs i = Panic \<longleftrightarrow> \<not> i < length xs"
  by (auto simp: go_index_def)

section \<open>Little-endian integers\<close>

fun le_nat :: "byte list \<Rightarrow> nat" where
  "le_nat [] = 0"
| "le_nat (b # bs) = unat b + 256 * le_nat bs"

fun le_bytes :: "nat \<Rightarrow> nat \<Rightarrow> byte list" where
  "le_bytes 0 n = []"
| "le_bytes (Suc k) n = word_of_nat (n mod 256) # le_bytes k (n div 256)"

lemma unat_byte_less [simp]: "unat (b :: byte) < 256"
  using unsigned_less [of b] by simp

lemma le_nat_bound: "le_nat bs < 256 ^ length bs"
proof (induction bs)
  case Nil
  then show ?case by simp
next
  case (Cons b bs)
  have "unat b < 256" by (rule unat_byte_less)
  then have "unat b + 256 * le_nat bs < 256 * Suc (le_nat bs)" by simp
  also have "\<dots> \<le> 256 * 256 ^ length bs" using Cons by (intro mult_le_mono2) simp
  finally show ?case by simp
qed

lemma length_le_bytes [simp, bytes_simps]: "length (le_bytes k n) = k"
  by (induction k arbitrary: n) auto

lemma le_nat_le_bytes [bytes_simps]: "le_nat (le_bytes k n) = n mod 256 ^ k"
proof (induction k arbitrary: n)
  case 0
  then show ?case by simp
next
  case (Suc k)
  have "unat (word_of_nat (n mod 256) :: byte) = n mod 256"
    by (simp add: unat_of_nat)
  with Suc show ?case
    by (simp add: mod_mult2_eq)
qed

lemma le_bytes_le_nat [bytes_simps]: "length bs = k \<Longrightarrow> le_bytes k (le_nat bs) = bs"
proof (induction bs arbitrary: k)
  case Nil
  then show ?case by simp
next
  case (Cons b bs)
  then obtain k' where k: "k = Suc k'" "length bs = k'" by auto
  have b: "unat b < 256" by simp
  have "(unat b + 256 * le_nat bs) mod 256 = unat b"
    using b by simp
  moreover have "(unat b + 256 * le_nat bs) div 256 = le_nat bs"
    using b by simp
  ultimately show ?case
    using Cons.IH [OF k(2)] k(1) by simp
qed

end
