(* ===== verification/Go_Url.thy ===== *)
theory Go_Url
  imports Go_Text
begin

text \<open>
  Hexadecimal digits (encoding/hex, \<open>%x\<close>) and the percent-encoding of URL path
  segments (\<open>url.PathEscape\<close>, \<open>url.PathUnescape\<close>), with their round trip.
\<close>

section \<open>Hexadecimal digits\<close>

definition lower_hex :: "nat \<Rightarrow> char" where
  "lower_hex n = (if n < 10 then char_of (48 + n) else char_of (87 + n))"

definition upper_hex :: "nat \<Rightarrow> char" where
  "upper_hex n = (if n < 10 then char_of (48 + n) else char_of (55 + n))"

definition is_lower_hex :: "char \<Rightarrow> bool" where
  "is_lower_hex c \<longleftrightarrow> is_digit c \<or> CHR ''a'' \<le> c \<and> c \<le> CHR ''f''"

definition is_hex :: "char \<Rightarrow> bool" where
  "is_hex c \<longleftrightarrow> is_lower_hex c \<or> CHR ''A'' \<le> c \<and> c \<le> CHR ''F''"

definition unhex :: "char \<Rightarrow> nat" where
  "unhex c = (let n = of_char c in
     if is_digit c then n - 48 else if CHR ''a'' \<le> c then n - 87 else n - 55)"

lemma of_char_lower_hex: "n < 16 \<Longrightarrow> of_char (lower_hex n) = (if n < 10 then 48 + n else 87 + n)"
  by (simp add: lower_hex_def of_char_of)

lemma of_char_upper_hex: "n < 16 \<Longrightarrow> of_char (upper_hex n) = (if n < 10 then 48 + n else 55 + n)"
  by (simp add: upper_hex_def of_char_of)

lemma is_lower_hex_iff:
  "is_lower_hex c \<longleftrightarrow>
     (48 \<le> (of_char c :: nat) \<and> (of_char c :: nat) \<le> 57) \<or>
     (97 \<le> (of_char c :: nat) \<and> (of_char c :: nat) \<le> 102)"
  by (simp add: is_lower_hex_def is_digit_iff less_eq_char_def)

lemma is_hex_iff:
  "is_hex c \<longleftrightarrow> is_lower_hex c \<or> (65 \<le> (of_char c :: nat) \<and> (of_char c :: nat) \<le> 70)"
  by (simp add: is_hex_def less_eq_char_def)

lemma is_lower_hex_lower_hex [simp]: "n < 16 \<Longrightarrow> is_lower_hex (lower_hex n)"
  by (simp add: is_lower_hex_iff of_char_lower_hex)

lemma is_hex_lower_hex [simp]: "n < 16 \<Longrightarrow> is_hex (lower_hex n)"
  by (simp add: is_hex_def)

lemma is_hex_upper_hex [simp]: "n < 16 \<Longrightarrow> is_hex (upper_hex n)"
  by (auto simp: is_hex_iff is_lower_hex_iff of_char_upper_hex)

lemma unhex_lower_hex [simp]: "n < 16 \<Longrightarrow> unhex (lower_hex n) = n"
  by (simp add: unhex_def Let_def is_digit_iff less_eq_char_def of_char_lower_hex)

lemma unhex_upper_hex [simp]: "n < 16 \<Longrightarrow> unhex (upper_hex n) = n"
  by (simp add: unhex_def Let_def is_digit_iff less_eq_char_def of_char_upper_hex)

lemma unhex_less [simp]: "is_hex c \<Longrightarrow> unhex c < 16"
  by (auto simp: unhex_def Let_def is_hex_iff is_lower_hex_iff is_digit_iff less_eq_char_def)

lemma lower_hex_unhex [simp]: "is_lower_hex c \<Longrightarrow> lower_hex (unhex c) = c"
proof -
  assume c: "is_lower_hex c"
  have "of_char (lower_hex (unhex c)) = (of_char c :: nat)"
    using c unhex_less [of c]
    by (auto simp: of_char_lower_hex is_hex_iff)
       (auto simp: unhex_def Let_def is_lower_hex_iff is_digit_iff less_eq_char_def split: if_splits)
  then show ?thesis by (metis char_of_char)
qed

text \<open>\<open>hex.EncodeToString\<close>: two lowercase digits per byte.\<close>

definition hex_encode :: "byte list \<Rightarrow> string" where
  "hex_encode bs = concat (map (\<lambda>b. [lower_hex (unat b div 16), lower_hex (unat b mod 16)]) bs)"

lemma unat_byte_div_16 [simp]: "unat (b :: byte) div 16 < 16"
  using unat_byte_less [of b] by linarith

lemma length_hex_encode [simp]: "length (hex_encode bs) = 2 * length bs"
  by (induction bs) (auto simp: hex_encode_def)

lemma hex_encode_lower: "list_all is_lower_hex (hex_encode bs)"
  by (induction bs) (auto simp: hex_encode_def)

section \<open>Percent-encoding of a path segment\<close>

text \<open>The bytes \<open>url.PathEscape\<close> leaves alone: unreserved, and \<open>$ & + : = @\<close>.\<close>

definition path_unescaped :: "char \<Rightarrow> bool" where
  "path_unescaped c \<longleftrightarrow> is_alnum c \<or> c \<in> set ''-_.~$&+:=@''"

fun path_escape :: "string \<Rightarrow> string" where
  "path_escape [] = []"
| "path_escape (c # cs) =
     (if path_unescaped c then c # path_escape cs
      else CHR ''%'' # upper_hex (of_char c div 16) # upper_hex (of_char c mod 16)
             # path_escape cs)"

text \<open>\<open>url.PathUnescape\<close>: a malformed escape is an error, \<open>+\<close> stays a plus.\<close>

fun path_unescape :: "string \<Rightarrow> string option" where
  "path_unescape [] = Some []"
| "path_unescape (c # cs) =
     (if c = CHR ''%'' then
        (case cs of
           a # b # rest \<Rightarrow>
             if is_hex a \<and> is_hex b
             then map_option (\<lambda>t. char_of (16 * unhex a + unhex b) # t) (path_unescape rest)
             else None
         | _ \<Rightarrow> None)
      else map_option (\<lambda>t. c # t) (path_unescape cs))"

lemma of_char_div_16 [simp]: "(of_char c :: nat) div 16 < 16"
  using nat_of_char_less_256 [of c] by linarith

lemma percent_not_unescaped [simp]: "\<not> path_unescaped CHR ''%''" "\<not> path_unescaped CHR ''/''"
  by (simp_all add: path_unescaped_def is_alnum_def is_upper_def is_lower_def is_digit_def
      less_eq_char_def)

lemma path_unescape_escape [simp]: "path_unescape (path_escape s) = Some s"
proof (induction s)
  case Nil
  then show ?case by simp
next
  case (Cons c cs)
  have "16 * (of_char c div 16) + of_char c mod 16 = (of_char c :: nat)"
    by simp
  then show ?case using Cons percent_not_unescaped(1)
    by (auto simp del: percent_not_unescaped)
qed

lemma upper_hex_not_slash: "n < 16 \<Longrightarrow> upper_hex n \<noteq> CHR ''/''"
proof
  assume "n < 16" "upper_hex n = CHR ''/''"
  then have "of_char (upper_hex n) = (47 :: nat)" by simp
  with \<open>n < 16\<close> show False by (simp add: of_char_upper_hex split: if_splits)
qed

lemma slash_notin_path_escape [simp]: "CHR ''/'' \<notin> set (path_escape s)"
proof (induction s)
  case Nil
  then show ?case by simp
next
  case (Cons c cs)
  then show ?case
    using percent_not_unescaped(2) upper_hex_not_slash [of "of_char c div 16"]
      upper_hex_not_slash [of "of_char c mod 16"]
    by (auto simp del: percent_not_unescaped)
qed

lemma path_escape_Nil_iff [simp]: "path_escape s = [] \<longleftrightarrow> s = []"
  by (cases s) auto

lemma path_escape_unescaped: "list_all path_unescaped s \<Longrightarrow> path_escape s = s"
  by (induction s) auto

lemma path_unescape_unescaped: "list_all path_unescaped s \<Longrightarrow> path_unescape s = Some s"
  by (metis path_escape_unescaped path_unescape_escape)

end
