(* ===== verification/Hfapi.thy ===== *)
theory Hfapi
  imports Go_Url
begin

text \<open>
  Package internal/hfapi: repository identifiers and their parser
  (repoid.go), commit ids, and the wire types of the Hub API that the other
  components compute with (hfapi.go, write.go). Fields that only travel
  through JSON unread (likes, tags, avatar and so on) are left out of the
  records.
\<close>

section \<open>Repository identifiers (repoid.go)\<close>

text \<open>
  Go's \<open>RepoKind\<close> is a string; the program builds it from the two constants
  and treats the zero value "" as "not set".
\<close>

datatype repo_kind = RepoKindNone | RepoKindModel | RepoKindDataset

fun kind_string :: "repo_kind \<Rightarrow> string" where
  "kind_string RepoKindNone = ''''"
| "kind_string RepoKindModel = ''model''"
| "kind_string RepoKindDataset = ''dataset''"

definition APIPrefix :: "repo_kind \<Rightarrow> string" where
  "APIPrefix k = kind_string k @ ''s''"

record repo_id =
  Owner :: string
  Name :: string

datatype id_error = BadShape string | BadOwner string | BadName string

text \<open>\<open>repoNamePattern\<close>: an alphanumeric, then alphanumerics, dot, underscore, dash.\<close>

definition repo_name_char :: "char \<Rightarrow> bool" where
  "repo_name_char c \<longleftrightarrow> is_alnum c \<or> c = CHR ''.'' \<or> c = CHR ''_'' \<or> c = CHR ''-''"

definition repoNamePattern :: "string \<Rightarrow> bool" where
  "repoNamePattern s \<longleftrightarrow> s \<noteq> [] \<and> is_alnum (hd s) \<and> list_all repo_name_char (tl s)"

definition check_repo_id :: "repo_id \<Rightarrow> (id_error, repo_id) res" where
  "check_repo_id r =
     (if Owner r \<noteq> [] \<and> \<not> repoNamePattern (Owner r) then Err (BadOwner (Owner r))
      else if \<not> repoNamePattern (Name r) then Err (BadName (Name r))
      else Ok r)"

definition ParseRepoID :: "string \<Rightarrow> (id_error, repo_id) res" where
  "ParseRepoID s =
     (case split_on CHR ''/'' s of
        [n] \<Rightarrow> check_repo_id \<lparr>Owner = [], Name = n\<rparr>
      | [ow, n] \<Rightarrow> check_repo_id \<lparr>Owner = ow, Name = n\<rparr>
      | _ \<Rightarrow> Err (BadShape s))"

definition repo_string :: "repo_id \<Rightarrow> string" where
  "repo_string r = (if Owner r = [] then Name r else Owner r @ ''/'' @ Name r)"

definition repo_is_zero :: "repo_id \<Rightarrow> bool" where
  "repo_is_zero r \<longleftrightarrow> Name r = []"

definition IsCommitSHA :: "string \<Rightarrow> bool" where
  "IsCommitSHA sha \<longleftrightarrow> length sha = 40 \<and> list_all is_lower_hex sha"

definition DefaultRevision :: string where
  "DefaultRevision = ''main''"

text \<open>A valid identifier: what \<open>ParseRepoID\<close> returns.\<close>

definition valid_repo :: "repo_id \<Rightarrow> bool" where
  "valid_repo r \<longleftrightarrow> (Owner r = [] \<or> repoNamePattern (Owner r)) \<and> repoNamePattern (Name r)"

lemma repo_name_char_not_slash: "repo_name_char c \<Longrightarrow> c \<noteq> CHR ''/''"
  by (auto simp: repo_name_char_def is_alnum_def is_upper_def is_lower_def is_digit_def
      less_eq_char_def)

lemma is_alnum_repo_name_char: "is_alnum c \<Longrightarrow> repo_name_char c"
  by (simp add: repo_name_char_def)

lemma repoNamePattern_all: "repoNamePattern s \<Longrightarrow> list_all repo_name_char s"
  by (cases s) (auto simp: repoNamePattern_def is_alnum_repo_name_char)

lemma repoNamePattern_no_slash: "repoNamePattern s \<Longrightarrow> CHR ''/'' \<notin> set s"
  using repoNamePattern_all [of s] repo_name_char_not_slash by (auto simp: list_all_iff)

lemma repoNamePattern_nonempty: "repoNamePattern s \<Longrightarrow> s \<noteq> []"
  by (simp add: repoNamePattern_def)

lemma check_repo_id_Ok_iff [go_res]: "check_repo_id r = Ok r' \<longleftrightarrow> r' = r \<and> valid_repo r"
  by (auto simp: check_repo_id_def valid_repo_def)

lemma check_repo_id_not_Panic [simp]: "check_repo_id r \<noteq> Panic"
  by (simp add: check_repo_id_def)

lemma ParseRepoID_not_Panic [simp]: "ParseRepoID s \<noteq> Panic"
  by (auto simp: ParseRepoID_def split: list.splits)

lemma ParseRepoID_Ok_valid: "ParseRepoID s = Ok r \<Longrightarrow> valid_repo r"
  by (auto simp: ParseRepoID_def go_res split: list.splits)

lemma ParseRepoID_repo_string: "valid_repo r \<Longrightarrow> ParseRepoID (repo_string r) = Ok r"
proof -
  assume v: "valid_repo r"
  then have n: "CHR ''/'' \<notin> set (Name r)"
    by (auto simp: valid_repo_def dest: repoNamePattern_no_slash)
  show ?thesis
  proof (cases "Owner r = []")
    case True
    with v n show ?thesis
      by (cases r) (simp add: ParseRepoID_def repo_string_def split_on_free go_res)
  next
    case False
    with v have ow: "CHR ''/'' \<notin> set (Owner r)"
      by (auto simp: valid_repo_def dest: repoNamePattern_no_slash)
    with False v n show ?thesis
      by (cases r) (simp add: ParseRepoID_def repo_string_def split_on_append split_on_free go_res)
  qed
qed

text \<open>
  Every repository identifier the parser accepts has a non-empty name, is
  valid, and its canonical string parses back to exactly the same identifier
  (the property the repository fuzzes in repoid_fuzz_test.go).
\<close>

theorem ParseRepoID_roundtrip:
  assumes "ParseRepoID s = Ok r"
  shows "Name r \<noteq> [] \<and> ParseRepoID (repo_string r) = Ok r"
  using ParseRepoID_Ok_valid [OF assms] ParseRepoID_repo_string
  by (auto simp: valid_repo_def dest: repoNamePattern_nonempty)

theorem ParseRepoID_roundtrip_witness:
  "Name \<lparr>Owner = ''org'', Name = ''m.1''\<rparr> \<noteq> [] \<and>
   ParseRepoID (repo_string \<lparr>Owner = ''org'', Name = ''m.1''\<rparr>) = Ok \<lparr>Owner = ''org'', Name = ''m.1''\<rparr>"
proof (rule ParseRepoID_roundtrip)
  show "ParseRepoID ''org/m.1'' = Ok \<lparr>Owner = ''org'', Name = ''m.1''\<rparr>"
    by code_simp
qed

end
