(* ===== verification/Hfapi_Route.thy ===== *)
theory Hfapi_Route
  imports Hfapi
begin

text \<open>
  internal/hfapi/route.go: the Hub's URL grammar. A route is parsed from the
  escaped path, segment by segment. The two loops over identifier lengths
  \<open>[1, 2]\<close> are recursions over that list, so the early returns and the
  \<open>continue\<close> of the source stay visible.
\<close>

section \<open>Routes and the splitting of a path\<close>

datatype route_kind =
  RouteRepoInfo | RouteTree | RouteResolve | RoutePreupload | RouteCommit | RouteLFSBatch
| RouteXetToken

record route =
  Kind :: route_kind
  RepoKind :: repo_kind
  Repo :: repo_id
  Revision :: string
  Path :: string

text \<open>A route for a kind and a repository, the other fields zero.\<close>

definition mk_route :: "route_kind \<Rightarrow> repo_kind \<Rightarrow> repo_id \<Rightarrow> string \<Rightarrow> string \<Rightarrow> route" where
  "mk_route k rk r revn p = \<lparr>Kind = k, RepoKind = rk, Repo = r, Revision = revn, Path = p\<rparr>"

fun unescape_segs :: "string list \<Rightarrow> string list option" where
  "unescape_segs [] = Some []"
| "unescape_segs (s # ss) =
     (if s = [] then None
      else case path_unescape s of
        None \<Rightarrow> None
      | Some d \<Rightarrow> map_option (\<lambda>ds. d # ds) (unescape_segs ss))"

definition splitAndUnescape :: "string \<Rightarrow> string list option" where
  "splitAndUnescape escapedPath =
     (let trimmed = trim_char CHR ''/'' escapedPath in
      if trimmed = [] then None
      else unescape_segs (split_on CHR ''/'' trimmed))"

text \<open>\<open>ParseRepoID(strings.Join(segs[:n], "/"))\<close> with the error dropped.\<close>

definition repo_of_segs :: "string list \<Rightarrow> repo_id option" where
  "repo_of_segs ss = (case ParseRepoID (join_on ''/'' ss) of Ok r \<Rightarrow> Some r | _ \<Rightarrow> None)"

section \<open>The API routes\<close>

definition api_route_kind :: "string \<Rightarrow> route_kind option" where
  "api_route_kind w =
     (if w = ''revision'' then Some RouteRepoInfo
      else if w = ''preupload'' then Some RoutePreupload
      else if w = ''commit'' then Some RouteCommit
      else if w = ''xet-read-token'' \<or> w = ''xet-write-token'' then Some RouteXetToken
      else None)"

fun parse_api_len :: "repo_kind \<Rightarrow> nat list \<Rightarrow> string list \<Rightarrow> route option" where
  "parse_api_len kind [] segs = None"
| "parse_api_len kind (idLen # rest) segs =
     (if length segs < idLen then None
      else if length segs = idLen then
        map_option (\<lambda>r. mk_route RouteRepoInfo kind r [] []) (repo_of_segs (take idLen segs))
      else
        let w = segs ! idLen in
        case api_route_kind w of
          Some rk \<Rightarrow>
            if length segs \<noteq> idLen + 2 then None
            else map_option
                   (\<lambda>r. mk_route rk kind r (segs ! (idLen + 1))
                          (if rk = RouteXetToken
                           then trim_suffix ''-token'' (trim_prefix ''xet-'' w) else []))
                   (repo_of_segs (take idLen segs))
        | None \<Rightarrow>
            if w = ''tree'' then
              (if length segs < idLen + 2 then None
               else map_option
                      (\<lambda>r. mk_route RouteTree kind r (segs ! (idLen + 1))
                             (join_on ''/'' (drop (idLen + 2) segs)))
                      (repo_of_segs (take idLen segs)))
            else parse_api_len kind rest segs)"

definition parseAPIRoute :: "string list \<Rightarrow> route option" where
  "parseAPIRoute segs =
     (case segs of
        [] \<Rightarrow> None
      | p # rest \<Rightarrow>
          if p = ''models'' then parse_api_len RepoKindModel [1, 2] rest
          else if p = ''datasets'' then parse_api_len RepoKindDataset [1, 2] rest
          else None)"

section \<open>The resolve and LFS batch routes\<close>

fun parse_lfs_len :: "repo_kind \<Rightarrow> nat list \<Rightarrow> string list \<Rightarrow> route option" where
  "parse_lfs_len kind [] segs = None"
| "parse_lfs_len kind (idLen # rest) segs =
     (if length segs \<noteq> idLen + 4 then parse_lfs_len kind rest segs
      else if drop idLen segs \<noteq> [''info'', ''lfs'', ''objects'', ''batch'']
      then parse_lfs_len kind rest segs
      else
        let final = segs ! (idLen - 1) in
        if \<not> has_suffix ''.git'' final then parse_lfs_len kind rest segs
        else map_option (\<lambda>r. mk_route RouteLFSBatch kind r [] [])
               (repo_of_segs (take (idLen - 1) segs @ [trim_suffix ''.git'' final])))"

definition parseLFSBatchRoute :: "repo_kind \<Rightarrow> string list \<Rightarrow> route option" where
  "parseLFSBatchRoute kind segs = parse_lfs_len kind [1, 2] segs"

fun parse_resolve_len :: "repo_kind \<Rightarrow> nat list \<Rightarrow> string list \<Rightarrow> route option" where
  "parse_resolve_len kind [] segs = None"
| "parse_resolve_len kind (idLen # rest) segs =
     (if length segs < idLen + 3 then None
      else if segs ! idLen = ''resolve'' then
        map_option (\<lambda>r. mk_route RouteResolve kind r (segs ! (idLen + 1))
                          (join_on ''/'' (drop (idLen + 2) segs)))
          (repo_of_segs (take idLen segs))
      else parse_resolve_len kind rest segs)"

definition parseResolveRoute :: "repo_kind \<Rightarrow> string list \<Rightarrow> route option" where
  "parseResolveRoute kind segs =
     (case parseLFSBatchRoute kind segs of
        Some r \<Rightarrow> Some r
      | None \<Rightarrow> parse_resolve_len kind [1, 2] segs)"

definition ParseRoute :: "string \<Rightarrow> route option" where
  "ParseRoute escapedPath =
     (case splitAndUnescape escapedPath of
        None \<Rightarrow> None
      | Some [] \<Rightarrow> None
      | Some (s # ss) \<Rightarrow>
          if s = ''api'' then parseAPIRoute ss
          else if s = ''datasets'' then parseResolveRoute RepoKindDataset ss
          else parseResolveRoute RepoKindModel (s # ss))"

end
