(* ===== verification/Backend.thy ===== *)
theory Backend
  imports Hfapi
begin

text \<open>
  Package internal/backend: digests (digest.go), the manifest a backend stores
  (backend.go), and the storage contract every backend promises, as a record
  of operations on the backend's state with a locale for its laws. The
  contract is instantiated by the filesystem backend in \<open>Fsbackend\<close> and used
  by the relay in \<open>Relay\<close>. Times are seconds as \<open>int\<close>; contexts carry no
  data the operations read and are left out.
\<close>

section \<open>Digests (digest.go)\<close>

type_synonym digest = string

definition digestPattern :: "string \<Rightarrow> bool" where
  "digestPattern s =
     (case cut_on CHR '':'' s of
        None \<Rightarrow> False
      | Some (algo, hx) \<Rightarrow>
          (algo = ''sha1'' \<or> algo = ''sha256'') \<and>
          6 \<le> length hx \<and> length hx \<le> 128 \<and> list_all is_lower_hex hx)"

definition ParseDigest :: "string \<Rightarrow> (string, digest) res" where
  "ParseDigest s = (if digestPattern s then Ok s else Err s)"

definition NewDigest :: "string \<Rightarrow> string \<Rightarrow> digest" where
  "NewDigest algo hx = algo @ '':'' @ to_lower hx"

definition SHA256Digest :: "string \<Rightarrow> digest" where
  "SHA256Digest hx = NewDigest ''sha256'' hx"

definition SHA1Digest :: "string \<Rightarrow> digest" where
  "SHA1Digest hx = NewDigest ''sha1'' hx"

definition Digest_Algo :: "digest \<Rightarrow> string" where
  "Digest_Algo d = (case cut_on CHR '':'' d of None \<Rightarrow> [] | Some (algo, _) \<Rightarrow> algo)"

definition Digest_Hex :: "digest \<Rightarrow> string" where
  "Digest_Hex d = (case cut_on CHR '':'' d of None \<Rightarrow> d | Some (_, hx) \<Rightarrow> hx)"

definition Digest_IsZero :: "digest \<Rightarrow> bool" where
  "Digest_IsZero d \<longleftrightarrow> d = []"

lemma lower_char_lower_hex [simp]: "is_lower_hex c \<Longrightarrow> lower_char c = c"
  by (auto simp: lower_char_def is_upper_def less_eq_char_def is_lower_hex_iff)

lemma to_lower_lower_hex [simp]: "list_all is_lower_hex s \<Longrightarrow> to_lower s = s"
  unfolding to_lower_def by (induction s) auto

lemma length_to_lower [simp]: "length (to_lower s) = length s"
  by (simp add: to_lower_def)

lemma Digest_parts_NewDigest [simp]:
  "CHR '':'' \<notin> set a \<Longrightarrow> Digest_Algo (NewDigest a hx) = a"
  "CHR '':'' \<notin> set a \<Longrightarrow> Digest_Hex (NewDigest a hx) = to_lower hx"
  by (simp_all add: Digest_Algo_def Digest_Hex_def NewDigest_def cut_on_append)

lemma Digest_sha256 [simp]:
  "Digest_Algo (SHA256Digest hx) = ''sha256''" "Digest_Hex (SHA256Digest hx) = to_lower hx"
  by (simp_all add: SHA256Digest_def)

lemma Digest_sha1 [simp]:
  "Digest_Algo (SHA1Digest hx) = ''sha1''" "Digest_Hex (SHA1Digest hx) = to_lower hx"
  by (simp_all add: SHA1Digest_def)

lemma NewDigest_nonzero [simp]: "\<not> Digest_IsZero (NewDigest a hx)"
  by (simp add: Digest_IsZero_def NewDigest_def)

lemma SHA_nonzero [simp]: "SHA256Digest hx \<noteq> []" "SHA1Digest hx \<noteq> []"
  by (simp_all add: SHA256Digest_def SHA1Digest_def NewDigest_def)

lemma ParseDigest_Ok_iff [go_res]: "ParseDigest s = Ok d \<longleftrightarrow> d = s \<and> digestPattern s"
  by (auto simp: ParseDigest_def)

lemma digestPattern_iff:
  "digestPattern s \<longleftrightarrow>
     (\<exists>algo hx. s = algo @ '':'' @ hx \<and> (algo = ''sha1'' \<or> algo = ''sha256'') \<and>
        6 \<le> length hx \<and> length hx \<le> 128 \<and> list_all is_lower_hex hx)"
proof
  assume "digestPattern s"
  then show "\<exists>algo hx. s = algo @ '':'' @ hx \<and> (algo = ''sha1'' \<or> algo = ''sha256'') \<and>
      6 \<le> length hx \<and> length hx \<le> 128 \<and> list_all is_lower_hex hx"
    by (force simp: digestPattern_def cut_on_Some_iff split: option.splits prod.splits)
next
  assume "\<exists>algo hx. s = algo @ '':'' @ hx \<and> (algo = ''sha1'' \<or> algo = ''sha256'') \<and>
      6 \<le> length hx \<and> length hx \<le> 128 \<and> list_all is_lower_hex hx"
  then show "digestPattern s"
    by (auto simp: digestPattern_def cut_on_append)
qed

lemma ParseDigest_NewDigest:
  "ParseDigest s = Ok d \<Longrightarrow> d = NewDigest (Digest_Algo d) (Digest_Hex d)"
  by (auto simp: go_res digestPattern_iff Digest_Algo_def Digest_Hex_def NewDigest_def)

section \<open>Manifests (backend.go)\<close>

record LFSInfo =
  lfs_SHA256 :: string
  lfs_OID :: string
  lfs_Size :: int
  lfs_PointerSize :: int

record FileEntry =
  fe_Path :: string
  fe_Size :: int
  fe_Digest :: digest
  fe_OID :: string
  fe_LFS :: "LFSInfo option"

record Manifest =
  mf_Repo :: repo_id
  mf_Kind :: repo_kind
  mf_CommitSHA :: string
  mf_FetchedAt :: int
  mf_CreatedAt :: int
  mf_Files :: "FileEntry list"

text \<open>
  \<open>Manifest.File\<close> returns a pointer into the list; the index is that pointer,
  so that a caller that writes through it writes the manifest's entry.
\<close>

fun find_entry :: "string \<Rightarrow> nat \<Rightarrow> FileEntry list \<Rightarrow> nat option" where
  "find_entry p i [] = None"
| "find_entry p i (f # fs) = (if fe_Path f = p then Some i else find_entry p (Suc i) fs)"

definition Manifest_File :: "Manifest \<Rightarrow> string \<Rightarrow> nat option" where
  "Manifest_File m p = find_entry p 0 (mf_Files m)"

definition FileEntry_ETag :: "FileEntry \<Rightarrow> string" where
  "FileEntry_ETag f =
     (case fe_LFS f of
        Some l \<Rightarrow> if lfs_SHA256 l \<noteq> [] then lfs_SHA256 l
                  else if fe_OID f \<noteq> [] then fe_OID f else Digest_Hex (fe_Digest f)
      | None \<Rightarrow> if fe_OID f \<noteq> [] then fe_OID f else Digest_Hex (fe_Digest f))"

lemma find_entry_Some:
  "find_entry p i fs = Some k \<Longrightarrow>
     \<exists>j. k = i + j \<and> j < length fs \<and> fe_Path (fs ! j) = p \<and> (\<forall>l < j. fe_Path (fs ! l) \<noteq> p)"
proof (induction fs arbitrary: i)
  case Nil
  then show ?case by simp
next
  case (Cons f fs)
  show ?case
  proof (cases "fe_Path f = p")
    case True
    with Cons.prems show ?thesis by (intro exI [of _ 0]) auto
  next
    case False
    with Cons.prems have "find_entry p (Suc i) fs = Some k" by simp
    from Cons.IH [OF this] obtain j where
      j: "k = Suc i + j" "j < length fs" "fe_Path (fs ! j) = p" "\<forall>l < j. fe_Path (fs ! l) \<noteq> p"
      by auto
    with False show ?thesis
      by (intro exI [of _ "Suc j"]) (auto simp: nth_Cons split: nat.splits)
  qed
qed

lemma find_entry_None_iff: "find_entry p i fs = None \<longleftrightarrow> p \<notin> fe_Path ` set fs"
  by (induction fs arbitrary: i) auto

lemma Manifest_File_Some:
  "Manifest_File m p = Some k \<Longrightarrow>
     k < length (mf_Files m) \<and> fe_Path (mf_Files m ! k) = p \<and>
     (\<forall>l < k. fe_Path (mf_Files m ! l) \<noteq> p)"
  unfolding Manifest_File_def by (drule find_entry_Some) auto

lemma Manifest_File_None_iff: "Manifest_File m p = None \<longleftrightarrow> p \<notin> fe_Path ` set (mf_Files m)"
  by (simp add: Manifest_File_def find_entry_None_iff)

section \<open>The storage contract (interface Backend)\<close>

datatype backend_error =
  ErrRepoNotFound | ErrRepoExists | ErrRevisionNotFound | ErrBlobNotFound | ErrDigestMismatch
| BackendFault string

record BlobInfo =
  bi_Digest :: digest
  bi_Size :: int

text \<open>
  The operations as state transformers on the backend's state \<open>'s\<close>. A reader
  argument is the bytes it yields; \<open>OpenBlob\<close> returns the blob's bytes.
\<close>

record 's Backend =
  bk_Name :: string
  bk_CreateRepo :: "repo_kind \<Rightarrow> repo_id \<Rightarrow> 's \<Rightarrow> (backend_error, unit) res \<times> 's"
  bk_DeleteRepo :: "repo_kind \<Rightarrow> repo_id \<Rightarrow> 's \<Rightarrow> (backend_error, unit) res \<times> 's"
  bk_ResolveRef :: "repo_kind \<Rightarrow> repo_id \<Rightarrow> string \<Rightarrow> 's \<Rightarrow> (backend_error, string) res"
  bk_GetManifest :: "repo_kind \<Rightarrow> repo_id \<Rightarrow> string \<Rightarrow> 's \<Rightarrow> (backend_error, Manifest) res"
  bk_PutManifest :: "Manifest \<Rightarrow> (string \<times> string) list \<Rightarrow> 's \<Rightarrow> (backend_error, unit) res \<times> 's"
  bk_StatBlob :: "repo_kind \<Rightarrow> repo_id \<Rightarrow> digest \<Rightarrow> 's \<Rightarrow> (backend_error, BlobInfo) res"
  bk_OpenBlob :: "repo_kind \<Rightarrow> repo_id \<Rightarrow> digest \<Rightarrow> 's \<Rightarrow> (backend_error, byte list) res"
  bk_PutBlob :: "repo_kind \<Rightarrow> repo_id \<Rightarrow> digest \<Rightarrow> byte list \<Rightarrow> int \<Rightarrow> 's \<Rightarrow>
                   (backend_error, unit) res \<times> 's"
  bk_Ping :: "'s \<Rightarrow> (backend_error, unit) res"

text \<open>
  The laws of the interface, for one repository: what the comments of \<open>Backend\<close>
  promise and what the relay and the replication queue rely on. \<open>good\<close> is the
  implementation's invariant, \<open>content_ok\<close> what it verifies of a blob, and \<open>fits\<close>
  says which manifests it is able to read back. Only
  well-formed digests (\<open>digestPattern\<close>) and manifests (\<open>manifest_ok\<close>) are
  covered. Errors are free except where the laws name them.
\<close>

definition manifest_ok :: "repo_kind \<Rightarrow> repo_id \<Rightarrow> Manifest \<Rightarrow> bool" where
  "manifest_ok kind repo m \<longleftrightarrow> mf_Repo m = repo \<and> mf_Kind m = kind"

locale backend_contract =
  fixes b :: "'s Backend" and kind :: repo_kind and repo :: repo_id
    and good :: "'s \<Rightarrow> bool" and content_ok :: "digest \<Rightarrow> byte list \<Rightarrow> bool"
    and fits :: "Manifest \<Rightarrow> bool"
  assumes create_good:
      "good s \<Longrightarrow> bk_CreateRepo b kind repo s = (r, s') \<Longrightarrow> good s'"
    and resolve_commit:
      "good s \<Longrightarrow> bk_ResolveRef b kind repo ref s = Ok sha \<Longrightarrow> IsCommitSHA sha"
    and put_blob_again:
      "good s \<Longrightarrow> digestPattern d \<Longrightarrow> bk_OpenBlob b kind repo d s = Ok c' \<Longrightarrow>
         bk_PutBlob b kind repo d c n s = (Ok (), s)"
    and put_blob_good:
      "good s \<Longrightarrow> digestPattern d \<Longrightarrow> bk_PutBlob b kind repo d c n s = (r, s') \<Longrightarrow> good s'"
    and put_blob_stored:
      "good s \<Longrightarrow> digestPattern d \<Longrightarrow> bk_PutBlob b kind repo d c n s = (Ok (), s') \<Longrightarrow>
         \<exists>c'. bk_OpenBlob b kind repo d s' = Ok c'"
    and put_blob_keeps:
      "good s \<Longrightarrow> digestPattern d \<Longrightarrow> bk_PutBlob b kind repo d c n s = (r, s') \<Longrightarrow>
         digestPattern d' \<Longrightarrow> bk_OpenBlob b kind repo d' s = Ok c' \<Longrightarrow>
         bk_OpenBlob b kind repo d' s' = Ok c'"
    and put_blob_manifests:
      "good s \<Longrightarrow> digestPattern d \<Longrightarrow> bk_PutBlob b kind repo d c n s = (r, s') \<Longrightarrow>
         IsCommitSHA sha \<Longrightarrow> bk_GetManifest b kind repo sha s = Ok m \<Longrightarrow>
         bk_GetManifest b kind repo sha s' = Ok m"
    and put_blob_refs:
      "good s \<Longrightarrow> digestPattern d \<Longrightarrow> bk_PutBlob b kind repo d c n s = (r, s') \<Longrightarrow>
         bk_ResolveRef b kind repo ref s = Ok sha \<Longrightarrow> bk_ResolveRef b kind repo ref s' = Ok sha"
    and put_manifest_good:
      "good s \<Longrightarrow> manifest_ok kind repo m \<Longrightarrow> distinct (map fst refs) \<Longrightarrow>
         bk_PutManifest b m refs s = (r, s') \<Longrightarrow> good s'"
    and put_manifest_stored:
      "good s \<Longrightarrow> manifest_ok kind repo m \<Longrightarrow> distinct (map fst refs) \<Longrightarrow>
         bk_PutManifest b m refs s = (Ok (), s') \<Longrightarrow> fits m \<Longrightarrow>
         bk_GetManifest b kind repo (mf_CommitSHA m) s' = Ok m"
    and put_manifest_refs:
      "good s \<Longrightarrow> manifest_ok kind repo m \<Longrightarrow> distinct (map fst refs) \<Longrightarrow>
         bk_PutManifest b m refs s = (Ok (), s') \<Longrightarrow> (ref, sha) \<in> set refs \<Longrightarrow>
         \<not> IsCommitSHA ref \<Longrightarrow> bk_ResolveRef b kind repo ref s' = Ok sha"
    and put_manifest_blobs:
      "good s \<Longrightarrow> manifest_ok kind repo m \<Longrightarrow> distinct (map fst refs) \<Longrightarrow>
         bk_PutManifest b m refs s = (r, s') \<Longrightarrow> digestPattern d \<Longrightarrow>
         bk_OpenBlob b kind repo d s = Ok c \<Longrightarrow> bk_OpenBlob b kind repo d s' = Ok c"
    and put_manifest_others:
      "good s \<Longrightarrow> manifest_ok kind repo m \<Longrightarrow> distinct (map fst refs) \<Longrightarrow>
         bk_PutManifest b m refs s = (r, s') \<Longrightarrow> sha \<noteq> mf_CommitSHA m \<Longrightarrow>
         IsCommitSHA sha \<Longrightarrow> bk_GetManifest b kind repo sha s = Ok m' \<Longrightarrow>
         bk_GetManifest b kind repo sha s' = Ok m'"
    and stat_iff_open:
      "good s \<Longrightarrow> digestPattern d \<Longrightarrow>
         (\<exists>i. bk_StatBlob b kind repo d s = Ok i) \<longleftrightarrow> (\<exists>c. bk_OpenBlob b kind repo d s = Ok c)"
    and open_content:
      "good s \<Longrightarrow> digestPattern d \<Longrightarrow> bk_OpenBlob b kind repo d s = Ok c \<Longrightarrow> content_ok d c"

text \<open>
  A family of backends, each on its own part of the world: the operations of the
  backend \<open>b\<close> on the component \<open>n\<close>.
\<close>

definition lift_op :: "'n \<Rightarrow> ('s \<Rightarrow> 'a \<times> 's) \<Rightarrow> ('n \<Rightarrow> 's) \<Rightarrow> 'a \<times> ('n \<Rightarrow> 's)" where
  "lift_op n f w = (case f (w n) of (r, s) \<Rightarrow> (r, w(n := s)))"

definition lift_backend :: "'n \<Rightarrow> 's Backend \<Rightarrow> ('n \<Rightarrow> 's) Backend" where
  "lift_backend n b =
     \<lparr>bk_Name = bk_Name b,
      bk_CreateRepo = (\<lambda>k r. lift_op n (bk_CreateRepo b k r)),
      bk_DeleteRepo = (\<lambda>k r. lift_op n (bk_DeleteRepo b k r)),
      bk_ResolveRef = (\<lambda>k r ref w. bk_ResolveRef b k r ref (w n)),
      bk_GetManifest = (\<lambda>k r sha w. bk_GetManifest b k r sha (w n)),
      bk_PutManifest = (\<lambda>m refs. lift_op n (bk_PutManifest b m refs)),
      bk_StatBlob = (\<lambda>k r d w. bk_StatBlob b k r d (w n)),
      bk_OpenBlob = (\<lambda>k r d w. bk_OpenBlob b k r d (w n)),
      bk_PutBlob = (\<lambda>k r d c sz. lift_op n (bk_PutBlob b k r d c sz)),
      bk_Ping = (\<lambda>w. bk_Ping b (w n))\<rparr>"

lemma lift_op_eq_iff:
  "lift_op n f w = (r, w') \<longleftrightarrow> (\<exists>s. f (w n) = (r, s) \<and> w' = w(n := s))"
  by (auto simp: lift_op_def split: prod.splits)

lemma lift_backend_contract:
  assumes "backend_contract b kind repo good content_ok fits"
  shows "backend_contract (lift_backend n b) kind repo (\<lambda>w. good (w n)) content_ok fits"
proof -
  note laws = backend_contract.create_good [OF assms] backend_contract.resolve_commit [OF assms]
    backend_contract.put_blob_good [OF assms] backend_contract.put_blob_stored [OF assms]
    backend_contract.put_blob_keeps [OF assms] backend_contract.put_blob_manifests [OF assms]
    backend_contract.put_blob_refs [OF assms] backend_contract.put_manifest_good [OF assms]
    backend_contract.put_manifest_stored [OF assms] backend_contract.put_manifest_refs [OF assms]
    backend_contract.put_manifest_blobs [OF assms] backend_contract.put_manifest_others [OF assms]
    backend_contract.open_content [OF assms]
  show ?thesis
    by unfold_locales
      (auto simp: lift_backend_def lift_op_eq_iff backend_contract.stat_iff_open [OF assms]
        backend_contract.put_blob_again [OF assms] intro: laws)
qed

end
