(* ===== verification/Upstream.thy ===== *)
theory Upstream
  imports Hfapi_Route Backend
begin

text \<open>
  internal/upstream/upstream.go: the client side of the Hub API. The transport
  (net/http with its redirects) and the JSON decoder are parameters; requests,
  URLs, header reading, the error mapping and the conversion to a manifest are
  translated.
\<close>

section \<open>Requests and responses\<close>

record request =
  rq_Method :: string
  rq_URL :: string
  rq_Header :: "(string \<times> string) list"

record response =
  rs_StatusCode :: nat
  rs_Header :: "string \<Rightarrow> string"
  rs_ContentLength :: int
  rs_Body :: "byte list"

text \<open>\<open>http.Client.Do\<close>: a response or a transport error, on the state of the outside world.\<close>

type_synonym 'w http = "request \<Rightarrow> 'w \<Rightarrow> (string, response) res \<times> 'w"

datatype upstream_error =
  UpRepoNotFound | UpRevisionNotFound | UpEntryNotFound | UpUnauthorized
| UpStatus nat | UpTransport string | UpDecode | UpNoCommitSHA

record Client =
  endpoint :: string
  orgToken :: string

definition Upstream_New :: "string \<Rightarrow> string \<Rightarrow> Client" where
  "Upstream_New ep tok = \<lparr>endpoint = trim_right_char CHR ''/'' ep, orgToken = tok\<rparr>"

definition authorize :: "string \<Rightarrow> Client \<Rightarrow> string \<Rightarrow> (string \<times> string) list" where
  "authorize version c callerToken =
     (if orgToken c \<noteq> [] then [(''Authorization'', ''Bearer '' @ orgToken c)]
      else if callerToken \<noteq> [] then [(''Authorization'', ''Bearer '' @ callerToken)]
      else []) @ [(''User-Agent'', ''shpiel/'' @ version)]"

text \<open>\<open>errorFromResponse\<close>: the error code header first, then the status; \<open>None\<close> is nil.\<close>

definition errorFromResponse :: "response \<Rightarrow> upstream_error option" where
  "errorFromResponse r =
     (if rs_StatusCode r < 400 then None
      else
        let code = rs_Header r ''X-Error-Code'' in
        if code = ''RepoNotFound'' then Some UpRepoNotFound
        else if code = ''RevisionNotFound'' then Some UpRevisionNotFound
        else if code = ''EntryNotFound'' then Some UpEntryNotFound
        else if code = ''GatedRepo'' then Some UpUnauthorized
        else if rs_StatusCode r = 401 \<or> rs_StatusCode r = 403 then Some UpUnauthorized
        else if rs_StatusCode r = 404 then Some UpEntryNotFound
        else Some (UpStatus (rs_StatusCode r)))"

section \<open>URLs\<close>

definition escapePath :: "string \<Rightarrow> string" where
  "escapePath p = join_on ''/'' (map path_escape (split_on CHR ''/'' p))"

definition resolveURL :: "Client \<Rightarrow> repo_kind \<Rightarrow> repo_id \<Rightarrow> string \<Rightarrow> string \<Rightarrow> string" where
  "resolveURL c kind repo revision path =
     (let prefix = (if kind = RepoKindDataset then ''/datasets'' else []) in
      endpoint c @ prefix @ ''/'' @ repo_string repo @ ''/resolve/'' @ path_escape revision
        @ ''/'' @ escapePath path)"

text \<open>The URL of \<open>GetModelInfo\<close> without its query, and with it.\<close>

definition model_info_path :: "repo_kind \<Rightarrow> repo_id \<Rightarrow> string \<Rightarrow> string" where
  "model_info_path kind repo revision =
     ''/api/'' @ APIPrefix kind @ ''/'' @ repo_string repo @ ''/revision/'' @ path_escape revision"

definition model_info_url :: "Client \<Rightarrow> repo_kind \<Rightarrow> repo_id \<Rightarrow> string \<Rightarrow> string" where
  "model_info_url c kind repo revision =
     endpoint c @ model_info_path kind repo revision @ ''?blobs=true''"

section \<open>The calls\<close>

record Sibling =
  sb_RFilename :: string
  sb_Size :: "int option"
  sb_BlobID :: string
  sb_LFS :: "LFSInfo option"

record ModelInfo =
  mi_SHA :: string
  mi_LastModified :: int
  mi_Siblings :: "Sibling list"

record FileMeta =
  mt_CommitSHA :: string
  mt_ETag :: string
  mt_LinkedETag :: string
  mt_Size :: int

definition unquoteETag :: "string \<Rightarrow> string" where
  "unquoteETag s = trim_char CHR 0x22 (trim_prefix ''W/'' s)"

definition fileMetaFromHeaders :: "response \<Rightarrow> FileMeta" where
  "fileMetaFromHeaders r =
     (let v = rs_Header r ''X-Linked-Size'';
          size = (if v \<noteq> [] then (case parse_int64 v of Some n \<Rightarrow> n | None \<Rightarrow> 0)
                  else if 0 \<le> rs_ContentLength r then rs_ContentLength r else 0)
      in \<lparr>mt_CommitSHA = rs_Header r ''X-Repo-Commit'',
          mt_ETag = unquoteETag (rs_Header r ''ETag''),
          mt_LinkedETag = unquoteETag (rs_Header r ''X-Linked-Etag''),
          mt_Size = size\<rparr>)"

text \<open>One request whose error statuses are mapped by \<open>errorFromResponse\<close>.\<close>

definition up_call :: "'w http \<Rightarrow> request \<Rightarrow> 'w \<Rightarrow> (upstream_error, response) res \<times> 'w" where
  "up_call http rq w =
     (case http rq w of
        (Err e, w') \<Rightarrow> (Err (UpTransport e), w')
      | (Panic, w') \<Rightarrow> (Panic, w')
      | (Ok r, w') \<Rightarrow> (case errorFromResponse r of
                         Some e \<Rightarrow> (Err e, w')
                       | None \<Rightarrow> (Ok r, w')))"

definition GetModelInfo ::
  "(byte list \<Rightarrow> ModelInfo option) \<Rightarrow> 'w http \<Rightarrow> string \<Rightarrow> Client \<Rightarrow> repo_kind \<Rightarrow> repo_id \<Rightarrow> string
   \<Rightarrow> string \<Rightarrow> 'w \<Rightarrow> (upstream_error, ModelInfo) res \<times> 'w" where
  "GetModelInfo dec http version c kind repo revision callerToken w =
     (case up_call http \<lparr>rq_Method = ''GET'', rq_URL = model_info_url c kind repo revision,
                         rq_Header = authorize version c callerToken\<rparr> w of
        (Ok r, w') \<Rightarrow> (case dec (take (64 * 2 ^ 20) (rs_Body r)) of
                         None \<Rightarrow> (Err UpDecode, w')
                       | Some info \<Rightarrow> (Ok info, w'))
      | (Err e, w') \<Rightarrow> (Err e, w')
      | (Panic, w') \<Rightarrow> (Panic, w'))"

definition StatFile ::
  "'w http \<Rightarrow> string \<Rightarrow> Client \<Rightarrow> repo_kind \<Rightarrow> repo_id \<Rightarrow> string \<Rightarrow> string \<Rightarrow> string \<Rightarrow> 'w
   \<Rightarrow> (upstream_error, FileMeta) res \<times> 'w" where
  "StatFile http version c kind repo revision path callerToken w =
     (case up_call http \<lparr>rq_Method = ''HEAD'', rq_URL = resolveURL c kind repo revision path,
                         rq_Header = authorize version c callerToken @ [(''Accept-Encoding'', ''identity'')]\<rparr> w of
        (r, w') \<Rightarrow> (res_map fileMetaFromHeaders r, w'))"

definition Upstream_OpenFile ::
  "'w http \<Rightarrow> string \<Rightarrow> Client \<Rightarrow> repo_kind \<Rightarrow> repo_id \<Rightarrow> string \<Rightarrow> string \<Rightarrow> string \<Rightarrow> 'w
   \<Rightarrow> (upstream_error, byte list \<times> FileMeta) res \<times> 'w" where
  "Upstream_OpenFile http version c kind repo revision path callerToken w =
     (case up_call http \<lparr>rq_Method = ''GET'', rq_URL = resolveURL c kind repo revision path,
                         rq_Header = authorize version c callerToken @ [(''Accept-Encoding'', ''identity'')]\<rparr> w of
        (r, w') \<Rightarrow> (res_map (\<lambda>r. (rs_Body r, fileMetaFromHeaders r)) r, w'))"

definition Upstream_WhoAmI ::
  "'w http \<Rightarrow> string \<Rightarrow> Client \<Rightarrow> string \<Rightarrow> 'w \<Rightarrow> (upstream_error, nat \<times> byte list) res \<times> 'w" where
  "Upstream_WhoAmI http version c callerToken w =
     (case http \<lparr>rq_Method = ''GET'', rq_URL = endpoint c @ ''/api/whoami-v2'',
                 rq_Header = (if callerToken \<noteq> [] then [(''Authorization'', ''Bearer '' @ callerToken)] else [])
                              @ [(''User-Agent'', ''shpiel/'' @ version)]\<rparr> w of
        (Err e, w') \<Rightarrow> (Err (UpTransport e), w')
      | (Panic, w') \<Rightarrow> (Panic, w')
      | (Ok r, w') \<Rightarrow> (Ok (rs_StatusCode r, take (2 ^ 20) (rs_Body r)), w'))"

definition Upstream_Ping :: "'w http \<Rightarrow> Client \<Rightarrow> 'w \<Rightarrow> (upstream_error, unit) res \<times> 'w" where
  "Upstream_Ping http c w =
     (case http \<lparr>rq_Method = ''HEAD'', rq_URL = endpoint c @ ''/api/models/none/none'',
                 rq_Header = []\<rparr> w of
        (Err e, w') \<Rightarrow> (Err (UpTransport e), w')
      | (Panic, w') \<Rightarrow> (Panic, w')
      | (Ok r, w') \<Rightarrow> (Ok (), w'))"

section \<open>From model info to a manifest\<close>

definition sibling_entry :: "Sibling \<Rightarrow> FileEntry" where
  "sibling_entry s =
     (let size = (case sb_Size s of Some n \<Rightarrow> n | None \<Rightarrow> 0);
          base = \<lparr>fe_Path = sb_RFilename s, fe_Size = size, fe_Digest = [], fe_OID = sb_BlobID s,
                  fe_LFS = None\<rparr>
      in case sb_LFS s of
           Some l \<Rightarrow>
             (let hx = (if lfs_SHA256 l = [] then lfs_OID l else lfs_SHA256 l) in
              if hx \<noteq> [] then
                base\<lparr>fe_Digest := SHA256Digest hx,
                     fe_LFS := Some \<lparr>lfs_SHA256 = hx, lfs_OID = hx, lfs_Size = lfs_Size l,
                                     lfs_PointerSize = lfs_PointerSize l\<rparr>,
                     fe_Size := (if 0 < lfs_Size l then lfs_Size l else size)\<rparr>
              else base)
         | None \<Rightarrow>
             if sb_BlobID s \<noteq> [] then base\<lparr>fe_Digest := SHA1Digest (sb_BlobID s)\<rparr> else base)"

definition ManifestFromModelInfo ::
  "repo_kind \<Rightarrow> repo_id \<Rightarrow> ModelInfo \<Rightarrow> int \<Rightarrow> (upstream_error, Manifest) res" where
  "ManifestFromModelInfo kind repo info fetchedAt =
     (if mi_SHA info = [] then Err UpNoCommitSHA
      else Ok \<lparr>mf_Repo = repo, mf_Kind = kind, mf_CommitSHA = mi_SHA info,
               mf_FetchedAt = fetchedAt, mf_CreatedAt = mi_LastModified info,
               mf_Files = map sibling_entry (mi_Siblings info)\<rparr>)"

section \<open>The URLs the client builds are the URLs the router reads\<close>

lemma join_on_append:
  "xs \<noteq> [] \<Longrightarrow> ys \<noteq> [] \<Longrightarrow> join_on sep (xs @ ys) = join_on sep xs @ sep @ join_on sep ys"
proof (induction xs rule: induct_list012)
  case (2 x)
  then show ?case by (cases ys) auto
next
  case (3 x y zs)
  then show ?case by simp
qed simp

lemma join_on_Cons: "ys \<noteq> [] \<Longrightarrow> join_on sep (x # ys) = x @ sep @ join_on sep ys"
  by (cases ys) auto

lemma unescape_segs_map: "[] \<notin> set ss \<Longrightarrow> unescape_segs (map path_escape ss) = Some ss"
  by (induction ss) auto

text \<open>An escaped path of non-empty segments splits into exactly those segments.\<close>

lemma splitAndUnescape_join:
  assumes "ss \<noteq> []" and "[] \<notin> set ss"
  shows "splitAndUnescape (''/'' @ join_on ''/'' (map path_escape ss)) = Some ss"
proof -
  let ?es = "map path_escape ss"
  let ?j = "join_on ''/'' ?es"
  have ne: "?es \<noteq> []" "\<forall>s \<in> set ?es. s \<noteq> []" "\<forall>s \<in> set ?es. CHR ''/'' \<notin> set s"
    using assms by auto
  then have "hd ?es \<noteq> []" "last ?es \<noteq> []"
    by (metis hd_in_set, metis last_in_set)
  moreover from this have "hd (hd ?es) \<in> set (hd ?es)" "last (last ?es) \<in> set (last ?es)" by auto
  moreover have "hd ?es \<in> set ?es" "last ?es \<in> set ?es"
    using ne(1) by (metis hd_in_set, metis last_in_set)
  ultimately have "hd (hd ?es) \<noteq> CHR ''/''" "last (last ?es) \<noteq> CHR ''/''"
    using ne(3) by metis+
  then have "?j \<noteq> []" "hd ?j \<noteq> CHR ''/''" "last ?j \<noteq> CHR ''/''"
    using ne \<open>hd ?es \<noteq> []\<close> by (simp_all only: join_on_nonempty hd_join_on last_join_on not_False_eq_True)
  then have "trim_char CHR ''/'' (''/'' @ ?j) = ?j"
    by (simp add: trim_char_id)
  moreover have "split_on CHR ''/'' ?j = ?es"
    using ne by (simp add: split_join)
  ultimately show ?thesis
    using \<open>?j \<noteq> []\<close> assms by (simp add: splitAndUnescape_def unescape_segs_map)
qed

definition repo_segs :: "repo_id \<Rightarrow> string list" where
  "repo_segs r = (if Owner r = [] then [Name r] else [Owner r, Name r])"

lemma repo_name_char_unescaped: "repo_name_char c \<Longrightarrow> path_unescaped c"
  by (auto simp: repo_name_char_def path_unescaped_def)

lemma repoNamePattern_path_escape: "repoNamePattern s \<Longrightarrow> path_escape s = s"
  by (rule path_escape_unescaped, drule repoNamePattern_all)
     (auto simp: list_all_iff repo_name_char_unescaped)

lemma repo_segs_nonempty [simp]: "repo_segs r \<noteq> []"
  by (simp add: repo_segs_def)

lemma repo_segs_valid:
  assumes "valid_repo r"
  shows "[] \<notin> set (repo_segs r)" and "map path_escape (repo_segs r) = repo_segs r"
    and "join_on ''/'' (repo_segs r) = repo_string r" and "repo_of_segs (repo_segs r) = Some r"
  using assms ParseRepoID_repo_string [OF assms]
  by (auto simp: repo_segs_def valid_repo_def repoNamePattern_path_escape repo_string_def
      repo_of_segs_def dest: repoNamePattern_nonempty)

lemma escapePath_join: "escapePath p = join_on ''/'' (map path_escape (split_on CHR ''/'' p))"
  by (simp add: escapePath_def)


text \<open>The escaped path of a resolve URL, as a list of segments.\<close>

lemma resolveURL_segs:
  assumes "valid_repo repo"
  shows "resolveURL c kind repo revision path =
    endpoint c @ ''/'' @ join_on ''/'' (map path_escape
      ((if kind = RepoKindDataset then [''datasets''] else []) @ repo_segs repo
        @ [''resolve'', revision] @ split_on CHR ''/'' path))"
proof -
  have lit: "path_escape ''resolve'' = ''resolve''" "path_escape ''datasets'' = ''datasets''"
    by code_simp+
  show ?thesis
    using repo_segs_valid(2,3) [OF assms]
    by (simp add: resolveURL_def Let_def join_on_append join_on_Cons lit escapePath_def
        del: path_escape.simps)
qed

lemma model_info_path_segs:
  assumes "valid_repo repo" and "kind \<noteq> RepoKindNone"
  shows "model_info_path kind repo revision =
    ''/'' @ join_on ''/'' (map path_escape
      ([''api'', APIPrefix kind] @ repo_segs repo @ [''revision'', revision]))"
proof -
  have lit: "path_escape ''api'' = ''api''" "path_escape ''revision'' = ''revision''"
    "path_escape ''models'' = ''models''" "path_escape ''datasets'' = ''datasets''"
    by code_simp+
  have "APIPrefix kind = ''models'' \<or> APIPrefix kind = ''datasets''"
    using assms(2) by (cases kind) (auto simp: APIPrefix_def)
  then have "path_escape (APIPrefix kind) = APIPrefix kind" using lit by auto
  then show ?thesis
    using repo_segs_valid(2,3) [OF assms(1)]
    by (simp add: model_info_path_def join_on_append join_on_Cons lit del: path_escape.simps)
qed

lemma parse_resolve_segs:
  assumes v: "valid_repo repo" and "Owner repo = [] \<or> Name repo \<noteq> ''resolve''"
    and "ps \<noteq> []"
  shows "parseResolveRoute kind (repo_segs repo @ [''resolve'', revision] @ ps)
           = Some (mk_route RouteResolve kind repo revision (join_on ''/'' ps))"
proof -
  obtain p ps' where ps: "ps = p # ps'" using assms(3) by (cases ps) auto
  note r = repo_segs_valid(4) [OF v]
  have suf: "\<not> has_suffix ''.git'' ''resolve''" by code_simp
  show ?thesis
  proof (cases "Owner repo = []")
    case True
    then have "repo_segs repo = [Name repo]" by (simp add: repo_segs_def)
    with r ps suf show ?thesis
      by (auto simp: parseResolveRoute_def parseLFSBatchRoute_def numeral_2_eq_2 Let_def)
  next
    case False
    then have "repo_segs repo = [Owner repo, Name repo]" by (simp add: repo_segs_def)
    with r ps False assms(2) show ?thesis
      by (auto simp: parseResolveRoute_def parseLFSBatchRoute_def numeral_2_eq_2 Let_def)
  qed
qed

text \<open>
  C26. A URL the upstream client builds for a file routes back, on a server that
  speaks the same grammar, to exactly the repository, revision and file path it
  was built from, for every revision (slashes and escapes included) and every
  path without empty segments. A model whose first segment is \<open>api\<close> or
  \<open>datasets\<close> and a namespaced repository named \<open>resolve\<close> are the ambiguous
  shapes the grammar excludes.
\<close>

theorem ParseRoute_resolveURL:
  assumes "valid_repo repo" and "revision \<noteq> []" and "[] \<notin> set (split_on CHR ''/'' path)"
    and "kind = RepoKindModel \<and> hd (repo_segs repo) \<notin> {''api'', ''datasets''} \<or> kind = RepoKindDataset"
    and "Owner repo = [] \<or> Name repo \<noteq> ''resolve''"
  shows "\<exists>p. resolveURL c kind repo revision path = endpoint c @ p \<and>
             ParseRoute p = Some (mk_route RouteResolve kind repo revision path)"
proof -
  let ?tl = "repo_segs repo @ [''resolve'', revision] @ split_on CHR ''/'' path"
  let ?ss = "(if kind = RepoKindDataset then [''datasets''] else []) @ ?tl"
  have "[] \<notin> set ?ss" and "?ss \<noteq> []"
    using assms(2,3) repo_segs_valid(1) [OF assms(1)] by auto
  then have split: "splitAndUnescape (''/'' @ join_on ''/'' (map path_escape ?ss)) = Some ?ss"
    by (intro splitAndUnescape_join)
  have parse: "parseResolveRoute kind ?tl = Some (mk_route RouteResolve kind repo revision path)"
    using parse_resolve_segs [OF assms(1,5), of "split_on CHR ''/'' path"] by simp
  have "ParseRoute (''/'' @ join_on ''/'' (map path_escape ?ss))
          = Some (mk_route RouteResolve kind repo revision path)"
    using assms(4) split parse repo_segs_nonempty [of repo]
    by (cases "repo_segs repo") (auto simp: ParseRoute_def)
  then show ?thesis
    using resolveURL_segs [OF assms(1)] by blast
qed

theorem ParseRoute_resolveURL_witness:
  "\<exists>p. resolveURL \<lparr>endpoint = ''https://hf.co'', orgToken = []\<rparr> RepoKindModel
         \<lparr>Owner = ''org'', Name = ''m''\<rparr> ''refs/pr/1'' ''vae/a b.bin'' = ''https://hf.co'' @ p \<and>
       ParseRoute p = Some (mk_route RouteResolve RepoKindModel \<lparr>Owner = ''org'', Name = ''m''\<rparr>
                              ''refs/pr/1'' ''vae/a b.bin'')"
proof -
  have "valid_repo \<lparr>Owner = ''org'', Name = ''m''\<rparr>" by code_simp
  then show ?thesis
    using ParseRoute_resolveURL [of "\<lparr>Owner = ''org'', Name = ''m''\<rparr>" "''refs/pr/1''"
        "''vae/a b.bin''" RepoKindModel "\<lparr>endpoint = ''https://hf.co'', orgToken = []\<rparr>"]
    by (simp add: repo_segs_def)
qed

lemma parse_api_revision:
  assumes v: "valid_repo repo"
    and "Owner repo = [] \<or> Name repo \<noteq> ''tree'' \<and> api_route_kind (Name repo) = None"
  shows "parse_api_len kind [1, 2] (repo_segs repo @ [''revision'', revision])
           = Some (mk_route RouteRepoInfo kind repo revision [])"
proof -
  note r = repo_segs_valid(4) [OF v]
  show ?thesis
  proof (cases "Owner repo = []")
    case True
    then have "repo_segs repo = [Name repo]" by (simp add: repo_segs_def)
    with r show ?thesis by (simp add: api_route_kind_def Let_def)
  next
    case False
    then have "repo_segs repo = [Owner repo, Name repo]" by (simp add: repo_segs_def)
    with r False assms(2) show ?thesis
      by (auto simp: Let_def) (simp add: api_route_kind_def)
  qed
qed

text \<open>
  The metadata URL of \<open>GetModelInfo\<close> routes back to the repository-info
  route of the same repository and revision, for models and datasets.
\<close>

theorem ParseRoute_model_info_path:
  assumes "valid_repo repo" and "revision \<noteq> []" and "kind \<noteq> RepoKindNone"
    and "Owner repo = [] \<or> Name repo \<noteq> ''tree'' \<and> api_route_kind (Name repo) = None"
  shows "ParseRoute (model_info_path kind repo revision)
           = Some (mk_route RouteRepoInfo kind repo revision [])"
proof -
  let ?tl = "repo_segs repo @ [''revision'', revision]"
  have k: "kind = RepoKindModel \<and> APIPrefix kind = ''models'' \<or>
           kind = RepoKindDataset \<and> APIPrefix kind = ''datasets''"
    using assms(3) by (cases kind) (auto simp: APIPrefix_def)
  then have "[] \<notin> set ([''api'', APIPrefix kind] @ ?tl)"
    using assms(2) repo_segs_valid(1) [OF assms(1)] by auto
  then have "splitAndUnescape (model_info_path kind repo revision)
               = Some ([''api'', APIPrefix kind] @ ?tl)"
    unfolding model_info_path_segs [OF assms(1,3)] by (intro splitAndUnescape_join) auto
  moreover have "parse_api_len kind [1, 2] ?tl = Some (mk_route RouteRepoInfo kind repo revision [])"
    by (rule parse_api_revision [OF assms(1,4)])
  ultimately show ?thesis
    using k by (auto simp: ParseRoute_def parseAPIRoute_def simp del: parse_api_len.simps)
qed

theorem ParseRoute_model_info_path_witness:
  "ParseRoute (model_info_path RepoKindDataset \<lparr>Owner = [], Name = ''squad''\<rparr> ''main'')
     = Some (mk_route RouteRepoInfo RepoKindDataset \<lparr>Owner = [], Name = ''squad''\<rparr> ''main'' [])"
proof -
  have "valid_repo \<lparr>Owner = [], Name = ''squad''\<rparr>" by code_simp
  then show ?thesis
    by (intro ParseRoute_model_info_path) simp_all
qed

end
