(* ===== verification/Xet_Hash.thy ===== *)
theory Xet_Hash
  imports Go_Url
begin

text \<open>
  internal/xet/hash.go: the 32-byte xet hash and its canonical hexadecimal
  form, four little-endian 64-bit limbs of sixteen digits each.
  \<open>ParseHex\<close> reads every limb with \<open>fmt.Sscanf("%016x")\<close>, so the scanner's
  behaviour (leading spaces skipped, a newline refused, the longest prefix of
  hexadecimal digits, the rest ignored) is part of the model.
\<close>

section \<open>Hashes and their hexadecimal form\<close>

type_synonym hash = "byte list"

definition is_hash :: "hash \<Rightarrow> bool" where
  "is_hash h \<longleftrightarrow> length h = 32"

text \<open>The verb \<open>%016x\<close> on a value below \<open>16 ^ 16\<close>, for \<open>k = 16\<close>.\<close>

fun fixed_hex :: "nat \<Rightarrow> nat \<Rightarrow> string" where
  "fixed_hex 0 n = []"
| "fixed_hex (Suc k) n = fixed_hex k (n div 16) @ [lower_hex (n mod 16)]"

definition limb :: "nat \<Rightarrow> hash \<Rightarrow> nat" where
  "limb i h = le_nat (gslice (8 * i) (8 * i + 8) h)"

definition Hash_Hex :: "hash \<Rightarrow> string" where
  "Hash_Hex h = fixed_hex 16 (limb 0 h) @ fixed_hex 16 (limb 1 h)
                @ fixed_hex 16 (limb 2 h) @ fixed_hex 16 (limb 3 h)"

definition GlobalDedupEligible :: "hash \<Rightarrow> bool" where
  "GlobalDedupEligible h \<longleftrightarrow> limb 3 h mod 1024 = 0"

definition IsBookend :: "hash \<Rightarrow> bool" where
  "IsBookend h \<longleftrightarrow> list_all (\<lambda>b. b = 0xFF) h"

definition zero_hash :: hash where
  "zero_hash = replicate 32 0"

definition Hash_IsZero :: "hash \<Rightarrow> bool" where
  "Hash_IsZero h \<longleftrightarrow> h = zero_hash"

section \<open>Scanning one limb\<close>

text \<open>
  The number of bytes of the space rune (table \<open>space\<close> of package fmt, in UTF-8)
  the input starts with, 0 when there is none.
\<close>

definition space_width :: "nat list \<Rightarrow> nat" where
  "space_width bs =
     (case bs of
        [] \<Rightarrow> 0
      | b # r \<Rightarrow>
          if 9 \<le> b \<and> b \<le> 13 \<or> b = 32 then 1
          else if take 2 bs \<in> {[0xC2, 0x85], [0xC2, 0xA0]} then 2
          else if take 3 bs \<in> {[0xE1, 0x9A, 0x80], [0xE2, 0x80, 0xA8], [0xE2, 0x80, 0xA9],
                               [0xE2, 0x80, 0xAF], [0xE2, 0x81, 0x9F], [0xE3, 0x80, 0x80]}
               \<or> take 2 bs = [0xE2, 0x80] \<and> 3 \<le> length bs \<and> 0x80 \<le> bs ! 2 \<and> bs ! 2 \<le> 0x8A then 3
          else 0)"

text \<open>\<open>ss.SkipSpace\<close>; \<open>None\<close> is the error on a newline.\<close>

function skip_space :: "string \<Rightarrow> string option" where
  "skip_space s =
     (case s of
        [] \<Rightarrow> Some []
      | c # r \<Rightarrow>
          if c = CHR 0x0A then None
          else let w = space_width (map of_char s) in
            if w = 0 then Some s else skip_space (drop w s))"
  by pat_completeness auto
termination
  by (relation "measure length") auto

declare skip_space.simps [simp del]

definition hex_val :: "string \<Rightarrow> nat" where
  "hex_val s = foldl (\<lambda>a c. 16 * a + unhex c) 0 s"

text \<open>\<open>fmt.Sscanf(s, "%016x", &v)\<close> with a \<open>uint64\<close> operand.\<close>

definition scan_hex :: "string \<Rightarrow> nat option" where
  "scan_hex s =
     (case skip_space s of
        None \<Rightarrow> None
      | Some t \<Rightarrow>
          let ds = takeWhile is_hex (take 16 t) in
          if ds = [] then None else Some (hex_val ds))"

datatype hash_error = BadHashLength string | BadHashDigits string

fun parse_limbs :: "string \<Rightarrow> nat \<Rightarrow> string \<Rightarrow> (hash_error, hash) res" where
  "parse_limbs s 0 t = Ok []"
| "parse_limbs s (Suc k) t =
     (case scan_hex (take 16 t) of
        None \<Rightarrow> Err (BadHashDigits s)
      | Some v \<Rightarrow> res_map (\<lambda>h. le_bytes 8 v @ h) (parse_limbs s k (drop 16 t)))"

definition ParseHex :: "string \<Rightarrow> (hash_error, hash) res" where
  "ParseHex s = (if length s \<noteq> 64 then Err (BadHashLength s) else parse_limbs s 4 s)"

section \<open>Lemmas\<close>

lemma length_fixed_hex [simp]: "length (fixed_hex k n) = k"
  by (induction k arbitrary: n) auto

lemma fixed_hex_lower: "list_all is_lower_hex (fixed_hex k n)"
  by (induction k arbitrary: n) auto

lemma hex_val_snoc [simp]: "hex_val (s @ [c]) = 16 * hex_val s + unhex c"
  by (simp add: hex_val_def)

lemma hex_val_fixed_hex: "hex_val (fixed_hex k n) = n mod 16 ^ k"
proof (induction k arbitrary: n)
  case 0
  then show ?case by (simp add: hex_val_def)
next
  case (Suc k)
  then show ?case by (simp add: mod_mult2_eq)
qed

lemma fixed_hex_hex_val: "list_all is_lower_hex s \<Longrightarrow> fixed_hex (length s) (hex_val s) = s"
proof (induction s rule: rev_induct)
  case Nil
  then show ?case by simp
next
  case (snoc c s)
  then have c: "is_lower_hex c" "unhex c < 16" by (auto simp: is_hex_def)
  then have "(16 * hex_val s + unhex c) div 16 = hex_val s"
    and "(16 * hex_val s + unhex c) mod 16 = unhex c"
    by simp_all
  with snoc c show ?case by simp
qed

lemma hex_val_bound: "list_all is_hex s \<Longrightarrow> hex_val s < 16 ^ length s"
proof (induction s rule: rev_induct)
  case Nil
  then show ?case by (simp add: hex_val_def)
next
  case (snoc c s)
  then have "unhex c < 16" "hex_val s + 1 \<le> 16 ^ length s" by auto
  then have "16 * hex_val s + unhex c < 16 * (hex_val s + 1)" by simp
  also have "\<dots> \<le> 16 * 16 ^ length s"
    using \<open>hex_val s + 1 \<le> 16 ^ length s\<close> by (intro mult_le_mono2)
  finally show ?case by simp
qed

lemma list_all_hex: "list_all is_lower_hex s \<Longrightarrow> list_all is_hex s"
  by (auto simp: list_all_iff is_hex_def)

lemma skip_space_hex: "s \<noteq> [] \<Longrightarrow> is_hex (hd s) \<Longrightarrow> skip_space s = Some s"
proof -
  assume "s \<noteq> []" "is_hex (hd s)"
  then obtain c r where s: "s = c # r" "is_hex c" by (cases s) auto
  then have b: "48 \<le> (of_char c :: nat)" "(of_char c :: nat) \<le> 102"
    "of_char c \<noteq> (0x0A :: nat)"
    by (auto simp: is_hex_iff is_lower_hex_iff)
  then have "c \<noteq> CHR 0x0A" by auto
  moreover have "space_width (of_char c # map of_char r) = 0"
    using b by (auto simp: space_width_def numeral_2_eq_2 numeral_3_eq_3)
  ultimately show ?thesis using s by (subst skip_space.simps) simp
qed

lemma scan_hex_digits:
  assumes "length s = 16" and "list_all is_lower_hex s"
  shows "scan_hex s = Some (hex_val s)"
proof -
  from assms have s: "s \<noteq> []" "\<forall>c \<in> set s. is_hex c"
    using list_all_hex [of s] by (auto simp: list_all_iff)
  then have hd: "is_hex (hd s)" by auto
  have "takeWhile is_hex (take 16 s) = s"
    using assms(1) s(2) by (simp add: takeWhile_eq_all_conv)
  then show ?thesis
    using s(1) by (simp only: scan_hex_def skip_space_hex [OF s(1) hd] option.case Let_def if_False)
qed

lemma limb_bound: "is_hash h \<Longrightarrow> i < 4 \<Longrightarrow> limb i h < 2 ^ 64"
  using le_nat_bound [of "gslice (8 * i) (8 * i + 8) h"]
  by (simp add: limb_def is_hash_def)

lemma le_bytes_limb: "is_hash h \<Longrightarrow> i < 4 \<Longrightarrow> le_bytes 8 (limb i h) = gslice (8 * i) (8 * i + 8) h"
  unfolding limb_def by (rule le_bytes_le_nat) (auto simp: is_hash_def)

lemma hash_limbs:
  "is_hash h \<Longrightarrow>
     le_bytes 8 (limb 0 h) @ le_bytes 8 (limb 1 h) @ le_bytes 8 (limb 2 h) @ le_bytes 8 (limb 3 h) = h"
  using slice_append_slice [of 0 8 16 h] slice_append_slice [of 0 16 24 h]
    slice_append_slice [of 0 24 32 h] slice_all [of h]
  by (simp add: le_bytes_limb is_hash_def flip: append_assoc)

lemma scan_hex_limb:
  "is_hash h \<Longrightarrow> i < 4 \<Longrightarrow> scan_hex (fixed_hex 16 (limb i h)) = Some (limb i h)"
  using limb_bound [of h i]
  by (simp add: scan_hex_digits fixed_hex_lower hex_val_fixed_hex)

lemma length_Hash_Hex [simp]: "length (Hash_Hex h) = 64"
  by (simp add: Hash_Hex_def)

lemma Hash_Hex_lower: "list_all is_lower_hex (Hash_Hex h)"
  by (simp add: Hash_Hex_def fixed_hex_lower)

lemma ParseHex_Hex: "is_hash h \<Longrightarrow> ParseHex (Hash_Hex h) = Ok h"
proof -
  assume h: "is_hash h"
  have four: "4 = Suc (Suc (Suc (Suc 0)))" by simp
  have "parse_limbs s 4 (Hash_Hex h) = Ok h" for s
    unfolding four using scan_hex_limb [OF h, of 0] scan_hex_limb [OF h, of 1]
      scan_hex_limb [OF h, of 2] scan_hex_limb [OF h, of 3] hash_limbs [OF h]
    by (simp add: Hash_Hex_def)
  then show ?thesis by (simp add: ParseHex_def)
qed


lemma parse_limbs_length: "parse_limbs s k t = Ok h \<Longrightarrow> length h = 8 * k"
  by (induction s k t arbitrary: h rule: parse_limbs.induct)
     (auto simp: go_res split: option.splits)

lemma parse_limbs_not_Panic [simp]: "parse_limbs s k t \<noteq> Panic"
  by (induction s k t rule: parse_limbs.induct) (auto simp: go_res split: option.splits)

lemma ParseHex_is_hash: "ParseHex s = Ok h \<Longrightarrow> is_hash h"
  by (auto simp: ParseHex_def is_hash_def dest: parse_limbs_length split: if_splits)

lemma ParseHex_not_Panic [simp]: "ParseHex s \<noteq> Panic"
  by (simp add: ParseHex_def)

lemma parse_limbs_lower_hex:
  "length t = 16 * k \<Longrightarrow> list_all is_lower_hex t \<Longrightarrow>
     \<exists>h. parse_limbs s k t = Ok h \<and>
         (\<forall>i < k. le_nat (gslice (8 * i) (8 * i + 8) h) = hex_val (gslice (16 * i) (16 * i + 16) t))"
proof (induction k arbitrary: t)
  case 0
  then show ?case by simp
next
  case (Suc k)
  have t: "length (take 16 t) = 16" "list_all is_lower_hex (take 16 t)"
    using Suc.prems by (auto simp: list_all_iff dest: in_set_takeD)
  have d: "length (drop 16 t) = 16 * k" "list_all is_lower_hex (drop 16 t)"
    using Suc.prems by (auto simp: list_all_iff dest: in_set_dropD)
  from Suc.IH [OF d] obtain h where
    h: "parse_limbs s k (drop 16 t) = Ok h"
    "\<forall>i < k. le_nat (gslice (8 * i) (8 * i + 8) h)
               = hex_val (gslice (16 * i) (16 * i + 16) (drop 16 t))"
    by blast
  let ?v = "hex_val (take 16 t)"
  have "hex_val (take 16 t) < 16 ^ length (take 16 t)"
    by (rule hex_val_bound [OF list_all_hex [OF t(2)]])
  then have v: "?v < 256 ^ 8" using t(1) by simp
  have "le_nat (gslice (8 * i) (8 * i + 8) (le_bytes 8 ?v @ h))
          = hex_val (gslice (16 * i) (16 * i + 16) t)" if i: "i < Suc k" for i
  proof (cases i)
    case 0
    with v show ?thesis
      by (simp add: gslice_def le_nat_le_bytes)
  next
    case (Suc j)
    have "gslice (8 * i) (8 * i + 8) (le_bytes 8 ?v @ h) = gslice (8 * j) (8 * j + 8) h"
      using Suc by (simp add: gslice_def add.commute)
    moreover have "gslice (16 * i) (16 * i + 16) t = gslice (16 * j) (16 * j + 16) (drop 16 t)"
      using Suc by (simp add: gslice_def add.commute)
    ultimately show ?thesis using h(2) i Suc by simp
  qed
  moreover have "parse_limbs s (Suc k) t = Ok (le_bytes 8 ?v @ h)"
    using scan_hex_digits [OF t] h(1) by simp
  ultimately show ?case by blast
qed

lemma Hex_ParseHex:
  assumes "length s = 64" and "list_all is_lower_hex s"
  shows "\<exists>h. ParseHex s = Ok h \<and> Hash_Hex h = s"
proof -
  obtain h where h: "parse_limbs s 4 s = Ok h"
    "\<forall>i < 4. limb i h = hex_val (gslice (16 * i) (16 * i + 16) s)"
    using parse_limbs_lower_hex [of s 4 s] assms by (auto simp: limb_def)
  have sl: "fixed_hex 16 (hex_val (gslice (16 * i) (16 * i + 16) s)) = gslice (16 * i) (16 * i + 16) s"
    if "i < 4" for i
  proof -
    have "list_all is_lower_hex (gslice (16 * i) (16 * i + 16) s)"
      using assms(2) by (auto simp: gslice_def list_all_iff dest!: in_set_takeD in_set_dropD)
    moreover have "length (gslice (16 * i) (16 * i + 16) s) = 16"
      using that assms(1) by simp
    ultimately show ?thesis using fixed_hex_hex_val by metis
  qed
  have "Hash_Hex h = s"
    using h(2) sl [of 0] sl [of 1] sl [of 2] sl [of 3] assms(1)
      slice_append_slice [of 0 16 32 s] slice_append_slice [of 0 32 48 s]
      slice_append_slice [of 0 48 64 s] slice_all [of s]
    by (simp add: Hash_Hex_def flip: append_assoc)
  with h(1) assms(1) show ?thesis by (auto simp: ParseHex_def)
qed

section \<open>Properties\<close>

text \<open>
  The canonical hexadecimal form is a bijection between 32-byte hashes and
  64-digit lowercase hexadecimal strings: printing then parsing is the
  identity on every hash, parsing then printing is the identity on every
  canonical string, and the parser never panics and only returns 32-byte values.
\<close>

theorem Hash_Hex_bijection:
  "(\<forall>h. is_hash h \<longrightarrow> length (Hash_Hex h) = 64 \<and> list_all is_lower_hex (Hash_Hex h) \<and>
          ParseHex (Hash_Hex h) = Ok h) \<and>
   (\<forall>s. length s = 64 \<and> list_all is_lower_hex s \<longrightarrow> (\<exists>h. ParseHex s = Ok h \<and> Hash_Hex h = s)) \<and>
   (\<forall>s. ParseHex s \<noteq> Panic \<and> (\<forall>h. ParseHex s = Ok h \<longrightarrow> is_hash h))"
  using ParseHex_Hex Hash_Hex_lower Hex_ParseHex ParseHex_is_hash by simp

theorem Hash_Hex_bijection_witness:
  "ParseHex (Hash_Hex (map word_of_nat [0..<32])) = Ok (map word_of_nat [0..<32])"
  using Hash_Hex_bijection by (simp add: is_hash_def)

text \<open>
  \<open>ParseHex\<close> accepts more than the canonical form it documents: a string
  that is not hexadecimal at all, and a different one, both parse to the zero
  hash, because the scanner ignores what follows the first hexadecimal digits
  of a limb and skips leading spaces.
\<close>

theorem ParseHex_accepts_non_hex:
  "\<exists>s t. s \<noteq> t \<and> length s = 64 \<and> length t = 64 \<and>
         \<not> list_all is_hex s \<and> \<not> list_all is_hex t \<and>
         ParseHex s = Ok zero_hash \<and> ParseHex t = Ok zero_hash"
proof -
  let ?s = "concat (replicate 4 (''0'' @ replicate 15 CHR ''z''))"
  let ?t = "concat (replicate 4 ('' 0'' @ replicate 14 CHR ''/''))"
  have "?s \<noteq> ?t \<and> length ?s = 64 \<and> length ?t = 64 \<and> \<not> list_all is_hex ?s \<and> \<not> list_all is_hex ?t \<and>
        ParseHex ?s = Ok zero_hash \<and> ParseHex ?t = Ok zero_hash"
    by code_simp
  then show ?thesis by blast
qed

end
