(* ===== verification/Xet_Chunks.thy ===== *)
theory Xet_Chunks
  imports Xet_Hash
begin

text \<open>
  internal/xet/chunks.go: walking the chunk layout of a serialized xorb and
  decoding chunks. The LZ4 frame reader is a third-party package: it is the
  parameter \<open>inflate\<close>, which maps a payload to the bytes the reader yields and
  whether it then ends without an error. The client's side of the format
  (\<open>ser_chunk\<close>, \<open>bg4_group\<close>) is the specification the decoder is proved against.
\<close>

section \<open>The chunk layout\<close>

record ChunkInfo =
  ck_Start :: nat
  ck_End :: nat
  ck_UnpackedLen :: nat
  ck_Scheme :: nat

datatype chunk_error =
  TruncatedHeader nat | BadVersion nat | UnknownScheme nat | ImplausibleLengths nat
| OverrunsXorb nat | NoChunks | ShorterThanHeader | LengthMismatch | Lz4Error
| RangeOutOfBounds | DecodedLength nat

definition maxChunkSize :: nat where
  "maxChunkSize = 128 * 1024"

definition chunkHeaderLen :: nat where
  "chunkHeaderLen = 8"

text \<open>\<open>"XETBLOB"\<close>\<close>

definition xorbFooterIdent :: "byte list" where
  "xorbFooterIdent = [0x58, 0x45, 0x54, 0x42, 0x4C, 0x4F, 0x42]"

definition at_footer :: "byte list \<Rightarrow> bool" where
  "at_footer bs \<longleftrightarrow> take 7 bs = xorbFooterIdent"

text \<open>The two 24-bit little-endian lengths of a chunk header.\<close>

definition hdr_compressed :: "byte list \<Rightarrow> nat" where
  "hdr_compressed bs = le_nat (gslice 1 4 bs)"

definition hdr_unpacked :: "byte list \<Rightarrow> nat" where
  "hdr_unpacked bs = le_nat (gslice 5 8 bs)"

function walk_chunks :: "byte list \<Rightarrow> nat \<Rightarrow> ChunkInfo list \<Rightarrow> (chunk_error, ChunkInfo list) res" where
  "walk_chunks xorb offset chunks =
     (if offset < length xorb then
        let remaining = drop offset xorb in
        if at_footer remaining then Ok chunks
        else if length remaining < chunkHeaderLen then Err (TruncatedHeader offset)
        else
          let version = unat (remaining ! 0);
              compressedLen = hdr_compressed remaining;
              scheme = unat (remaining ! 4);
              unpackedLen = hdr_unpacked remaining in
          if version \<noteq> 0 then Err (BadVersion offset)
          else if scheme > 2 then Err (UnknownScheme scheme)
          else if unpackedLen > maxChunkSize \<or> compressedLen > 2 * maxChunkSize
          then Err (ImplausibleLengths offset)
          else
            let stop = offset + chunkHeaderLen + compressedLen in
            if stop > length xorb then Err (OverrunsXorb offset)
            else walk_chunks xorb stop
                   (chunks @ [\<lparr>ck_Start = offset, ck_End = stop, ck_UnpackedLen = unpackedLen,
                               ck_Scheme = scheme\<rparr>])
      else Ok chunks)"
  by pat_completeness auto
termination
  by (relation "measure (\<lambda>(xorb, offset, _). length xorb - offset)") (auto simp: chunkHeaderLen_def)

declare walk_chunks.simps [simp del]

definition WalkChunks :: "byte list \<Rightarrow> (chunk_error, ChunkInfo list) res" where
  "WalkChunks xorb =
     res_bind (walk_chunks xorb 0 []) (\<lambda>chunks. if chunks = [] then Err NoChunks else Ok chunks)"

section \<open>The byte-grouping transform\<close>

definition bg4_size :: "nat \<Rightarrow> nat \<Rightarrow> nat" where
  "bg4_size n p = n div 4 + (if p < n mod 4 then 1 else 0)"

fun bg4_start :: "nat \<Rightarrow> nat \<Rightarrow> nat" where
  "bg4_start n 0 = 0"
| "bg4_start n (Suc p) = bg4_start n p + bg4_size n p"

fun put_plane :: "nat \<Rightarrow> nat \<Rightarrow> byte list \<Rightarrow> byte list \<Rightarrow> (chunk_error, byte list) res" where
  "put_plane p i [] out = Ok out"
| "put_plane p i (b # bs) out =
     res_bind (go_update out (4 * i + p) b) (put_plane p (Suc i) bs)"

fun put_planes :: "byte list \<Rightarrow> nat list \<Rightarrow> byte list \<Rightarrow> (chunk_error, byte list) res" where
  "put_planes g [] out = Ok out"
| "put_planes g (p # ps) out =
     res_bind (go_slice (bg4_start (length g) p) (bg4_start (length g) p + bg4_size (length g) p) g)
       (\<lambda>plane. res_bind (put_plane p 0 plane out) (put_planes g ps))"

definition bg4Regroup :: "byte list \<Rightarrow> (chunk_error, byte list) res" where
  "bg4Regroup g = put_planes g [0, 1, 2, 3] (replicate (length g) 0)"

section \<open>Decoding\<close>

type_synonym inflater = "byte list \<Rightarrow> byte list \<times> bool"

text \<open>\<open>io.Copy\<close> from a reader limited to one byte more than declared.\<close>

definition lz4FrameDecompress :: "inflater \<Rightarrow> byte list \<Rightarrow> nat \<Rightarrow> (chunk_error, byte list) res" where
  "lz4FrameDecompress inflate payload unpackedLen =
     (let (bs, clean) = inflate payload in
      if \<not> clean \<and> length bs < unpackedLen + 1 then Err Lz4Error
      else let out = take (unpackedLen + 1) bs in
        if length out \<noteq> unpackedLen then Err Lz4Error else Ok out)"

definition DecodeChunk :: "inflater \<Rightarrow> byte list \<Rightarrow> (chunk_error, byte list) res" where
  "DecodeChunk inflate chunk =
     (if length chunk < chunkHeaderLen then Err ShorterThanHeader
      else
        let scheme = unat (chunk ! 4);
            unpackedLen = hdr_unpacked chunk;
            payload = drop chunkHeaderLen chunk in
        if scheme = 0 then
          (if length payload \<noteq> unpackedLen then Err LengthMismatch else Ok payload)
        else if scheme = 1 then lz4FrameDecompress inflate payload unpackedLen
        else if scheme = 2 then res_bind (lz4FrameDecompress inflate payload unpackedLen) bg4Regroup
        else Err (UnknownScheme scheme))"

text \<open>The loop of \<open>DecodeChunkRange\<close>: the outcome, and what was written to \<open>w\<close> so far.\<close>

fun decode_chunks ::
  "inflater \<Rightarrow> byte list \<Rightarrow> ChunkInfo list \<Rightarrow> nat \<Rightarrow> byte list \<Rightarrow> (chunk_error, unit) res \<times> byte list" where
  "decode_chunks inflate xorb [] i w = (Ok (), w)"
| "decode_chunks inflate xorb (c # cs) i w =
     (case res_bind (go_slice (ck_Start c) (ck_End c) xorb) (DecodeChunk inflate) of
        Panic \<Rightarrow> (Panic, w)
      | Err e \<Rightarrow> (Err e, w)
      | Ok data \<Rightarrow>
          if length data \<noteq> ck_UnpackedLen c then (Err (DecodedLength i), w)
          else decode_chunks inflate xorb cs (Suc i) (w @ data))"

definition DecodeChunkRange ::
  "inflater \<Rightarrow> byte list \<Rightarrow> ChunkInfo list \<Rightarrow> int \<Rightarrow> int \<Rightarrow> byte list
   \<Rightarrow> (chunk_error, unit) res \<times> byte list" where
  "DecodeChunkRange inflate xorb chunks start stop w =
     (if start < 0 \<or> stop > int (length chunks) \<or> start \<ge> stop then (Err RangeOutOfBounds, w)
      else decode_chunks inflate xorb (gslice (nat start) (nat stop) chunks) (nat start) w)"

section \<open>The client's side of the format\<close>

text \<open>
  A chunk as a client serializes it: version 0, the compressed length, the
  scheme and the unpacked length, then the payload.
\<close>

definition ser_chunk :: "nat \<times> nat \<times> byte list \<Rightarrow> byte list" where
  "ser_chunk = (\<lambda>(scheme, ulen, payload).
     0 # le_bytes 3 (length payload) @ [word_of_nat scheme] @ le_bytes 3 ulen @ payload)"

definition chunk_ok :: "nat \<times> nat \<times> byte list \<Rightarrow> bool" where
  "chunk_ok = (\<lambda>(scheme, ulen, payload).
     scheme \<le> 2 \<and> ulen \<le> maxChunkSize \<and> length payload \<le> 2 * maxChunkSize)"

fun layout :: "nat \<Rightarrow> (nat \<times> nat \<times> byte list) list \<Rightarrow> ChunkInfo list" where
  "layout a [] = []"
| "layout a ((scheme, ulen, payload) # cs) =
     \<lparr>ck_Start = a, ck_End = a + 8 + length payload, ck_UnpackedLen = ulen, ck_Scheme = scheme\<rparr>
     # layout (a + 8 + length payload) cs"

definition bg4_group :: "byte list \<Rightarrow> byte list" where
  "bg4_group x =
     concat (map (\<lambda>p. map (\<lambda>i. x ! (4 * i + p)) [0..<bg4_size (length x) p]) [0, 1, 2, 3])"

text \<open>The chunk that carries \<open>data\<close> under a scheme, with the client's compressor.\<close>

definition enc_chunk ::
  "(byte list \<Rightarrow> byte list) \<Rightarrow> nat \<times> byte list \<Rightarrow> nat \<times> nat \<times> byte list" where
  "enc_chunk deflate = (\<lambda>(scheme, data).
     (scheme, length data,
      if scheme = 0 then data
      else if scheme = 1 then deflate data else deflate (bg4_group data)))"

subsection \<open>Headers\<close>

lemma length_ser_chunk [simp]: "length (ser_chunk (s, u, p)) = 8 + length p"
  by (simp add: ser_chunk_def)

lemma length_3_list: "length xs = 3 \<Longrightarrow> \<exists>x y z. xs = [x, y, z]"
  by (auto simp: numeral_3_eq_3 length_Suc_conv)

lemma hdr_ser_chunk:
  assumes "chunk_ok (s, u, p)"
  shows "unat (ser_chunk (s, u, p) ! 0) = 0" "unat (ser_chunk (s, u, p) ! 4) = s"
    "hdr_compressed (ser_chunk (s, u, p) @ r) = length p"
    "hdr_unpacked (ser_chunk (s, u, p) @ r) = u"
    "drop 8 (ser_chunk (s, u, p)) = p" "\<not> at_footer (ser_chunk (s, u, p) @ r)"
proof -
  have b: "length p < 256 ^ 3" "u < 256 ^ 3" "s < 256"
    using assms by (auto simp: chunk_ok_def maxChunkSize_def)
  obtain x y z where l1: "le_bytes 3 (length p) = [x, y, z]"
    using length_3_list by (metis length_le_bytes)
  obtain a b' c where l2: "le_bytes 3 u = [a, b', c]"
    using length_3_list by (metis length_le_bytes)
  have v: "le_nat [x, y, z] = length p" "le_nat [a, b', c] = u"
    using le_nat_le_bytes [of 3 "length p"] le_nat_le_bytes [of 3 u] b l1 l2 by simp_all
  show "unat (ser_chunk (s, u, p) ! 0) = 0" "unat (ser_chunk (s, u, p) ! 4) = s"
    using b(3) by (simp_all add: ser_chunk_def l1 unat_of_nat)
  show "hdr_compressed (ser_chunk (s, u, p) @ r) = length p"
    "hdr_unpacked (ser_chunk (s, u, p) @ r) = u"
    using v by (simp_all add: ser_chunk_def hdr_compressed_def hdr_unpacked_def gslice_def l1 l2
        del: le_nat.simps)
  show "drop 8 (ser_chunk (s, u, p)) = p"
    by (simp add: ser_chunk_def l1 l2)
  show "\<not> at_footer (ser_chunk (s, u, p) @ r)"
    by (simp add: ser_chunk_def at_footer_def xorbFooterIdent_def)
qed

lemma walk_chunks_ser:
  assumes "\<forall>c \<in> set cs. chunk_ok c" and "foot = [] \<or> at_footer foot"
  shows "walk_chunks (pre @ concat (map ser_chunk cs) @ foot) (length pre) acc
           = Ok (acc @ layout (length pre) cs)"
  using assms
proof (induction cs arbitrary: pre acc)
  case Nil
  then show ?case by (subst walk_chunks.simps) auto
next
  case (Cons c cs)
  obtain s u p where c: "c = (s, u, p)" by (cases c) auto
  let ?r = "concat (map ser_chunk cs) @ foot"
  have ok: "chunk_ok (s, u, p)" using Cons.prems c by simp
  note h = hdr_ser_chunk [OF ok]
  have i: "(ser_chunk (s, u, p) @ ?r) ! 0 = ser_chunk (s, u, p) ! 0"
    "(ser_chunk (s, u, p) @ ?r) ! 4 = ser_chunk (s, u, p) ! 4"
    by (simp_all add: nth_append)
  have IH: "walk_chunks ((pre @ ser_chunk c) @ ?r) (length (pre @ ser_chunk c))
      (acc @ [\<lparr>ck_Start = length pre, ck_End = length pre + 8 + length p,
               ck_UnpackedLen = u, ck_Scheme = s\<rparr>])
      = Ok ((acc @ [\<lparr>ck_Start = length pre, ck_End = length pre + 8 + length p,
               ck_UnpackedLen = u, ck_Scheme = s\<rparr>]) @ layout (length (pre @ ser_chunk c)) cs)"
    using Cons.prems by (intro Cons.IH) auto
  have "s \<le> 2" "u \<le> maxChunkSize" "length p \<le> 2 * maxChunkSize"
    using ok by (auto simp: chunk_ok_def)
  with h i IH c show ?case
    by (subst walk_chunks.simps)
       (simp add: Let_def chunkHeaderLen_def add.assoc)
qed

lemma layout_Nil_iff [simp]: "layout a cs = [] \<longleftrightarrow> cs = []"
  by (cases "(a, cs)" rule: layout.cases) auto

lemma length_layout [simp]: "length (layout a cs) = length cs"
  by (induction a cs rule: layout.induct) auto

lemma WalkChunks_ser:
  assumes "\<forall>c \<in> set cs. chunk_ok c" and "cs \<noteq> []" and "foot = [] \<or> at_footer foot"
  shows "WalkChunks (concat (map ser_chunk cs) @ foot) = Ok (layout 0 cs)"
  using walk_chunks_ser [OF assms(1,3), of "[]" "[]"] assms(2) by (simp add: WalkChunks_def)

subsection \<open>The layout of an accepted xorb\<close>

fun chain :: "nat \<Rightarrow> ChunkInfo list \<Rightarrow> nat \<Rightarrow> bool" where
  "chain a [] b \<longleftrightarrow> a = b"
| "chain a (c # cs) b \<longleftrightarrow> ck_Start c = a \<and> a + 8 \<le> ck_End c \<and> chain (ck_End c) cs b"

definition chunk_fits :: "byte list \<Rightarrow> ChunkInfo \<Rightarrow> bool" where
  "chunk_fits xorb c \<longleftrightarrow>
     ck_Start c + 8 \<le> ck_End c \<and> ck_End c \<le> length xorb \<and>
     ck_UnpackedLen c \<le> maxChunkSize \<and> ck_End c - ck_Start c \<le> 8 + 2 * maxChunkSize \<and>
     ck_Scheme c \<le> 2 \<and>
     ck_UnpackedLen c = hdr_unpacked (drop (ck_Start c) xorb) \<and>
     ck_Scheme c = unat (xorb ! (ck_Start c + 4))"

lemma walk_chunks_sound:
  "walk_chunks xorb a acc = Ok cs \<Longrightarrow> a \<le> length xorb \<Longrightarrow>
     \<exists>ds b. cs = acc @ ds \<and> chain a ds b \<and> list_all (chunk_fits xorb) ds \<and>
            (b = length xorb \<or> at_footer (drop b xorb))"
proof (induction "length xorb - a" arbitrary: a acc rule: less_induct)
  case (less a acc)
  note prems = less.prems
  let ?r = "drop a xorb"
  show ?case
  proof (cases "a < length xorb \<and> \<not> at_footer ?r")
    case False
    with prems show ?thesis
      by (subst (asm) walk_chunks.simps) (auto simp: Let_def intro!: exI [of _ "[]"] split: if_splits)
  next
    case True
    let ?b = "a + chunkHeaderLen + hdr_compressed ?r"
    let ?c = "\<lparr>ck_Start = a, ck_End = ?b, ck_UnpackedLen = hdr_unpacked ?r,
               ck_Scheme = unat (?r ! 4)\<rparr>"
    from prems(1) True have g: "chunkHeaderLen \<le> length ?r" "unat (?r ! 0) = 0" "unat (?r ! 4) \<le> 2"
      "hdr_unpacked ?r \<le> maxChunkSize" "hdr_compressed ?r \<le> 2 * maxChunkSize" "?b \<le> length xorb"
      and rec: "walk_chunks xorb ?b (acc @ [?c]) = Ok cs"
      by (subst (asm) walk_chunks.simps, auto simp: Let_def split: if_splits)+
    have "length xorb - ?b < length xorb - a"
      using conjunct1 [OF True] by (simp add: chunkHeaderLen_def)
    from less.hyps [OF this rec g(6)]
    obtain ds b where ds: "cs = (acc @ [?c]) @ ds" "chain ?b ds b" "list_all (chunk_fits xorb) ds"
      "b = length xorb \<or> at_footer (drop b xorb)"
      by blast
    moreover have "chunk_fits xorb ?c"
      using g True by (auto simp: chunk_fits_def chunkHeaderLen_def)
    ultimately show ?thesis
      by (intro exI [of _ "?c # ds"] exI [of _ b]) (auto simp: chunkHeaderLen_def)
  qed
qed

lemma walk_chunks_not_Panic [simp]: "walk_chunks xorb a acc \<noteq> Panic"
proof (induction xorb a acc rule: walk_chunks.induct)
  case (1 xorb a acc)
  then show ?case
    by (subst walk_chunks.simps) (auto simp: Let_def)
qed

lemma WalkChunks_sound:
  "WalkChunks xorb = Ok cs \<Longrightarrow>
     cs \<noteq> [] \<and> list_all (chunk_fits xorb) cs \<and>
     (\<exists>b. chain 0 cs b \<and> (b = length xorb \<or> at_footer (drop b xorb)))"
  using walk_chunks_sound [of xorb 0 "[]" cs]
  by (auto simp: WalkChunks_def go_res split: if_splits)

subsection \<open>Regrouping inverts grouping\<close>

lemma put_plane_eq:
  "bs = [] \<or> 4 * (i + length bs - 1) + p < length out \<Longrightarrow> p < 4 \<Longrightarrow>
     put_plane p i bs out =
       Ok (map (\<lambda>k. if k mod 4 = p \<and> i \<le> k div 4 \<and> k div 4 < i + length bs
                    then bs ! (k div 4 - i) else out ! k) [0..<length out])"
proof (induction bs arbitrary: i out)
  case Nil
  then show ?case by (simp, intro nth_equalityI) auto
next
  case (Cons b bs)
  have i: "4 * i + p < length out" using Cons.prems by auto
  let ?o = "out[4 * i + p := b]"
  have "put_plane p (Suc i) bs ?o =
      Ok (map (\<lambda>k. if k mod 4 = p \<and> Suc i \<le> k div 4 \<and> k div 4 < Suc i + length bs
                   then bs ! (k div 4 - Suc i) else ?o ! k) [0..<length ?o])"
    using Cons.prems by (intro Cons.IH) (cases bs, auto)
  also have "map (\<lambda>k. if k mod 4 = p \<and> Suc i \<le> k div 4 \<and> k div 4 < Suc i + length bs
                   then bs ! (k div 4 - Suc i) else ?o ! k) [0..<length ?o]
      = map (\<lambda>k. if k mod 4 = p \<and> i \<le> k div 4 \<and> k div 4 < i + length (b # bs)
                   then (b # bs) ! (k div 4 - i) else out ! k) [0..<length out]"
  proof (rule nth_equalityI)
    fix k
    assume "k < length (map (\<lambda>k. if k mod 4 = p \<and> Suc i \<le> k div 4 \<and> k div 4 < Suc i + length bs
                   then bs ! (k div 4 - Suc i) else ?o ! k) [0..<length ?o])"
    then have k: "k < length out" by simp
    have eq: "k = 4 * i + p \<longleftrightarrow> k mod 4 = p \<and> k div 4 = i"
      using \<open>p < 4\<close> by auto
    show "map (\<lambda>k. if k mod 4 = p \<and> Suc i \<le> k div 4 \<and> k div 4 < Suc i + length bs
                   then bs ! (k div 4 - Suc i) else ?o ! k) [0..<length ?o] ! k
        = map (\<lambda>k. if k mod 4 = p \<and> i \<le> k div 4 \<and> k div 4 < i + length (b # bs)
                   then (b # bs) ! (k div 4 - i) else out ! k) [0..<length out] ! k"
      using k eq by (auto simp: nth_list_update nth_Cons' Suc_le_eq le_less)
  qed simp
  finally show ?case using i by simp
qed

lemma bg4_start_total: "bg4_start n 4 = n"
proof -
  have four: "4 = Suc (Suc (Suc (Suc 0)))" by simp
  have "n mod 4 < 4" by simp
  then have "n mod 4 \<in> {0, 1, 2, 3}" by auto
  moreover have "4 * (n div 4) + n mod 4 = n" by simp
  ultimately show ?thesis
    unfolding four by (auto simp: bg4_size_def)
qed

lemma bg4_start_mono: "p \<le> q \<Longrightarrow> bg4_start n p \<le> bg4_start n q"
  by (rule lift_Suc_mono_le) auto

lemma bg4_end_le: "p < 4 \<Longrightarrow> bg4_start n p + bg4_size n p \<le> n"
  using bg4_start_mono [of "Suc p" 4 n] bg4_start_total [of n] by simp

lemma bg4_size_iff:
  assumes "p < 4"
  shows "i < bg4_size n p \<longleftrightarrow> 4 * i + p < n"
proof -
  obtain q r where n: "n = 4 * q + r" "r < 4" "n div 4 = q" "n mod 4 = r"
    using mult_div_mod_eq [of 4 n] mod_less_divisor [of 4 n] by (metis zero_less_numeral)
  have "bg4_size n p = q + (if p < r then 1 else 0)"
    by (simp add: bg4_size_def n(3,4))
  moreover have "i < q + (if p < r then 1 else 0) \<longleftrightarrow> 4 * i + p < 4 * q + r"
    using assms n(2) by (cases "i < q"; cases "i = q") auto
  ultimately show ?thesis using n(1) by simp
qed

lemma bg4_size_last: "p < 4 \<Longrightarrow> 0 < bg4_size n p \<Longrightarrow> 4 * (bg4_size n p - 1) + p < n"
  using bg4_size_iff [of p "bg4_size n p - 1" n] by simp

definition bg4_index :: "nat \<Rightarrow> nat \<Rightarrow> nat" where
  "bg4_index n k = bg4_start n (k mod 4) + k div 4"

lemma put_planes_eq:
  "length out = length g \<Longrightarrow> set ps \<subseteq> {..<4} \<Longrightarrow> distinct ps \<Longrightarrow>
     put_planes g ps out =
       Ok (map (\<lambda>k. if k mod 4 \<in> set ps then g ! bg4_index (length g) k else out ! k) [0..<length g])"
proof (induction ps arbitrary: out)
  case Nil
  then show ?case by (simp, intro nth_equalityI) auto
next
  case (Cons p ps)
  let ?n = "length g" and ?s = "bg4_start (length g) p" and ?z = "bg4_size (length g) p"
  let ?plane = "gslice ?s (?s + ?z) g"
  let ?o = "map (\<lambda>k. if k mod 4 = p \<and> 0 \<le> k div 4 \<and> k div 4 < 0 + length ?plane
                    then ?plane ! (k div 4 - 0) else out ! k) [0..<length out]"
  have p: "p < 4" using Cons.prems by simp
  have z: "length ?plane = ?z" using bg4_end_le [OF p, of ?n] by simp
  have put: "put_plane p 0 ?plane out = Ok ?o"
    using z bg4_size_last [OF p, of ?n] Cons.prems(1) p
    by (intro put_plane_eq) (cases "?z = 0", auto)
  have o: "?o ! k = (if k mod 4 = p then g ! bg4_index ?n k else out ! k)" if "k < ?n" for k
  proof (cases "k mod 4 = p")
    case True
    have "4 * (k div 4) + k mod 4 < ?n" using that by simp
    then have "k div 4 < ?z" using bg4_size_iff [OF p, of "k div 4" ?n] True by simp
    then show ?thesis
      using True that Cons.prems(1) z bg4_end_le [OF p, of ?n]
      by (simp add: slice_nth bg4_index_def)
  qed (use that Cons.prems(1) in simp)
  note put
  moreover have "put_planes g ps ?o
      = Ok (map (\<lambda>k. if k mod 4 \<in> set ps then g ! bg4_index ?n k else ?o ! k) [0..<?n])"
    using Cons.prems by (intro Cons.IH) auto
  moreover have "map (\<lambda>k. if k mod 4 \<in> set ps then g ! bg4_index ?n k else ?o ! k) [0..<?n]
      = map (\<lambda>k. if k mod 4 \<in> set (p # ps) then g ! bg4_index ?n k else out ! k) [0..<?n]"
  proof (rule map_cong [OF refl])
    fix k
    assume "k \<in> set [0..<?n]"
    then have "?o ! k = (if k mod 4 = p then g ! bg4_index ?n k else out ! k)"
      by (intro o) simp
    then show "(if k mod 4 \<in> set ps then g ! bg4_index ?n k else ?o ! k)
        = (if k mod 4 \<in> set (p # ps) then g ! bg4_index ?n k else out ! k)"
      by (simp only: list.set insert_iff split: if_split) blast
  qed
  ultimately show ?case
    using bg4_end_le [OF p, of ?n] by (simp only: put_planes.simps go_slice_ok res_bind.simps le_add1)
qed

lemma bg4Regroup_eq: "bg4Regroup g = Ok (map (\<lambda>k. g ! bg4_index (length g) k) [0..<length g])"
proof -
  have "bg4Regroup g = Ok (map (\<lambda>k. if k mod 4 \<in> set [0, 1, 2, 3] then g ! bg4_index (length g) k
          else replicate (length g) 0 ! k) [0..<length g])"
    unfolding bg4Regroup_def by (rule put_planes_eq) auto
  moreover have "k mod 4 \<in> set [0, 1, 2, 3]" for k :: nat
  proof -
    have "k mod 4 < 4" by simp
    then show ?thesis by auto
  qed
  ultimately show ?thesis by simp
qed

lemma bg4_group_prefix:
  "p \<le> 4 \<Longrightarrow> length (concat (map (\<lambda>p. map (\<lambda>i. x ! (4 * i + p)) [0..<bg4_size n p]) [0..<p]))
            = bg4_start n p"
  by (induction p) auto

lemma length_bg4_group [simp]: "length (bg4_group x) = length x"
proof -
  have "[0, 1, 2, 3] = [0..<4::nat]" by (simp add: upt_conv_Cons)
  then show ?thesis
    using bg4_group_prefix [of 4 x "length x"] bg4_start_total by (simp add: bg4_group_def)
qed

lemma nth_bg4_group:
  assumes "p < 4" and "i < bg4_size (length x) p"
  shows "bg4_group x ! (bg4_start (length x) p + i) = x ! (4 * i + p)"
proof -
  let ?f = "\<lambda>p. map (\<lambda>i. x ! (4 * i + p)) [0..<bg4_size (length x) p]"
  have "[0, 1, 2, 3] = [0..<4::nat]" by (simp add: upt_conv_Cons)
  also have "[0..<4] = [0..<p] @ [p..<4]"
    using upt_add_eq_append [of 0 p "4 - p"] assms(1) by simp
  also have "[p..<4] = p # [Suc p..<4]"
    using assms(1) by (rule upt_conv_Cons)
  finally have "bg4_group x = concat (map ?f [0..<p]) @ ?f p @ concat (map ?f [Suc p..<4])"
    by (simp add: bg4_group_def)
  then show ?thesis
    using assms bg4_group_prefix [of p x "length x"]
    by (simp add: nth_append)
qed

lemma bg4Regroup_group: "bg4Regroup (bg4_group x) = Ok x"
proof -
  have "bg4_group x ! bg4_index (length x) k = x ! k" if "k < length x" for k
  proof -
    have "4 * (k div 4) + k mod 4 < length x" using that by simp
    then have "k div 4 < bg4_size (length x) (k mod 4)"
      using bg4_size_iff [of "k mod 4" "k div 4" "length x"] by simp
    then show ?thesis
      using nth_bg4_group [of "k mod 4" "k div 4" x] by (simp add: bg4_index_def)
  qed
  then show ?thesis
    by (auto simp: bg4Regroup_eq intro: nth_equalityI)
qed

subsection \<open>Decoding what a client serialized\<close>

lemma lz4_deflate:
  "inflate (deflate x) = (x, True) \<Longrightarrow> lz4FrameDecompress inflate (deflate x) (length x) = Ok x"
  by (simp add: lz4FrameDecompress_def)

lemma DecodeChunk_enc:
  assumes law: "\<forall>x. inflate (deflate x) = (x, True)" and ok: "chunk_ok (enc_chunk deflate (s, d))"
  shows "DecodeChunk inflate (ser_chunk (enc_chunk deflate (s, d))) = Ok d"
proof -
  obtain p where e: "enc_chunk deflate (s, d) = (s, length d, p)"
    and p: "s = 0 \<Longrightarrow> p = d" "s = 1 \<Longrightarrow> p = deflate d" "s = 2 \<Longrightarrow> p = deflate (bg4_group d)"
    by (auto simp: enc_chunk_def)
  have k: "chunk_ok (s, length d, p)" using ok e by simp
  then have "s = 0 \<or> s = 1 \<or> s = 2" by (auto simp: chunk_ok_def)
  moreover note hdr_ser_chunk(2,5) [OF k] hdr_ser_chunk(4) [OF k, of "[]", simplified]
  moreover have "lz4FrameDecompress inflate (deflate (bg4_group d)) (length d) = Ok (bg4_group d)"
    using lz4_deflate [of inflate deflate "bg4_group d"] law by simp
  ultimately show ?thesis
    using p law lz4_deflate [of inflate deflate d] bg4Regroup_group [of d] e
    by (auto simp: DecodeChunk_def chunkHeaderLen_def Let_def)
qed

definition stream :: "(nat \<times> nat \<times> byte list) list \<Rightarrow> byte list" where
  "stream cs = concat (map ser_chunk cs)"

lemma layout_append: "layout a (xs @ ys) = layout a xs @ layout (a + length (stream xs)) ys"
  by (induction a xs rule: layout.induct) (auto simp: stream_def add.assoc)

lemma gslice_layout:
  "i \<le> j \<Longrightarrow> j \<le> length cs \<Longrightarrow>
     gslice i j (layout 0 cs) = layout (length (stream (take i cs))) (gslice i j cs)"
proof -
  assume ij: "i \<le> j" "j \<le> length cs"
  let ?a = "length (stream (take i cs))"
  have "layout 0 cs = layout 0 (take i cs) @ layout ?a (drop i cs)"
    using layout_append [of 0 "take i cs" "drop i cs"] by simp
  moreover have "drop i cs = gslice i j cs @ drop j cs"
    using ij append_take_drop_id [of "j - i" "drop i cs"] by (simp add: gslice_def)
  ultimately have "layout 0 cs
      = layout 0 (take i cs) @ layout ?a (gslice i j cs)
        @ layout (?a + length (stream (gslice i j cs))) (drop j cs)"
    using layout_append by metis
  moreover have "length (layout 0 (take i cs)) = i" "length (layout ?a (gslice i j cs)) = j - i"
    using ij by simp_all
  ultimately show ?thesis
    by (simp add: gslice_def)
qed

lemma decode_chunks_enc:
  assumes law: "\<forall>x. inflate (deflate x) = (x, True)"
    and "\<forall>d \<in> set ds. chunk_ok (enc_chunk deflate d)"
  shows "decode_chunks inflate (pre @ stream (map (enc_chunk deflate) ds) @ post)
           (layout (length pre) (map (enc_chunk deflate) ds)) i w = (Ok (), w @ concat (map snd ds))"
  using assms(2)
proof (induction ds arbitrary: pre i w)
  case Nil
  then show ?case by (simp add: stream_def)
next
  case (Cons d ds)
  obtain s x where d: "d = (s, x)" by (cases d) auto
  obtain p where e: "enc_chunk deflate d = (s, length x, p)" by (auto simp: enc_chunk_def d)
  let ?c = "ser_chunk (s, length x, p)"
  have dec: "DecodeChunk inflate ?c = Ok x"
    using DecodeChunk_enc [where inflate = inflate and deflate = deflate and s = s and d = x]
      law Cons.prems d e by simp
  have xorb: "pre @ stream (map (enc_chunk deflate) (d # ds)) @ post
      = (pre @ ?c) @ stream (map (enc_chunk deflate) ds) @ post"
    by (simp add: stream_def e)
  have sl: "gslice (length pre) (length pre + 8 + length p)
      ((pre @ ?c) @ stream (map (enc_chunk deflate) ds) @ post) = ?c"
    using slice_exact [of pre ?c "stream (map (enc_chunk deflate) ds) @ post"]
    by (simp add: add.assoc)
  have IH: "decode_chunks inflate ((pre @ ?c) @ stream (map (enc_chunk deflate) ds) @ post)
      (layout (length (pre @ ?c)) (map (enc_chunk deflate) ds)) (Suc i) (w @ x)
      = (Ok (), (w @ x) @ concat (map snd ds))"
    using Cons.prems by (intro Cons.IH) auto
  show ?case
    unfolding xorb using IH sl dec d e
    by (simp add: add.assoc)
qed

lemma decode_range_enc:
  assumes law: "\<forall>x. inflate (deflate x) = (x, True)"
    and ok: "\<forall>d \<in> set ds. chunk_ok (enc_chunk deflate d)"
    and ij: "i < j" "j \<le> length ds"
  shows "DecodeChunkRange inflate (stream (map (enc_chunk deflate) ds) @ foot)
           (layout 0 (map (enc_chunk deflate) ds)) (int i) (int j) w
         = (Ok (), w @ concat (map snd (gslice i j ds)))"
proof -
  let ?e = "enc_chunk deflate"
  let ?pre = "stream (map ?e (take i ds))"
  have split: "ds = take i ds @ gslice i j ds @ drop j ds"
    using ij append_take_drop_id [of i ds] append_take_drop_id [of "j - i" "drop i ds"]
    by (simp add: gslice_def)
  then have "map ?e ds = map ?e (take i ds) @ map ?e (gslice i j ds) @ map ?e (drop j ds)"
    by (metis map_append)
  then have x: "stream (map ?e ds) @ foot
      = ?pre @ stream (map ?e (gslice i j ds)) @ (stream (map ?e (drop j ds)) @ foot)"
    by (simp add: stream_def)
  have l: "gslice i j (layout 0 (map ?e ds)) = layout (length ?pre) (map ?e (gslice i j ds))"
    using gslice_layout [of i j "map ?e ds"] ij by (simp add: gslice_def take_map drop_map)
  have "\<forall>d \<in> set (gslice i j ds). chunk_ok (?e d)"
    using ok by (auto simp: gslice_def dest!: in_set_takeD in_set_dropD)
  from decode_chunks_enc [where inflate = inflate and deflate = deflate, OF law this, of ?pre "stream (map ?e (drop j ds)) @ foot" i w]
  show ?thesis
    unfolding DecodeChunkRange_def using ij l x by simp
qed

subsection \<open>Decoding never panics\<close>

lemma lz4_Ok_length: "lz4FrameDecompress inflate p n = Ok x \<Longrightarrow> length x = n"
  by (auto simp: lz4FrameDecompress_def Let_def split: prod.splits if_splits)

lemma lz4_not_Panic [simp]: "lz4FrameDecompress inflate p n \<noteq> Panic"
  by (auto simp: lz4FrameDecompress_def Let_def split: prod.splits)

lemma DecodeChunk_not_Panic [simp]: "DecodeChunk inflate c \<noteq> Panic"
  by (auto simp: DecodeChunk_def Let_def go_res bg4Regroup_eq)

lemma DecodeChunk_length: "DecodeChunk inflate c = Ok x \<Longrightarrow> length x = hdr_unpacked c"
  by (auto simp: DecodeChunk_def Let_def go_res bg4Regroup_eq dest: lz4_Ok_length split: if_splits)

lemma decode_chunks_safe:
  "list_all (chunk_fits xorb) cs \<Longrightarrow>
     fst (decode_chunks inflate xorb cs i w) \<noteq> Panic \<and>
     (fst (decode_chunks inflate xorb cs i w) = Ok () \<longrightarrow>
        length (snd (decode_chunks inflate xorb cs i w)) = length w + sum_list (map ck_UnpackedLen cs))"
proof (induction cs arbitrary: i w)
  case Nil
  then show ?case by simp
next
  case (Cons c cs)
  then have "ck_Start c \<le> ck_End c" "ck_End c \<le> length xorb"
    by (auto simp: chunk_fits_def)
  with Cons show ?case
    by (auto split: res.splits)
qed

section \<open>Properties\<close>

text \<open>
  C27. The server gives back exactly the bytes a client uploaded: for every
  list of chunk contents, every compression scheme per chunk (stored, LZ4,
  byte-grouped LZ4) and every footer, walking the serialized xorb finds the
  layout, and decoding any range of it writes the concatenation of the
  original contents of the range, provided the LZ4 reader inverts the
  client's compressor and the lengths are within the protocol's caps.
\<close>

theorem xorb_decode_roundtrip:
  assumes "\<forall>x. inflate (deflate x) = (x, True)"
    and "\<forall>d \<in> set ds. chunk_ok (enc_chunk deflate d)"
    and "i < j" and "j \<le> length ds" and "foot = [] \<or> at_footer foot"
  shows "\<exists>cs. WalkChunks (concat (map (ser_chunk \<circ> enc_chunk deflate) ds) @ foot) = Ok cs \<and>
              length cs = length ds \<and>
              DecodeChunkRange inflate (concat (map (ser_chunk \<circ> enc_chunk deflate) ds) @ foot) cs
                (int i) (int j) w = (Ok (), w @ concat (map snd (gslice i j ds)))"
proof -
  have "ds \<noteq> []" using assms(3,4) by auto
  then show ?thesis
    using WalkChunks_ser [of "map (enc_chunk deflate) ds" foot]
      decode_range_enc [OF assms(1,2,3,4), of foot w] assms(2,5)
    by (intro exI [of _ "layout 0 (map (enc_chunk deflate) ds)"]) (simp add: stream_def)
qed

theorem xorb_decode_roundtrip_witness:
  "\<exists>cs. WalkChunks (concat (map (ser_chunk \<circ> enc_chunk (\<lambda>x. x))
                        [(0, [1, 2]), (1, [3]), (2, [4, 5, 6, 7, 8])]) @ xorbFooterIdent) = Ok cs \<and>
        length cs = length [(0 :: nat, [1, 2 :: byte]), (1, [3]), (2, [4, 5, 6, 7, 8])] \<and>
        DecodeChunkRange (\<lambda>x. (x, True))
          (concat (map (ser_chunk \<circ> enc_chunk (\<lambda>x. x)) [(0, [1, 2]), (1, [3]), (2, [4, 5, 6, 7, 8])])
            @ xorbFooterIdent) cs (int 1) (int 3) []
        = (Ok (), [] @ concat (map snd (gslice 1 3 [(0 :: nat, [1, 2 :: byte]), (1, [3]), (2, [4, 5, 6, 7, 8])])))"
  by (rule xorb_decode_roundtrip)
     (auto simp: chunk_ok_def enc_chunk_def maxChunkSize_def at_footer_def xorbFooterIdent_def)



text \<open>
  Decoding a range against the layout of the same xorb never panics, for
  every range asked for and whatever the LZ4 reader does, and when it
  succeeds it has written exactly the unpacked lengths the layout records.
\<close>

theorem DecodeChunkRange_safe:
  assumes "WalkChunks xorb = Ok cs"
  shows "fst (DecodeChunkRange inflate xorb cs start stop w) \<noteq> Panic \<and>
         (fst (DecodeChunkRange inflate xorb cs start stop w) = Ok () \<longrightarrow>
            0 \<le> start \<and> start < stop \<and> stop \<le> int (length cs) \<and>
            length (snd (DecodeChunkRange inflate xorb cs start stop w))
              = length w + sum_list (map ck_UnpackedLen (gslice (nat start) (nat stop) cs)))"
proof -
  have "list_all (chunk_fits xorb) (gslice (nat start) (nat stop) cs)"
    using WalkChunks_sound [OF assms]
    by (auto simp: list_all_iff gslice_def dest!: in_set_takeD in_set_dropD)
  then show ?thesis
    using decode_chunks_safe [of xorb "gslice (nat start) (nat stop) cs" inflate "nat start" w]
    by (auto simp: DecodeChunkRange_def)
qed

theorem DecodeChunkRange_safe_witness:
  "fst (DecodeChunkRange (\<lambda>x. (x, False)) (ser_chunk (1, 2, [7, 9]))
      [\<lparr>ck_Start = 0, ck_End = 10, ck_UnpackedLen = 2, ck_Scheme = 1\<rparr>] 0 1 []) \<noteq> Panic"
proof -
  have "WalkChunks (ser_chunk (1, 2, [7, 9]))
      = Ok [\<lparr>ck_Start = 0, ck_End = 10, ck_UnpackedLen = 2, ck_Scheme = 1\<rparr>]"
    using WalkChunks_ser [of "[(1, 2, [7, 9])]" "[]"] by (simp add: chunk_ok_def maxChunkSize_def)
  from DecodeChunkRange_safe [OF this] show ?thesis by blast
qed

end
