(* ===== verification/Xet_Shard.thy ===== *)
theory Xet_Shard
  imports Xet_Hash
begin

text \<open>
  internal/xet/shard.go: the parser of MDB shards. Every slice expression of
  the source is a \<open>go_slice\<close>, which panics out of range, so that "the parser
  never panics" is proved, not assumed. The serializer of the two layouts a
  client sends is the specification the parser is proved against.
\<close>

section \<open>Parsed shards\<close>

record Term =
  tm_XorbHash :: hash
  tm_UnpackedLen :: nat
  tm_ChunkStart :: nat
  tm_ChunkEnd :: nat

record ShardFile =
  sf_FileHash :: hash
  sf_SHA256 :: hash
  sf_Terms :: "Term list"

record ShardXorb =
  sx_XorbHash :: hash
  sx_NumChunks :: nat
  sx_NumBytesInXorb :: nat
  sx_NumBytesOnDisk :: nat
  sx_ChunkHashes :: "hash list"

record Shard =
  sh_Files :: "ShardFile list"
  sh_Xorbs :: "ShardXorb list"

datatype shard_error =
  ShardTooShort nat | BadMagic | BadFooterSize nat | FooterTooShort | OffsetsOutOfOrder
| ImplausibleFileCount nat | FileTruncated | MetadataTruncated | ImplausibleXorbCount nat
| XorbTruncated

definition shardHeaderTag :: "byte list" where
  "shardHeaderTag = map word_of_nat
     [72, 70, 82, 101, 112, 111, 77, 101, 116, 97, 68, 97, 116, 97, 0,
      85, 105, 103, 69, 106, 123, 129, 87, 131, 165, 189, 217, 92, 205, 209, 74, 169]"

definition shardHeaderLen :: nat where
  "shardHeaderLen = 48"

definition shardRecordLen :: nat where
  "shardRecordLen = 48"

text \<open>\<open>flags & (1 << k) != 0\<close>\<close>

definition flag_set :: "nat \<Rightarrow> nat \<Rightarrow> bool" where
  "flag_set k flags \<longleftrightarrow> odd (flags div 2 ^ k)"

definition hash_at :: "nat \<Rightarrow> byte list \<Rightarrow> (shard_error, hash) res" where
  "hash_at off sect = go_slice off (off + 32) sect"

definition u32_at :: "nat \<Rightarrow> byte list \<Rightarrow> (shard_error, nat) res" where
  "u32_at off sect = res_map le_nat (go_slice off (off + 4) sect)"

definition u64_at :: "nat \<Rightarrow> byte list \<Rightarrow> (shard_error, nat) res" where
  "u64_at off sect = res_map le_nat (go_slice off (off + 8) sect)"

section \<open>The file section\<close>

definition parse_term :: "byte list \<Rightarrow> nat \<Rightarrow> (shard_error, Term) res" where
  "parse_term sect off =
     res_bind (hash_at off sect) (\<lambda>xorbHash.
     res_bind (u32_at (off + 36) sect) (\<lambda>unpacked.
     res_bind (u32_at (off + 40) sect) (\<lambda>start.
     res_bind (u32_at (off + 44) sect) (\<lambda>stop.
       Ok \<lparr>tm_XorbHash = xorbHash, tm_UnpackedLen = unpacked, tm_ChunkStart = start,
           tm_ChunkEnd = stop\<rparr>))))"

fun parse_terms :: "byte list \<Rightarrow> nat \<Rightarrow> nat \<Rightarrow> Term list \<Rightarrow> (shard_error, Term list \<times> nat) res" where
  "parse_terms sect 0 off acc = Ok (acc, off)"
| "parse_terms sect (Suc n) off acc =
     (if off + shardRecordLen > length sect then Err FileTruncated
      else res_bind (parse_term sect off)
             (\<lambda>t. parse_terms sect n (off + shardRecordLen) (acc @ [t])))"

text \<open>
  One file: its header, terms, skipped verification records and metadata
  record. The result is the file and the offset just past it.
\<close>

definition parse_file :: "byte list \<Rightarrow> nat \<Rightarrow> hash \<Rightarrow> (shard_error, ShardFile \<times> nat) res" where
  "parse_file sect off0 fileHash =
     res_bind (u32_at (off0 + 32) sect) (\<lambda>flags.
     res_bind (u32_at (off0 + 36) sect) (\<lambda>numEntries.
       if numEntries > 2 ^ 20 then Err (ImplausibleFileCount numEntries)
       else
         res_bind (parse_terms sect numEntries (off0 + shardRecordLen) []) (\<lambda>(terms, off1).
           let off2 = (if flag_set 31 flags then off1 + numEntries * shardRecordLen else off1) in
           res_bind
             (if flag_set 30 flags then
                (if off2 + shardRecordLen > length sect then Err MetadataTruncated
                 else res_map (\<lambda>sha. (sha, off2 + shardRecordLen)) (hash_at off2 sect))
              else Ok (zero_hash, off2))
             (\<lambda>(sha, off3).
               if off3 > length sect then Err FileTruncated
               else Ok (\<lparr>sf_FileHash = fileHash, sf_SHA256 = sha, sf_Terms = terms\<rparr>, off3)))))"

lemma parse_terms_off: "parse_terms sect n off acc = Ok (ts, off') \<Longrightarrow> off' = off + n * 48"
  by (induction sect n off acc rule: parse_terms.induct)
     (fastforce simp: go_res shardRecordLen_def split: if_splits)+

lemma parse_file_off:
  "parse_file sect off h = Ok (f, off') \<Longrightarrow> off + 48 \<le> off' \<and> off' \<le> length sect"
  by (auto simp: parse_file_def Let_def go_res shardRecordLen_def dest!: parse_terms_off
      split: if_splits)

function parse_files ::
  "byte list \<Rightarrow> nat \<Rightarrow> ShardFile list \<Rightarrow> (shard_error, ShardFile list \<times> nat) res" where
  "parse_files sect off files =
     (if off + shardRecordLen \<le> length sect then
        case hash_at off sect of
          Panic \<Rightarrow> Panic
        | Err e \<Rightarrow> Err e
        | Ok fileHash \<Rightarrow>
            if IsBookend fileHash then Ok (files, off + shardRecordLen)
            else (case parse_file sect off fileHash of
                    Panic \<Rightarrow> Panic
                  | Err e \<Rightarrow> Err e
                  | Ok (file, off') \<Rightarrow> parse_files sect off' (files @ [file]))
      else Ok (files, off))"
  by pat_completeness auto
termination
  by (relation "measure (\<lambda>(sect, off, _). length sect - off)")
     (auto dest: parse_file_off simp: shardRecordLen_def)

declare parse_files.simps [simp del]

definition parseFileSection :: "byte list \<Rightarrow> (shard_error, ShardFile list \<times> nat) res" where
  "parseFileSection sect = parse_files sect 0 []"

section \<open>The xorb section\<close>

fun parse_hashes :: "byte list \<Rightarrow> nat \<Rightarrow> nat \<Rightarrow> hash list \<Rightarrow> (shard_error, hash list \<times> nat) res" where
  "parse_hashes sect 0 off acc = Ok (acc, off)"
| "parse_hashes sect (Suc n) off acc =
     res_bind (hash_at off sect)
       (\<lambda>h. parse_hashes sect n (off + shardRecordLen) (acc @ [h]))"

definition parse_xorb :: "byte list \<Rightarrow> nat \<Rightarrow> hash \<Rightarrow> (shard_error, ShardXorb \<times> nat) res" where
  "parse_xorb sect off0 xorbHash =
     res_bind (u32_at (off0 + 36) sect) (\<lambda>numEntries.
     res_bind (u32_at (off0 + 40) sect) (\<lambda>bytesInXorb.
     res_bind (u32_at (off0 + 44) sect) (\<lambda>bytesOnDisk.
       let off = off0 + shardRecordLen in
       if numEntries > 2 ^ 20 then Err (ImplausibleXorbCount numEntries)
       else if off + numEntries * shardRecordLen > length sect then Err XorbTruncated
       else res_map (\<lambda>(hs, off').
              (\<lparr>sx_XorbHash = xorbHash, sx_NumChunks = numEntries, sx_NumBytesInXorb = bytesInXorb,
                sx_NumBytesOnDisk = bytesOnDisk, sx_ChunkHashes = hs\<rparr>, off'))
              (parse_hashes sect numEntries off []))))"

lemma parse_hashes_off:
  "parse_hashes sect n off acc = Ok (hs, off') \<Longrightarrow>
     off' = off + n * 48 \<and> length hs = length acc + n"
  by (induction sect n off acc rule: parse_hashes.induct)
     (fastforce simp: go_res shardRecordLen_def)+

lemma parse_xorb_off:
  "parse_xorb sect off h = Ok (x, off') \<Longrightarrow> off + 48 \<le> off' \<and> off' \<le> length sect"
  by (auto simp: parse_xorb_def Let_def go_res shardRecordLen_def dest!: parse_hashes_off
      split: if_splits)

function parse_xorbs ::
  "byte list \<Rightarrow> nat \<Rightarrow> ShardXorb list \<Rightarrow> (shard_error, ShardXorb list \<times> nat) res" where
  "parse_xorbs sect off xorbs =
     (if off + shardRecordLen \<le> length sect then
        case hash_at off sect of
          Panic \<Rightarrow> Panic
        | Err e \<Rightarrow> Err e
        | Ok xorbHash \<Rightarrow>
            if IsBookend xorbHash then Ok (xorbs, off + shardRecordLen)
            else (case parse_xorb sect off xorbHash of
                    Panic \<Rightarrow> Panic
                  | Err e \<Rightarrow> Err e
                  | Ok (xorb, off') \<Rightarrow> parse_xorbs sect off' (xorbs @ [xorb]))
      else Ok (xorbs, off))"
  by pat_completeness auto
termination
  by (relation "measure (\<lambda>(sect, off, _). length sect - off)")
     (auto dest: parse_xorb_off simp: shardRecordLen_def)

declare parse_xorbs.simps [simp del]

definition parseXorbSection :: "byte list \<Rightarrow> (shard_error, ShardXorb list \<times> nat) res" where
  "parseXorbSection sect = parse_xorbs sect 0 []"

section \<open>The shard\<close>

definition parse_sequential :: "byte list \<Rightarrow> (shard_error, Shard) res" where
  "parse_sequential data =
     res_bind (go_slice shardHeaderLen (length data) data) (\<lambda>s1.
     res_bind (parseFileSection s1) (\<lambda>(files, consumed).
     res_bind (go_slice (shardHeaderLen + consumed) (length data) data) (\<lambda>s2.
     res_bind (parseXorbSection s2) (\<lambda>(xorbs, _).
       Ok \<lparr>sh_Files = files, sh_Xorbs = xorbs\<rparr>))))"

definition parse_footered :: "byte list \<Rightarrow> nat \<Rightarrow> (shard_error, Shard) res" where
  "parse_footered data footerSize =
     res_bind (go_slice (length data - footerSize) (length data) data) (\<lambda>footer.
     if length footer < 4 * 8 then Err FooterTooShort
     else
       res_bind (u64_at 8 footer) (\<lambda>fileInfo.
       res_bind (u64_at 16 footer) (\<lambda>xorbInfo.
       res_bind (u64_at 24 footer) (\<lambda>fileLookup.
       if fileInfo > length data \<or> xorbInfo > length data \<or> fileLookup > length data
          \<or> fileInfo > xorbInfo \<or> xorbInfo > fileLookup then Err OffsetsOutOfOrder
       else
         res_bind (go_slice fileInfo xorbInfo data) (\<lambda>s1.
         res_bind (parseFileSection s1) (\<lambda>(files, _).
         res_bind (go_slice xorbInfo fileLookup data) (\<lambda>s2.
         res_bind (parseXorbSection s2) (\<lambda>(xorbs, _).
           Ok \<lparr>sh_Files = files, sh_Xorbs = xorbs\<rparr>))))))))"

definition ParseShard :: "byte list \<Rightarrow> (shard_error, Shard) res" where
  "ParseShard data =
     (if length data < shardHeaderLen then Err (ShardTooShort (length data))
      else
        res_bind (go_slice 0 32 data) (\<lambda>tag.
        if tag \<noteq> shardHeaderTag then Err BadMagic
        else
          res_bind (u64_at 40 data) (\<lambda>footerSize.
          if footerSize > length data then Err (BadFooterSize footerSize)
          else if footerSize = 0 then parse_sequential data
          else parse_footered data footerSize)))"

section \<open>No panic\<close>

lemma at_iff [go_res]:
  "hash_at off s = Ok h \<longleftrightarrow> off + 32 \<le> length s \<and> h = gslice off (off + 32) s"
  "u32_at off s = Ok n \<longleftrightarrow> off + 4 \<le> length s \<and> n = le_nat (gslice off (off + 4) s)"
  "u64_at off s = Ok n \<longleftrightarrow> off + 8 \<le> length s \<and> n = le_nat (gslice off (off + 8) s)"
  "hash_at off s = Panic \<longleftrightarrow> \<not> off + 32 \<le> length s"
  "u32_at off s = Panic \<longleftrightarrow> \<not> off + 4 \<le> length s"
  "u64_at off s = Panic \<longleftrightarrow> \<not> off + 8 \<le> length s"
  "hash_at off s \<noteq> Err e" "u32_at off s \<noteq> Err e" "u64_at off s \<noteq> Err e"
  by (auto simp: hash_at_def u32_at_def u64_at_def go_res)

lemma parse_term_Panic: "off + 48 \<le> length s \<Longrightarrow> parse_term s off \<noteq> Panic"
  by (auto simp: parse_term_def go_res)

lemma parse_terms_Panic [simp]: "parse_terms s n off acc \<noteq> Panic"
  by (induction s n off acc rule: parse_terms.induct)
     (auto simp: go_res shardRecordLen_def parse_term_Panic)

lemma parse_file_Panic: "off + 48 \<le> length s \<Longrightarrow> parse_file s off h \<noteq> Panic"
  by (auto simp: parse_file_def Let_def go_res shardRecordLen_def dest!: parse_terms_off)

lemma parse_files_Panic [simp]: "parse_files s off fs \<noteq> Panic"
proof (induction s off fs rule: parse_files.induct)
  case (1 s off fs)
  then show ?case
    using parse_file_Panic [of off s]
    by (subst parse_files.simps) (auto simp: go_res shardRecordLen_def split: res.splits)
qed

lemma parse_hashes_Panic: "off + n * 48 \<le> length s \<Longrightarrow> parse_hashes s n off acc \<noteq> Panic"
  by (induction s n off acc rule: parse_hashes.induct) (auto simp: go_res shardRecordLen_def)

lemma parse_xorb_Panic: "off + 48 \<le> length s \<Longrightarrow> parse_xorb s off h \<noteq> Panic"
  using parse_hashes_Panic [of "off + 48" _ s]
  by (auto simp: parse_xorb_def Let_def go_res shardRecordLen_def not_less)

lemma parse_xorbs_Panic [simp]: "parse_xorbs s off xs \<noteq> Panic"
proof (induction s off xs rule: parse_xorbs.induct)
  case (1 s off xs)
  then show ?case
    using parse_xorb_Panic [of off s]
    by (subst parse_xorbs.simps) (auto simp: go_res shardRecordLen_def split: res.splits)
qed

lemma parse_files_end:
  "parse_files s off fs = Ok (fs', off') \<Longrightarrow> off \<le> length s \<Longrightarrow> off' \<le> length s"
proof (induction s off fs rule: parse_files.induct)
  case (1 s off fs)
  have eq: "parse_files s off fs = Ok (fs', off')" by (rule 1(2))
  show ?case
    using eq [unfolded parse_files.simps [of s off fs]] 1(1,3) parse_file_off
    by (fastforce simp: go_res shardRecordLen_def split: if_splits res.splits)
qed

section \<open>The two layouts a client sends\<close>

definition ser_term :: "Term \<Rightarrow> byte list" where
  "ser_term t = tm_XorbHash t @ le_bytes 4 0 @ le_bytes 4 (tm_UnpackedLen t)
                @ le_bytes 4 (tm_ChunkStart t) @ le_bytes 4 (tm_ChunkEnd t)"

text \<open>A file with its verification records, if the client sends them.\<close>

definition ser_file :: "ShardFile \<times> byte list option \<Rightarrow> byte list" where
  "ser_file = (\<lambda>(f, ver).
     sf_FileHash f
     @ le_bytes 4 ((if ver \<noteq> None then 2 ^ 31 else 0) + (if sf_SHA256 f \<noteq> zero_hash then 2 ^ 30 else 0))
     @ le_bytes 4 (length (sf_Terms f)) @ replicate 8 0
     @ concat (map ser_term (sf_Terms f))
     @ (case ver of None \<Rightarrow> [] | Some v \<Rightarrow> v)
     @ (if sf_SHA256 f \<noteq> zero_hash then sf_SHA256 f @ replicate 16 0 else []))"

definition ser_xorb :: "byte list \<Rightarrow> ShardXorb \<Rightarrow> byte list" where
  "ser_xorb pad x =
     sx_XorbHash x @ le_bytes 4 0 @ le_bytes 4 (sx_NumChunks x) @ le_bytes 4 (sx_NumBytesInXorb x)
     @ le_bytes 4 (sx_NumBytesOnDisk x) @ concat (map (\<lambda>h. h @ pad) (sx_ChunkHashes x))"

definition bookend :: "byte list" where
  "bookend = replicate 32 0xFF @ replicate 16 0"

definition term_ok :: "Term \<Rightarrow> bool" where
  "term_ok t \<longleftrightarrow> is_hash (tm_XorbHash t) \<and> tm_UnpackedLen t < 2 ^ 32 \<and> tm_ChunkStart t < 2 ^ 32 \<and>
               tm_ChunkEnd t < 2 ^ 32"

definition file_ok :: "ShardFile \<times> byte list option \<Rightarrow> bool" where
  "file_ok = (\<lambda>(f, ver).
     is_hash (sf_FileHash f) \<and> \<not> IsBookend (sf_FileHash f) \<and> is_hash (sf_SHA256 f) \<and>
     length (sf_Terms f) \<le> 2 ^ 20 \<and> (\<forall>t \<in> set (sf_Terms f). term_ok t) \<and>
     (\<forall>v. ver = Some v \<longrightarrow> length v = length (sf_Terms f) * 48))"

definition xorb_ok :: "ShardXorb \<Rightarrow> bool" where
  "xorb_ok x \<longleftrightarrow>
     is_hash (sx_XorbHash x) \<and> \<not> IsBookend (sx_XorbHash x) \<and>
     sx_NumChunks x = length (sx_ChunkHashes x) \<and> sx_NumChunks x \<le> 2 ^ 20 \<and>
     sx_NumBytesInXorb x < 2 ^ 32 \<and> sx_NumBytesOnDisk x < 2 ^ 32 \<and>
     (\<forall>h \<in> set (sx_ChunkHashes x). is_hash h)"

definition ser_files :: "(ShardFile \<times> byte list option) list \<Rightarrow> byte list" where
  "ser_files fs = concat (map ser_file fs) @ bookend"

definition ser_xorbs :: "byte list \<Rightarrow> ShardXorb list \<Rightarrow> byte list" where
  "ser_xorbs pad xs = concat (map (ser_xorb pad) xs) @ bookend"

definition shard_sequential ::
  "byte list \<Rightarrow> (ShardFile \<times> byte list option) list \<Rightarrow> ShardXorb list \<Rightarrow> byte list \<Rightarrow> byte list" where
  "shard_sequential pad fs xs rest =
     shardHeaderTag @ le_bytes 8 2 @ le_bytes 8 0 @ ser_files fs @ ser_xorbs pad xs @ rest"

definition shard_footered ::
  "byte list \<Rightarrow> (ShardFile \<times> byte list option) list \<Rightarrow> ShardXorb list \<Rightarrow> byte list \<Rightarrow> byte list
   \<Rightarrow> byte list" where
  "shard_footered pad fs xs lookup rest =
     (let a = 48 + length (ser_files fs); b = a + length (ser_xorbs pad xs) in
      shardHeaderTag @ le_bytes 8 2 @ le_bytes 8 (32 + length rest) @ ser_files fs @ ser_xorbs pad xs
      @ lookup @ le_bytes 8 1 @ le_bytes 8 48 @ le_bytes 8 a @ le_bytes 8 b @ rest)"

subsection \<open>Reading back one record\<close>

lemma gslice_skip: "length pre = n \<Longrightarrow> gslice (n + i) (n + j) (pre @ xs) = gslice i j xs"
  by (simp add: gslice_def)

lemma hash_at_pre [simp]:
  "is_hash h \<Longrightarrow> hash_at (length pre) (pre @ h @ post) = Ok h"
  by (simp add: hash_at_def is_hash_def gslice_def)

lemma u32_at_field:
  "length pre = k \<Longrightarrow> n < 2 ^ 32 \<Longrightarrow> u32_at k (pre @ le_bytes 4 n @ post) = Ok n"
  by (simp add: u32_at_def gslice_def le_nat_le_bytes)

lemma u64_at_field:
  "length pre = k \<Longrightarrow> n < 2 ^ 64 \<Longrightarrow> u64_at k (pre @ le_bytes 8 n @ post) = Ok n"
  by (simp add: u64_at_def gslice_def le_nat_le_bytes)

lemma length_ser_term [simp]: "term_ok t \<Longrightarrow> length (ser_term t) = 48"
  by (simp add: ser_term_def term_ok_def is_hash_def)

lemma parse_term_ser:
  assumes "term_ok t"
  shows "parse_term (pre @ ser_term t @ post) (length pre) = Ok t"
proof -
  let ?h = "tm_XorbHash t"
  have h: "is_hash ?h" and l: "length ?h = 32" using assms by (auto simp: term_ok_def is_hash_def)
  have "u32_at (length pre + 36) (pre @ ser_term t @ post) = Ok (tm_UnpackedLen t)"
    using u32_at_field [of "pre @ ?h @ le_bytes 4 0" "length pre + 36" "tm_UnpackedLen t"] assms l
    by (simp add: ser_term_def term_ok_def)
  moreover have "u32_at (length pre + 40) (pre @ ser_term t @ post) = Ok (tm_ChunkStart t)"
    using u32_at_field [of "pre @ ?h @ le_bytes 4 0 @ le_bytes 4 (tm_UnpackedLen t)"
        "length pre + 40" "tm_ChunkStart t"] assms l
    by (simp add: ser_term_def term_ok_def)
  moreover have "u32_at (length pre + 44) (pre @ ser_term t @ post) = Ok (tm_ChunkEnd t)"
    using u32_at_field [of "pre @ ?h @ le_bytes 4 0 @ le_bytes 4 (tm_UnpackedLen t)
        @ le_bytes 4 (tm_ChunkStart t)" "length pre + 44" "tm_ChunkEnd t"] assms l
    by (simp add: ser_term_def term_ok_def)
  moreover have "hash_at (length pre) (pre @ ser_term t @ post) = Ok ?h"
    using h by (simp add: ser_term_def)
  ultimately show ?thesis by (simp add: parse_term_def)
qed

lemma parse_terms_ser:
  "\<forall>t \<in> set ts. term_ok t \<Longrightarrow>
     parse_terms (pre @ concat (map ser_term ts) @ post) (length ts) (length pre) acc
       = Ok (acc @ ts, length pre + length ts * 48)"
proof (induction ts arbitrary: pre acc)
  case Nil
  then show ?case by simp
next
  case (Cons t ts)
  have t: "term_ok t" using Cons.prems by simp
  have eq: "pre @ concat (map ser_term (t # ts)) @ post
      = (pre @ ser_term t) @ concat (map ser_term ts) @ post"
    by simp
  have "parse_term ((pre @ ser_term t) @ concat (map ser_term ts) @ post) (length pre) = Ok t"
    using parse_term_ser [OF t, of pre "concat (map ser_term ts) @ post"] by simp
  moreover have "parse_terms ((pre @ ser_term t) @ concat (map ser_term ts) @ post) (length ts)
      (length (pre @ ser_term t)) (acc @ [t])
      = Ok ((acc @ [t]) @ ts, length (pre @ ser_term t) + length ts * 48)"
    using Cons.prems by (intro Cons.IH) simp
  ultimately show ?case
    unfolding eq using t by (simp add: shardRecordLen_def)
qed

lemma length_terms_ser [simp]:
  "\<forall>t \<in> set ts. term_ok t \<Longrightarrow> length (concat (map ser_term ts)) = length ts * 48"
  by (induction ts) auto

lemma flags_set:
  "flag_set 31 ((if a then 2 ^ 31 else 0) + (if b then 2 ^ 30 else 0)) = a"
  "flag_set 30 ((if a then 2 ^ 31 else 0) + (if b then 2 ^ 30 else 0)) = b"
  by (auto simp: flag_set_def)

lemma parse_file_ser:
  assumes "file_ok (f, ver)"
  shows "parse_file (pre @ ser_file (f, ver) @ post) (length pre) (sf_FileHash f)
           = Ok (f, length pre + length (ser_file (f, ver)))"
proof -
  let ?flags = "(if ver \<noteq> None then 2 ^ 31 else 0) + (if sf_SHA256 f \<noteq> zero_hash then 2 ^ 30 else 0) :: nat"
  let ?n = "length (sf_Terms f)"
  let ?ts = "concat (map ser_term (sf_Terms f))"
  let ?ver = "case ver of None \<Rightarrow> [] | Some v \<Rightarrow> v"
  let ?meta = "if sf_SHA256 f \<noteq> zero_hash then sf_SHA256 f @ replicate 16 (0 :: byte) else []"
  let ?all = "pre @ ser_file (f, ver) @ post"
  let ?hd = "sf_FileHash f @ le_bytes 4 ?flags @ le_bytes 4 ?n @ replicate 8 0"
  have ok: "length (sf_FileHash f) = 32" "length (sf_SHA256 f) = 32" "?n \<le> 2 ^ 20"
    "\<forall>t \<in> set (sf_Terms f). term_ok t" "\<forall>v. ver = Some v \<longrightarrow> length v = ?n * 48"
    using assms by (auto simp: file_ok_def is_hash_def)
  have all: "?all = pre @ ?hd @ ?ts @ ?ver @ ?meta @ post"
    by (simp add: ser_file_def)
  have lts: "length ?ts = ?n * 48" using ok(4) by simp
  have lver: "length ?ver = (if ver \<noteq> None then ?n * 48 else 0)"
    using ok(5) by (auto split: option.splits)
  have "u32_at (length pre + 32) ?all = Ok ?flags"
    using u32_at_field [of "pre @ sf_FileHash f" "length pre + 32" ?flags] ok(1)
    unfolding all by simp
  moreover have "u32_at (length pre + 36) ?all = Ok ?n"
    using u32_at_field [of "pre @ sf_FileHash f @ le_bytes 4 ?flags" "length pre + 36" ?n] ok(1,3)
    unfolding all by simp
  moreover have "parse_terms ?all ?n (length pre + shardRecordLen) []
      = Ok (sf_Terms f, length pre + 48 + ?n * 48)"
    using parse_terms_ser [OF ok(4), of "pre @ ?hd" "?ver @ ?meta @ post" "[]"] ok(1)
    unfolding all by (simp add: shardRecordLen_def)
  moreover have "hash_at (length pre + 48 + ?n * 48 + length ?ver) ?all = Ok (sf_SHA256 f)"
    if "sf_SHA256 f \<noteq> zero_hash"
    using hash_at_pre [of "sf_SHA256 f" "pre @ ?hd @ ?ts @ ?ver" "replicate 16 0 @ post"] that ok lts
    unfolding all by (simp add: is_hash_def add.assoc)
  moreover have "length ?all = length pre + 48 + ?n * 48 + length ?ver + length ?meta + length post"
    "length (ser_file (f, ver)) = 48 + ?n * 48 + length ?ver + length ?meta"
    using lts ok(1) by (simp_all add: ser_file_def)
  ultimately show ?thesis
    using ok(2,3) lver flags_set(1) [of "ver \<noteq> None" "sf_SHA256 f \<noteq> zero_hash"]
      flags_set(2) [of "ver \<noteq> None" "sf_SHA256 f \<noteq> zero_hash"]
    by (cases "sf_SHA256 f = zero_hash"; cases ver)
       (simp_all add: parse_file_def Let_def shardRecordLen_def)
qed

subsection \<open>Reading back the sections\<close>

lemma length_bookend [simp]: "length bookend = 48"
  by (simp add: bookend_def)

lemma hash_at_bookend [simp]: "hash_at (length pre) (pre @ bookend @ post) = Ok (replicate 32 0xFF)"
  using hash_at_pre [of "replicate 32 0xFF" pre "replicate 16 0 @ post"]
  by (simp add: bookend_def is_hash_def)

lemma IsBookend_ff [simp]: "IsBookend (replicate 32 0xFF)"
  by (simp add: IsBookend_def list_all_iff)

lemma ser_file_hash:
  "file_ok (f, v) \<Longrightarrow> hash_at (length pre) (pre @ ser_file (f, v) @ post) = Ok (sf_FileHash f)"
  by (simp add: ser_file_def file_ok_def)

lemma ser_file_long: "file_ok (f, v) \<Longrightarrow> 48 \<le> length (ser_file (f, v))"
  by (simp add: ser_file_def file_ok_def is_hash_def)

lemma parse_files_ser:
  "\<forall>f \<in> set fs. file_ok f \<Longrightarrow>
     parse_files (pre @ ser_files fs @ post) (length pre) acc
       = Ok (acc @ map fst fs, length pre + length (ser_files fs))"
proof (induction fs arbitrary: pre acc)
  case Nil
  then show ?case
    by (subst parse_files.simps) (simp add: ser_files_def shardRecordLen_def)
next
  case (Cons f fs)
  obtain x v where f: "f = (x, v)" by (cases f) auto
  have ok: "file_ok (x, v)" using Cons.prems f by simp
  let ?sf = "ser_file (x, v)"
  have eq: "pre @ ser_files (f # fs) @ post = pre @ ?sf @ ser_files fs @ post"
    by (simp add: ser_files_def f)
  have "parse_files ((pre @ ?sf) @ ser_files fs @ post) (length (pre @ ?sf)) (acc @ [x])
      = Ok ((acc @ [x]) @ map fst fs, length (pre @ ?sf) + length (ser_files fs))"
    using Cons.prems by (intro Cons.IH) simp
  then have rec: "parse_files (pre @ ?sf @ ser_files fs @ post) (length pre + length ?sf) (acc @ [x])
      = Ok (acc @ map fst (f # fs), length pre + length (ser_files (f # fs)))"
    by (simp add: f ser_files_def add.assoc)
  have "\<not> IsBookend (sf_FileHash x)" using ok by (simp add: file_ok_def)
  then show ?case
    unfolding eq
    using rec ser_file_hash [OF ok, of pre "ser_files fs @ post"] ser_file_long [OF ok]
      parse_file_ser [OF ok, of pre "ser_files fs @ post"]
    by (subst parse_files.simps) (simp add: shardRecordLen_def)
qed

lemma parse_hashes_ser:
  "length pad = 16 \<Longrightarrow> \<forall>h \<in> set hs. is_hash h \<Longrightarrow>
     parse_hashes (pre @ concat (map (\<lambda>h. h @ pad) hs) @ post) (length hs) (length pre) acc
       = Ok (acc @ hs, length pre + length hs * 48)"
proof (induction hs arbitrary: pre acc)
  case Nil
  then show ?case by simp
next
  case (Cons h hs)
  let ?r = "concat (map (\<lambda>h. h @ pad) hs) @ post"
  have "hash_at (length pre) (pre @ h @ pad @ ?r) = Ok h"
    using Cons.prems hash_at_pre [of h pre "pad @ ?r"] by simp
  moreover have "parse_hashes ((pre @ h @ pad) @ ?r) (length hs) (length (pre @ h @ pad)) (acc @ [h])
      = Ok ((acc @ [h]) @ hs, length (pre @ h @ pad) + length hs * 48)"
    using Cons.prems by (intro Cons.IH) simp_all
  ultimately show ?case
    using Cons.prems by (simp add: shardRecordLen_def is_hash_def)
qed

lemma length_hashes_ser:
  "length pad = 16 \<Longrightarrow> \<forall>h \<in> set hs. is_hash h \<Longrightarrow>
     length (concat (map (\<lambda>h. h @ pad) hs)) = length hs * 48"
  by (induction hs) (auto simp: is_hash_def)

lemma parse_xorb_ser:
  assumes "length pad = 16" and "xorb_ok x"
  shows "parse_xorb (pre @ ser_xorb pad x @ post) (length pre) (sx_XorbHash x)
           = Ok (x, length pre + length (ser_xorb pad x))"
proof -
  let ?n = "length (sx_ChunkHashes x)"
  let ?hs = "concat (map (\<lambda>h. h @ pad) (sx_ChunkHashes x))"
  let ?h = "sx_XorbHash x"
  let ?hd = "?h @ le_bytes 4 0 @ le_bytes 4 ?n @ le_bytes 4 (sx_NumBytesInXorb x)
     @ le_bytes 4 (sx_NumBytesOnDisk x)"
  let ?all = "pre @ ser_xorb pad x @ post"
  have ok: "length ?h = 32" "sx_NumChunks x = ?n" "?n \<le> 2 ^ 20" "sx_NumBytesInXorb x < 2 ^ 32"
    "sx_NumBytesOnDisk x < 2 ^ 32" "\<forall>h \<in> set (sx_ChunkHashes x). is_hash h"
    using assms(2) by (auto simp: xorb_ok_def is_hash_def)
  have all: "?all = pre @ ?hd @ ?hs @ post"
    by (simp add: ser_xorb_def ok(2))
  have lhs: "length ?hs = ?n * 48"
    by (rule length_hashes_ser [OF assms(1) ok(6)])
  have "u32_at (length pre + 36) ?all = Ok ?n"
    using u32_at_field [of "pre @ ?h @ le_bytes 4 0" "length pre + 36" ?n] ok
    unfolding all by simp
  moreover have "u32_at (length pre + 40) ?all = Ok (sx_NumBytesInXorb x)"
    using u32_at_field [of "pre @ ?h @ le_bytes 4 0 @ le_bytes 4 ?n" "length pre + 40"] ok
    unfolding all by simp
  moreover have "u32_at (length pre + 44) ?all = Ok (sx_NumBytesOnDisk x)"
    using u32_at_field [of "pre @ ?h @ le_bytes 4 0 @ le_bytes 4 ?n
        @ le_bytes 4 (sx_NumBytesInXorb x)" "length pre + 44"] ok
    unfolding all by simp
  moreover have "parse_hashes ?all ?n (length pre + 48) []
      = Ok (sx_ChunkHashes x, length pre + 48 + ?n * 48)"
    using parse_hashes_ser [OF assms(1) ok(6), of "pre @ ?hd" post "[]"] ok(1)
    unfolding all by simp
  moreover have "length (ser_xorb pad x) = 48 + ?n * 48"
    using lhs ok(1) by (simp add: ser_xorb_def)
  ultimately show ?thesis
    using ok(2,3) by (cases x) (simp add: parse_xorb_def Let_def shardRecordLen_def)
qed

lemma parse_xorbs_ser:
  "length pad = 16 \<Longrightarrow> \<forall>x \<in> set xs. xorb_ok x \<Longrightarrow>
     parse_xorbs (pre @ ser_xorbs pad xs @ post) (length pre) acc
       = Ok (acc @ xs, length pre + length (ser_xorbs pad xs))"
proof (induction xs arbitrary: pre acc)
  case Nil
  then show ?case
    by (subst parse_xorbs.simps) (simp add: ser_xorbs_def shardRecordLen_def)
next
  case (Cons x xs)
  have ok: "xorb_ok x" using Cons.prems by simp
  let ?sx = "ser_xorb pad x"
  have eq: "pre @ ser_xorbs pad (x # xs) @ post = pre @ ?sx @ ser_xorbs pad xs @ post"
    by (simp add: ser_xorbs_def)
  have "parse_xorbs ((pre @ ?sx) @ ser_xorbs pad xs @ post) (length (pre @ ?sx)) (acc @ [x])
      = Ok ((acc @ [x]) @ xs, length (pre @ ?sx) + length (ser_xorbs pad xs))"
    using Cons.prems by (intro Cons.IH) simp_all
  then have rec: "parse_xorbs (pre @ ?sx @ ser_xorbs pad xs @ post) (length pre + length ?sx) (acc @ [x])
      = Ok (acc @ x # xs, length pre + length (ser_xorbs pad (x # xs)))"
    by (simp add: ser_xorbs_def add.assoc)
  have nb: "\<not> IsBookend (sx_XorbHash x)" and l: "is_hash (sx_XorbHash x)"
    using ok by (auto simp: xorb_ok_def)
  have "hash_at (length pre) (pre @ ?sx @ ser_xorbs pad xs @ post) = Ok (sx_XorbHash x)"
    using l by (simp add: ser_xorb_def)
  moreover have "48 \<le> length ?sx" using l by (simp add: ser_xorb_def is_hash_def)
  ultimately show ?case
    unfolding eq
    using rec nb parse_xorb_ser [OF Cons.prems(1) ok, of pre "ser_xorbs pad xs @ post"]
    by (subst parse_xorbs.simps) (simp add: shardRecordLen_def)
qed

lemma parseFileSection_ser:
  "\<forall>f \<in> set fs. file_ok f \<Longrightarrow>
     parseFileSection (ser_files fs @ post) = Ok (map fst fs, length (ser_files fs))"
  using parse_files_ser [of fs "[]" post "[]"] by (simp add: parseFileSection_def)

lemma parseXorbSection_ser:
  "length pad = 16 \<Longrightarrow> \<forall>x \<in> set xs. xorb_ok x \<Longrightarrow>
     parseXorbSection (ser_xorbs pad xs @ post) = Ok (xs, length (ser_xorbs pad xs))"
  using parse_xorbs_ser [of pad xs "[]" post "[]"] by (simp add: parseXorbSection_def)

lemma length_shardHeaderTag [simp]: "length shardHeaderTag = 32"
  by (simp add: shardHeaderTag_def)

lemma ParseShard_sequential:
  assumes "length pad = 16" "\<forall>f \<in> set fs. file_ok f" "\<forall>x \<in> set xs. xorb_ok x"
  shows "ParseShard (shard_sequential pad fs xs rest) = Ok \<lparr>sh_Files = map fst fs, sh_Xorbs = xs\<rparr>"
proof -
  let ?d = "shard_sequential pad fs xs rest"
  let ?hd = "shardHeaderTag @ le_bytes 8 2 @ le_bytes 8 0"
  let ?b = "ser_files fs @ ser_xorbs pad xs @ rest"
  have d: "?d = ?hd @ ?b" by (simp add: shard_sequential_def)
  have "gslice 0 32 ?d = shardHeaderTag"
    by (simp add: shard_sequential_def gslice_def)
  moreover have "u64_at 40 ?d = Ok 0"
    using u64_at_field [of "shardHeaderTag @ le_bytes 8 2" 40 0] by (simp add: shard_sequential_def)
  moreover have "drop 48 ?d = ?b" "drop (48 + length (ser_files fs)) ?d = ser_xorbs pad xs @ rest"
    unfolding d by simp_all
  then have "gslice 48 (length ?d) ?d = ?b"
    "gslice (48 + length (ser_files fs)) (length ?d) ?d = ser_xorbs pad xs @ rest"
    by (simp_all only: slice_to_end)
  moreover have "48 + length (ser_files fs) \<le> length ?d" unfolding d by simp
  ultimately show ?thesis
    using parseFileSection_ser [OF assms(2), of "ser_xorbs pad xs @ rest"]
      parseXorbSection_ser [OF assms(1,3), of rest]
    by (simp add: ParseShard_def parse_sequential_def shardHeaderLen_def)
qed

lemma ParseShard_footered:
  assumes "length pad = 16" "\<forall>f \<in> set fs. file_ok f" "\<forall>x \<in> set xs. xorb_ok x"
    and "length (shard_footered pad fs xs lookup rest) < 2 ^ 64"
  shows "ParseShard (shard_footered pad fs xs lookup rest) = Ok \<lparr>sh_Files = map fst fs, sh_Xorbs = xs\<rparr>"
proof -
  let ?d = "shard_footered pad fs xs lookup rest"
  let ?F = "ser_files fs" and ?X = "ser_xorbs pad xs"
  let ?a = "48 + length ?F"
  let ?b = "?a + length ?X"
  let ?z = "32 + length rest"
  let ?hd = "shardHeaderTag @ le_bytes 8 2 @ le_bytes 8 ?z"
  let ?ft = "le_bytes 8 1 @ le_bytes 8 48 @ le_bytes 8 ?a @ le_bytes 8 ?b @ rest"
  have d: "?d = ?hd @ ?F @ ?X @ lookup @ ?ft" by (simp add: shard_footered_def Let_def)
  have len: "length ?d = ?b + length lookup + ?z" unfolding d by simp
  with assms(4) have small: "?a < 2 ^ 64" "?b < 2 ^ 64" "?z < 2 ^ 64" by simp_all
  have tag: "gslice 0 32 ?d = shardHeaderTag" unfolding d by (simp add: gslice_def)
  have fsz: "u64_at 40 ?d = Ok ?z"
    using u64_at_field [of "shardHeaderTag @ le_bytes 8 2" 40 ?z] small(3) unfolding d by simp
  have "drop (length ?d - ?z) ?d = ?ft"
    unfolding len unfolding d by simp
  then have ft: "gslice (length ?d - ?z) (length ?d) ?d = ?ft"
    by (simp only: slice_to_end)
  have f: "u64_at 8 ?ft = Ok 48" "u64_at 16 ?ft = Ok ?a" "u64_at 24 ?ft = Ok ?b"
    using u64_at_field [of "le_bytes 8 1" 8 48] u64_at_field [of "le_bytes 8 1 @ le_bytes 8 48" 16 ?a]
      u64_at_field [of "le_bytes 8 1 @ le_bytes 8 48 @ le_bytes 8 ?a" 24 ?b] small
    by simp_all
  have s: "gslice 48 ?a ?d = ?F" "gslice ?a ?b ?d = ?X"
    unfolding d by (simp_all add: gslice_def)
  have "parse_footered ?d ?z = Ok \<lparr>sh_Files = map fst fs, sh_Xorbs = xs\<rparr>"
    unfolding parse_footered_def
    using ft f s len parseFileSection_ser [OF assms(2), of "[]"] parseXorbSection_ser [OF assms(1,3), of "[]"]
    by simp
  then show ?thesis
    using tag fsz len by (simp add: ParseShard_def shardHeaderLen_def)
qed

section \<open>What an accepted shard can contain\<close>

definition shard_records :: "Shard \<Rightarrow> nat" where
  "shard_records s =
     sum_list (map (\<lambda>f. 1 + length (sf_Terms f)) (sh_Files s))
     + sum_list (map (\<lambda>x. 1 + sx_NumChunks x) (sh_Xorbs s))"

definition parsed_file :: "ShardFile \<Rightarrow> bool" where
  "parsed_file f \<longleftrightarrow>
     is_hash (sf_FileHash f) \<and> is_hash (sf_SHA256 f) \<and> \<not> IsBookend (sf_FileHash f) \<and>
     length (sf_Terms f) \<le> 2 ^ 20 \<and> (\<forall>t \<in> set (sf_Terms f). term_ok t)"

lemma u32_at_bound: "u32_at off s = Ok n \<Longrightarrow> n < 2 ^ 32"
  using le_nat_bound [of "gslice off (off + 4) s"] by (auto simp: go_res)

lemma hash_at_is_hash: "hash_at off s = Ok h \<Longrightarrow> is_hash h"
  by (auto simp: go_res is_hash_def)

lemma parse_term_ok: "parse_term s off = Ok t \<Longrightarrow> term_ok t"
proof -
  assume "parse_term s off = Ok t"
  then obtain h a b c where "hash_at off s = Ok h" "u32_at (off + 36) s = Ok a"
    "u32_at (off + 40) s = Ok b" "u32_at (off + 44) s = Ok c"
    "t = \<lparr>tm_XorbHash = h, tm_UnpackedLen = a, tm_ChunkStart = b, tm_ChunkEnd = c\<rparr>"
    unfolding parse_term_def by (auto simp only: res_bind_Ok_iff res.inject)
  then show ?thesis
    using u32_at_bound hash_at_is_hash by (simp add: term_ok_def)
qed

lemma parse_terms_ok:
  "parse_terms s n off acc = Ok (ts, off') \<Longrightarrow> \<forall>t \<in> set acc. term_ok t \<Longrightarrow>
     length ts = length acc + n \<and> (\<forall>t \<in> set ts. term_ok t)"
proof (induction s n off acc rule: parse_terms.induct)
  case (2 s n off acc)
  then obtain t where t: "parse_term s off = Ok t"
    "parse_terms s n (off + shardRecordLen) (acc @ [t]) = Ok (ts, off')" "\<not> length s < off + shardRecordLen"
    by (auto simp: go_res split: if_splits)
  with 2 parse_term_ok [OF t(1)] show ?case by auto
qed simp

lemma parse_file_ok:
  assumes "parse_file s off h = Ok (f, off')" and "is_hash h" and "\<not> IsBookend h"
  shows "parsed_file f" and "off + 48 * (1 + length (sf_Terms f)) \<le> off'"
proof -
  obtain n where n: "u32_at (off + 36) s = Ok n" "n \<le> 2 ^ 20"
    using assms(1) by (auto simp: parse_file_def res_bind_Ok_iff not_less split: if_splits)
  with assms(1) obtain fl ts off1 where
    ts: "parse_terms s n (off + shardRecordLen) [] = Ok (ts, off1)"
    and f: "sf_Terms f = ts" "sf_FileHash f = h" "is_hash (sf_SHA256 f)" "off1 \<le> off'"
    by (auto simp: parse_file_def Let_def res_bind_Ok_iff res_map_Ok_iff is_hash_def zero_hash_def
        dest!: hash_at_is_hash split: if_splits)
  have "length ts = n" "\<forall>t \<in> set ts. term_ok t" "off1 = off + 48 + n * 48"
    using parse_terms_ok [OF ts] parse_terms_off [OF ts] by (auto simp: shardRecordLen_def)
  with f n(2) assms(2,3) show "parsed_file f" "off + 48 * (1 + length (sf_Terms f)) \<le> off'"
    by (auto simp: parsed_file_def)
qed

lemma parse_files_ok:
  "parse_files s off fs = Ok (fs', off') \<Longrightarrow> off \<le> length s \<Longrightarrow> list_all parsed_file fs \<Longrightarrow>
     list_all parsed_file fs' \<and>
     off + 48 * sum_list (map (\<lambda>f. 1 + length (sf_Terms f)) fs')
       \<le> off' + 48 * sum_list (map (\<lambda>f. 1 + length (sf_Terms f)) fs)"
proof (induction "length s - off" arbitrary: off fs rule: less_induct)
  case (less off fs)
  note eq = less.prems(1) [unfolded parse_files.simps [of s off fs]]
  show ?case
  proof (cases "off + 48 \<le> length s")
    case False
    with eq less.prems show ?thesis by (auto simp: shardRecordLen_def)
  next
    case True
    then obtain h where h: "hash_at off s = Ok h" by (auto simp: go_res)
    show ?thesis
    proof (cases "IsBookend h")
      case True
      with eq h less.prems show ?thesis by (auto simp: shardRecordLen_def split: if_splits)
    next
      case False
      with eq h \<open>off + 48 \<le> length s\<close> obtain f off1 where
        f: "parse_file s off h = Ok (f, off1)" "parse_files s off1 (fs @ [f]) = Ok (fs', off')"
        by (auto simp: shardRecordLen_def split: res.splits prod.splits)
      note ok = parse_file_ok [OF f(1) hash_at_is_hash [OF h] False]
      note o1 = parse_file_off [OF f(1)]
      have "length s - off1 < length s - off" using o1 by linarith
      from less.hyps [OF this f(2)] o1 ok less.prems(3) show ?thesis
        by simp
    qed
  qed
qed

lemma parse_xorb_ok:
  assumes "parse_xorb s off h = Ok (x, off')"
  shows "sx_NumChunks x = length (sx_ChunkHashes x)" and "off + 48 * (1 + sx_NumChunks x) \<le> off'"
  using assms
  by (auto simp: parse_xorb_def Let_def res_bind_Ok_iff res_map_Ok_iff shardRecordLen_def
      dest!: parse_hashes_off split: if_splits)

lemma parse_xorbs_ok:
  "parse_xorbs s off xs = Ok (xs', off') \<Longrightarrow> off \<le> length s \<Longrightarrow>
     list_all (\<lambda>x. sx_NumChunks x = length (sx_ChunkHashes x)) xs \<Longrightarrow>
     list_all (\<lambda>x. sx_NumChunks x = length (sx_ChunkHashes x)) xs' \<and> off' \<le> length s \<and>
     off + 48 * sum_list (map (\<lambda>x. 1 + sx_NumChunks x) xs')
       \<le> off' + 48 * sum_list (map (\<lambda>x. 1 + sx_NumChunks x) xs)"
proof (induction "length s - off" arbitrary: off xs rule: less_induct)
  case (less off xs)
  note eq = less.prems(1) [unfolded parse_xorbs.simps [of s off xs]]
  show ?case
  proof (cases "off + 48 \<le> length s")
    case False
    with eq less.prems show ?thesis by (auto simp: shardRecordLen_def)
  next
    case True
    then obtain h where h: "hash_at off s = Ok h" by (auto simp: go_res)
    show ?thesis
    proof (cases "IsBookend h")
      case True
      with eq h less.prems \<open>off + 48 \<le> length s\<close> show ?thesis
        by (auto simp: shardRecordLen_def split: if_splits)
    next
      case False
      with eq h \<open>off + 48 \<le> length s\<close> obtain x off1 where
        x: "parse_xorb s off h = Ok (x, off1)" "parse_xorbs s off1 (xs @ [x]) = Ok (xs', off')"
        by (auto simp: shardRecordLen_def split: res.splits prod.splits)
      note ok = parse_xorb_ok [OF x(1)]
      note o1 = parse_xorb_off [OF x(1)]
      have "length s - off1 < length s - off" using o1 by linarith
      from less.hyps [OF this x(2)] o1 ok less.prems(3) show ?thesis
        by simp
    qed
  qed
qed

lemma parseFileSection_ok:
  assumes "parseFileSection s = Ok (fs, off)"
  shows "list_all parsed_file fs" and "off \<le> length s"
    and "48 * sum_list (map (\<lambda>f. 1 + length (sf_Terms f)) fs) \<le> off"
  using parse_files_ok [of s 0 "[]" fs off] parse_files_end [of s 0 "[]" fs off] assms
  by (auto simp: parseFileSection_def)

lemma parseXorbSection_ok:
  assumes "parseXorbSection s = Ok (xs, off)"
  shows "list_all (\<lambda>x. sx_NumChunks x = length (sx_ChunkHashes x)) xs"
    and "48 * sum_list (map (\<lambda>x. 1 + sx_NumChunks x) xs) \<le> length s"
  using parse_xorbs_ok [of s 0 "[]" xs off] assms
  by (auto simp: parseXorbSection_def)

lemma parse_sequential_ok:
  assumes "parse_sequential d = Ok s" and "48 \<le> length d"
  shows "list_all parsed_file (sh_Files s) \<and>
         list_all (\<lambda>x. sx_NumChunks x = length (sx_ChunkHashes x)) (sh_Xorbs s) \<and>
         48 * shard_records s \<le> length d"
proof -
  obtain fs c xs u where
    f: "parseFileSection (gslice 48 (length d) d) = Ok (fs, c)"
    and x: "parseXorbSection (gslice (48 + c) (length d) d) = Ok (xs, u)"
    and s: "s = \<lparr>sh_Files = fs, sh_Xorbs = xs\<rparr>"
    using assms by (auto simp: parse_sequential_def shardHeaderLen_def go_res)
  show ?thesis
    using parseFileSection_ok [OF f] parseXorbSection_ok [OF x] assms(2) s
    by (simp add: shard_records_def)
qed

lemma parse_footered_ok:
  assumes "parse_footered d n = Ok s"
  shows "list_all parsed_file (sh_Files s) \<and>
         list_all (\<lambda>x. sx_NumChunks x = length (sx_ChunkHashes x)) (sh_Xorbs s) \<and>
         48 * shard_records s \<le> length d"
proof -
  obtain i j k fs c xs u where
    o: "i \<le> j" "j \<le> k" "k \<le> length d"
    and f: "parseFileSection (gslice i j d) = Ok (fs, c)"
    and x: "parseXorbSection (gslice j k d) = Ok (xs, u)"
    and s: "s = \<lparr>sh_Files = fs, sh_Xorbs = xs\<rparr>"
    using assms
    by (auto simp: parse_footered_def res_bind_Ok_iff go_slice_iff not_less
        split: if_splits prod.splits)
  show ?thesis
    using parseFileSection_ok [OF f] parseXorbSection_ok [OF x] o s
    by (simp add: shard_records_def)
qed

lemma ParseShard_never_panics: "ParseShard data \<noteq> Panic"
proof -
  have "parse_sequential data \<noteq> Panic" if "48 \<le> length data"
    using that parseFileSection_ok(2)
    by (fastforce simp: parse_sequential_def go_res shardHeaderLen_def parseFileSection_def
        parseXorbSection_def)
  moreover have "parse_footered data n \<noteq> Panic" if "n \<le> length data" for n
    by (auto simp: parse_footered_def go_res parseFileSection_def parseXorbSection_def that)
  ultimately show ?thesis
    by (auto simp: ParseShard_def go_res shardHeaderLen_def)
qed

section \<open>Properties\<close>

text \<open>
  \<open>ParseShard\<close> never panics, whatever bytes a client sends: every slice of
  the parser is in range on every path.
\<close>

theorem ParseShard_no_panic: "ParseShard data \<noteq> Panic"
  by (rule ParseShard_never_panics)

text \<open>
  C29. Both layouts clients send, the sequential one of shipping wheels and the
  footered one of xet-core main, parse back to exactly the files and xorbs that
  were serialized, in order, with or without verification records, and with
  the SHA-256 exactly where the metadata extension carries one.
\<close>

theorem ParseShard_roundtrip:
  assumes "length pad = 16" "\<forall>f \<in> set fs. file_ok f" "\<forall>x \<in> set xs. xorb_ok x"
    and "length (shard_footered pad fs xs lookup rest) < 2 ^ 64"
  shows "ParseShard (shard_sequential pad fs xs rest) = Ok \<lparr>sh_Files = map fst fs, sh_Xorbs = xs\<rparr> \<and>
         ParseShard (shard_footered pad fs xs lookup rest) = Ok \<lparr>sh_Files = map fst fs, sh_Xorbs = xs\<rparr>"
  using ParseShard_sequential ParseShard_footered assms by blast

text \<open>A small upload for the witnesses: one file of one term, one xorb of one chunk.\<close>

definition demo_file :: ShardFile where
  "demo_file = \<lparr>sf_FileHash = replicate 32 1, sf_SHA256 = replicate 32 2,
     sf_Terms = [\<lparr>tm_XorbHash = replicate 32 3, tm_UnpackedLen = 5, tm_ChunkStart = 0,
                  tm_ChunkEnd = 1\<rparr>]\<rparr>"

definition demo_xorb :: ShardXorb where
  "demo_xorb = \<lparr>sx_XorbHash = replicate 32 3, sx_NumChunks = 1, sx_NumBytesInXorb = 5,
     sx_NumBytesOnDisk = 13, sx_ChunkHashes = [replicate 32 4]\<rparr>"

lemma demo_ok: "file_ok (demo_file, Some (replicate 48 0))" "xorb_ok demo_xorb"
  by (simp_all add: file_ok_def xorb_ok_def demo_file_def demo_xorb_def is_hash_def term_ok_def
      IsBookend_def list_all_iff)

theorem ParseShard_roundtrip_witness:
  "ParseShard (shard_footered (replicate 16 0) [(demo_file, Some (replicate 48 0))] [demo_xorb] [] [])
     = Ok \<lparr>sh_Files = [demo_file], sh_Xorbs = [demo_xorb]\<rparr>"
proof -
  have "length (shard_footered (replicate 16 0) [(demo_file, Some (replicate 48 0))] [demo_xorb] [] [])
          < 2 ^ 64"
    by (simp add: shard_footered_def Let_def ser_files_def ser_xorbs_def ser_file_def ser_xorb_def
        demo_file_def demo_xorb_def ser_term_def)
  then show ?thesis
    using ParseShard_roundtrip [of "replicate 16 0" "[(demo_file, Some (replicate 48 0))]" "[demo_xorb]"]
      demo_ok by simp
qed

text \<open>
  An accepted shard is bounded by the bytes received: every file, term,
  xorb and chunk hash it declares occupies its own 48-byte record, so the
  parsed value cannot be larger than the upload; every file has a 32-byte hash
  that is not the bookend and at most 2^20 terms with 32-bit fields, and every
  xorb has exactly as many chunk hashes as it declares.
\<close>

theorem ParseShard_bounded:
  assumes "ParseShard data = Ok s"
  shows "list_all parsed_file (sh_Files s) \<and>
         list_all (\<lambda>x. sx_NumChunks x = length (sx_ChunkHashes x)) (sh_Xorbs s) \<and>
         48 * shard_records s \<le> length data"
proof -
  have "48 \<le> length data" and "parse_sequential data = Ok s \<or> (\<exists>n. parse_footered data n = Ok s)"
    using assms by (auto simp: ParseShard_def res_bind_Ok_iff shardHeaderLen_def split: if_splits)
  then show ?thesis
    using parse_sequential_ok parse_footered_ok by blast
qed

theorem ParseShard_bounded_witness:
  "48 * shard_records \<lparr>sh_Files = [demo_file], sh_Xorbs = [demo_xorb]\<rparr>
     \<le> length (shard_sequential (replicate 16 0) [(demo_file, Some (replicate 48 0))] [demo_xorb] [])"
proof -
  have "ParseShard (shard_sequential (replicate 16 0) [(demo_file, Some (replicate 48 0))] [demo_xorb] [])
      = Ok \<lparr>sh_Files = [demo_file], sh_Xorbs = [demo_xorb]\<rparr>"
    using ParseShard_sequential [of "replicate 16 0" "[(demo_file, Some (replicate 48 0))]" "[demo_xorb]"]
      demo_ok by simp
  from ParseShard_bounded [OF this] show ?thesis by blast
qed

end
