(* ===== verification/Xet_Store.thy ===== *)
theory Xet_Store
  imports Xet_Chunks Xet_Shard
begin

text \<open>
  internal/xet/store.go: the content-addressed store of xorbs, file records and
  dedup shards over a byte-persistence layer. The layer is an interface
  (\<open>objects\<close>) with a local-directory and a bucket implementation; its contract
  is the locale \<open>object_store\<close>, interpreted on both. Writes can fail at every
  system call, following a fault schedule in the state, so the ordering
  guarantees are stated for every crash point. The JSON codec of layouts and
  records is a parameter.
\<close>

section \<open>The persistence interface\<close>

datatype store_error =
  ErrNotFound | StoreIO | BadXorb chunk_error | BadFileHash hash_error | BadSHA256 string
| CorruptLayout string | CorruptRecord string | CorruptPointer string

record 'o objects =
  ob_has :: "string \<Rightarrow> 'o \<Rightarrow> (store_error, bool) res"
  ob_read :: "string \<Rightarrow> 'o \<Rightarrow> (store_error, byte list) res"
  ob_write :: "string \<Rightarrow> byte list \<Rightarrow> 'o \<Rightarrow> (store_error, unit) res \<times> 'o"

text \<open>
  The contract: reads see exactly the visible object, a successful write
  installs exactly its bytes, and a failed write changes nothing else than,
  at most, installing exactly those bytes ("readers never observe a partial
  object").
\<close>

locale object_store =
  fixes ob :: "'o objects" and contents :: "'o \<Rightarrow> string \<Rightarrow> byte list option"
  assumes read_contents: "ob_read ob k s = Ok b \<Longrightarrow> contents s k = Some b"
    and read_missing: "ob_read ob k s = Err ErrNotFound \<Longrightarrow> contents s k = None"
    and has_contents: "ob_has ob k s = Ok r \<Longrightarrow> r \<longleftrightarrow> contents s k \<noteq> None"
    and no_panic: "ob_read ob k s \<noteq> Panic" "ob_has ob k s \<noteq> Panic" "fst (ob_write ob k b s) \<noteq> Panic"
    and write_ok: "ob_write ob k b s = (Ok u, s') \<Longrightarrow> contents s' = (contents s)(k \<mapsto> b)"
    and write_err: "ob_write ob k b s = (Err e, s') \<Longrightarrow>
                      contents s' = contents s \<or> contents s' = (contents s)(k \<mapsto> b)"
begin

lemma write_cases:
  "ob_write ob k b s = (r, s') \<Longrightarrow>
     contents s' = (contents s)(k \<mapsto> b) \<or> (\<exists>e. r = Err e) \<and> contents s' = contents s"
  using write_ok write_err no_panic(3) [of k b s] by (cases r) fastforce+

lemma write_other: "ob_write ob k b s = (r, s') \<Longrightarrow> k' \<noteq> k \<Longrightarrow> contents s' k' = contents s k'"
  using write_cases [of k b s r s'] by auto

end

subsection \<open>The local directory\<close>

text \<open>
  Files of the store's directory: an object under its key, or a temporary file
  (\<open>os.CreateTemp\<close> picks an unused name). Every system call of a write consumes
  one entry of the fault schedule, \<open>True\<close> meaning that it fails; a key can be
  unreadable (an error other than "does not exist").
\<close>

datatype disk_file = ObjFile string | TempFile nat

record disk =
  dk_files :: "disk_file \<Rightarrow> byte list option"
  dk_next :: nat
  dk_faults :: "bool list"
  dk_unreadable :: "string \<Rightarrow> bool"

definition disk_fault :: "disk \<Rightarrow> bool \<times> disk" where
  "disk_fault d = (case dk_faults d of [] \<Rightarrow> (False, d) | f # fs \<Rightarrow> (f, d\<lparr>dk_faults := fs\<rparr>))"

definition disk_remove :: "disk_file \<Rightarrow> disk \<Rightarrow> disk" where
  "disk_remove f d = d\<lparr>dk_files := (dk_files d)(f := None)\<rparr>"

definition disk_has :: "string \<Rightarrow> disk \<Rightarrow> (store_error, bool) res" where
  "disk_has k d =
     (if dk_unreadable d k then Err StoreIO else Ok (dk_files d (ObjFile k) \<noteq> None))"

definition disk_read :: "string \<Rightarrow> disk \<Rightarrow> (store_error, byte list) res" where
  "disk_read k d =
     (if dk_unreadable d k then Err StoreIO
      else case dk_files d (ObjFile k) of None \<Rightarrow> Err ErrNotFound | Some b \<Rightarrow> Ok b)"

text \<open>
  \<open>diskObjects.write\<close>: create a temporary file, write it (a failing write leaves
  a prefix), close it, rename it into place; the deferred removal runs on every
  path.
\<close>

definition disk_write :: "string \<Rightarrow> byte list \<Rightarrow> disk \<Rightarrow> (store_error, unit) res \<times> disk" where
  "disk_write k data d0 =
     (let tmp = TempFile (dk_next d0); (f1, d1) = disk_fault d0 in
      if f1 then (Err StoreIO, d1)
      else
        let d2 = d1\<lparr>dk_files := (dk_files d1)(tmp \<mapsto> []), dk_next := Suc (dk_next d1)\<rparr>;
            (f2, d3) = disk_fault d2 in
        if f2 then
          (Err StoreIO,
           disk_remove tmp (d3\<lparr>dk_files := (dk_files d3)(tmp \<mapsto> take (length data div 2) data)\<rparr>))
        else
          let d4 = d3\<lparr>dk_files := (dk_files d3)(tmp \<mapsto> data)\<rparr>; (f3, d5) = disk_fault d4 in
          if f3 then (Err StoreIO, disk_remove tmp d5)
          else
            let (f4, d6) = disk_fault d5 in
            if f4 then (Err StoreIO, disk_remove tmp d6)
            else (Ok (), disk_remove tmp
                    (d6\<lparr>dk_files := (dk_files d6)(ObjFile k := dk_files d6 tmp)\<rparr>)))"

definition diskObjects :: "disk objects" where
  "diskObjects = \<lparr>ob_has = disk_has, ob_read = disk_read, ob_write = disk_write\<rparr>"

definition disk_contents :: "disk \<Rightarrow> string \<Rightarrow> byte list option" where
  "disk_contents d k = dk_files d (ObjFile k)"

lemma disk_fault_files [simp]: "disk_fault d = (f, d') \<Longrightarrow> dk_files d' = dk_files d \<and> dk_next d' = dk_next d \<and>
    dk_unreadable d' = dk_unreadable d"
  by (auto simp: disk_fault_def split: list.splits)

lemma disk_contents_simps [simp]:
  "disk_contents (disk_remove (TempFile n) d) = disk_contents d"
  "disk_contents (d\<lparr>dk_files := (dk_files d)(TempFile n := v)\<rparr>) = disk_contents d"
  "disk_contents (d\<lparr>dk_files := (dk_files d)(TempFile n := v), dk_next := m\<rparr>) = disk_contents d"
  by (auto simp: disk_contents_def disk_remove_def)

lemma disk_write_contents:
  assumes "disk_write k b d = (r, d')"
  shows "(r = Ok () \<and> disk_contents d' = (disk_contents d)(k \<mapsto> b)) \<or>
         (r = Err StoreIO \<and> disk_contents d' = disk_contents d)"
  using assms
  by (auto simp: disk_write_def Let_def disk_contents_def disk_remove_def fun_eq_iff
      split: prod.splits if_splits)

interpretation disk: object_store diskObjects disk_contents
proof
  fix k b and s s' :: disk and u e
  show "ob_write diskObjects k b s = (Ok u, s') \<Longrightarrow> disk_contents s' = (disk_contents s)(k \<mapsto> b)"
    "ob_write diskObjects k b s = (Err e, s') \<Longrightarrow>
       disk_contents s' = disk_contents s \<or> disk_contents s' = (disk_contents s)(k \<mapsto> b)"
    using disk_write_contents by (fastforce simp: diskObjects_def)+
  show "fst (ob_write diskObjects k b s) \<noteq> Panic"
    using disk_write_contents [of k b s] by (cases "disk_write k b s") (auto simp: diskObjects_def)
qed (auto simp: diskObjects_def disk_has_def disk_read_def disk_contents_def split: option.splits if_splits)

subsection \<open>The bucket\<close>

text \<open>
  A bucket as the client sees it: its objects under full keys, the keys whose
  reads currently fail, and for every write whether it fails before the server
  acted, after it (the response was lost), or not at all.
\<close>

datatype net_fault = NoFault | LostRequest | LostResponse

record bucket =
  bu_objects :: "string \<Rightarrow> byte list option"
  bu_faults :: "net_fault list"
  bu_unreadable :: "string \<Rightarrow> bool"

definition bucket_prefix :: "string \<Rightarrow> string" where
  "bucket_prefix p = (let t = trim_char CHR ''/'' p in if t \<noteq> [] then t @ ''/'' else t)"

definition bucket_has :: "string \<Rightarrow> string \<Rightarrow> bucket \<Rightarrow> (store_error, bool) res" where
  "bucket_has pre k s =
     (if bu_unreadable s (pre @ k) then Err StoreIO else Ok (bu_objects s (pre @ k) \<noteq> None))"

definition bucket_read :: "string \<Rightarrow> string \<Rightarrow> bucket \<Rightarrow> (store_error, byte list) res" where
  "bucket_read pre k s =
     (if bu_unreadable s (pre @ k) then Err StoreIO
      else case bu_objects s (pre @ k) of None \<Rightarrow> Err ErrNotFound | Some b \<Rightarrow> Ok b)"

definition bucket_write ::
  "string \<Rightarrow> string \<Rightarrow> byte list \<Rightarrow> bucket \<Rightarrow> (store_error, unit) res \<times> bucket" where
  "bucket_write pre k data s =
     (let (f, s1) = (case bu_faults s of [] \<Rightarrow> (NoFault, s) | f # fs \<Rightarrow> (f, s\<lparr>bu_faults := fs\<rparr>));
          s2 = s1\<lparr>bu_objects := (bu_objects s1)(pre @ k \<mapsto> data)\<rparr> in
      case f of
        NoFault \<Rightarrow> (Ok (), s2)
      | LostRequest \<Rightarrow> (Err StoreIO, s1)
      | LostResponse \<Rightarrow> (Err StoreIO, s2))"

definition bucketObjects :: "string \<Rightarrow> bucket objects" where
  "bucketObjects pre = \<lparr>ob_has = bucket_has pre, ob_read = bucket_read pre, ob_write = bucket_write pre\<rparr>"

definition bucket_contents :: "string \<Rightarrow> bucket \<Rightarrow> string \<Rightarrow> byte list option" where
  "bucket_contents pre s k = bu_objects s (pre @ k)"

interpretation bucket: object_store "bucketObjects pre" "bucket_contents pre"
  by unfold_locales
     (auto simp: bucketObjects_def bucket_has_def bucket_read_def bucket_write_def Let_def
       bucket_contents_def fun_eq_iff split: option.splits list.splits net_fault.splits if_splits)

section \<open>Keys and records\<close>

definition xorbKey :: "hash \<Rightarrow> string" where
  "xorbKey h = ''xorbs/'' @ Hash_Hex h"

definition chunksKey :: "hash \<Rightarrow> string" where
  "chunksKey h = ''xorbs/'' @ Hash_Hex h @ ''.chunks.json''"

definition fileKey :: "hash \<Rightarrow> string" where
  "fileKey h = ''files/'' @ Hash_Hex h @ ''.json''"

definition shaKey :: "string \<Rightarrow> string" where
  "shaKey sha = ''sha256/'' @ to_lower sha"

definition chunkIndexKey :: "hash \<Rightarrow> string" where
  "chunkIndexKey h = ''chunks/'' @ Hash_Hex h"

definition shardKey :: "string \<Rightarrow> string" where
  "shardKey hx = ''shards/'' @ hx"

record TermRecord =
  tr_Xorb :: string
  tr_ChunkStart :: int
  tr_ChunkEnd :: int
  tr_UnpackedLen :: int

record FileRecord =
  fr_FileHash :: string
  fr_SHA256 :: string
  fr_TotalLen :: int
  fr_Terms :: "TermRecord list"

record json_codec =
  enc_layout :: "ChunkInfo list \<Rightarrow> byte list"
  dec_layout :: "byte list \<Rightarrow> ChunkInfo list option"
  enc_record :: "FileRecord \<Rightarrow> byte list"
  dec_record :: "byte list \<Rightarrow> FileRecord option"

text \<open>What the code relies on of encoding/json: a stored value decodes to itself.\<close>

definition codec_ok :: "json_codec \<Rightarrow> bool" where
  "codec_ok jc \<longleftrightarrow> (\<forall>l. dec_layout jc (enc_layout jc l) = Some l) \<and>
                   (\<forall>r. dec_record jc (enc_record jc r) = Some r)"

definition sha256HexPattern :: "string \<Rightarrow> bool" where
  "sha256HexPattern s \<longleftrightarrow> length s = 64 \<and> list_all is_hex s"

definition shardKeyPattern :: "string \<Rightarrow> bool" where
  "shardKeyPattern s \<longleftrightarrow>
     (case cut_prefix ''shards/'' s of
        None \<Rightarrow> False
      | Some hx \<Rightarrow> length hx = 64 \<and> list_all is_lower_hex hx)"

section \<open>The operations\<close>

definition HasXorb :: "'o objects \<Rightarrow> hash \<Rightarrow> 'o \<Rightarrow> bool" where
  "HasXorb ob h s = (ob_has ob (xorbKey h) s = Ok True)"

definition PutXorb ::
  "json_codec \<Rightarrow> 'o objects \<Rightarrow> hash \<Rightarrow> byte list \<Rightarrow> 'o \<Rightarrow> (store_error, bool) res \<times> 'o" where
  "PutXorb jc ob h data s =
     (if HasXorb ob h s then (Ok False, s)
      else case WalkChunks data of
        Err e \<Rightarrow> (Err (BadXorb e), s)
      | Panic \<Rightarrow> (Panic, s)
      | Ok chunks \<Rightarrow>
          (case ob_write ob (chunksKey h) (enc_layout jc chunks) s of
             (Err e, s1) \<Rightarrow> (Err e, s1)
           | (Panic, s1) \<Rightarrow> (Panic, s1)
           | (Ok _, s1) \<Rightarrow>
               (case ob_write ob (xorbKey h) data s1 of
                  (Err e, s2) \<Rightarrow> (Err e, s2)
                | (Panic, s2) \<Rightarrow> (Panic, s2)
                | (Ok _, s2) \<Rightarrow> (Ok True, s2))))"

definition XorbChunks :: "json_codec \<Rightarrow> 'o objects \<Rightarrow> hash \<Rightarrow> 'o \<Rightarrow> (store_error, ChunkInfo list) res" where
  "XorbChunks jc ob h s =
     res_bind (ob_read ob (chunksKey h) s) (\<lambda>data.
       case dec_layout jc data of None \<Rightarrow> Err (CorruptLayout (Hash_Hex h)) | Some l \<Rightarrow> Ok l)"

text \<open>\<open>OpenXorb\<close> and \<open>ReadXorb\<close>: both yield the object's bytes.\<close>

definition ReadXorb :: "'o objects \<Rightarrow> hash \<Rightarrow> 'o \<Rightarrow> (store_error, byte list) res" where
  "ReadXorb ob h s = ob_read ob (xorbKey h) s"

definition PutFile :: "json_codec \<Rightarrow> 'o objects \<Rightarrow> FileRecord \<Rightarrow> 'o \<Rightarrow> (store_error, unit) res \<times> 'o" where
  "PutFile jc ob r s =
     (case ParseHex (fr_FileHash r) of
        Err e \<Rightarrow> (Err (BadFileHash e), s)
      | Panic \<Rightarrow> (Panic, s)
      | Ok h \<Rightarrow>
          if fr_SHA256 r \<noteq> [] \<and> \<not> sha256HexPattern (fr_SHA256 r) then (Err (BadSHA256 (fr_SHA256 r)), s)
          else
            (case ob_write ob (fileKey h) (enc_record jc r) s of
               (Err e, s1) \<Rightarrow> (Err e, s1)
             | (Panic, s1) \<Rightarrow> (Panic, s1)
             | (Ok _, s1) \<Rightarrow>
                 if fr_SHA256 r \<noteq> [] then ob_write ob (shaKey (fr_SHA256 r)) (to_bytes (fr_FileHash r)) s1
                 else (Ok (), s1)))"

definition Store_File :: "json_codec \<Rightarrow> 'o objects \<Rightarrow> hash \<Rightarrow> 'o \<Rightarrow> (store_error, FileRecord) res" where
  "Store_File jc ob h s =
     res_bind (ob_read ob (fileKey h) s) (\<lambda>data.
       case dec_record jc data of None \<Rightarrow> Err (CorruptRecord (Hash_Hex h)) | Some r \<Rightarrow> Ok r)"

fun write_pointers :: "'o objects \<Rightarrow> string \<Rightarrow> hash list \<Rightarrow> 'o \<Rightarrow> (store_error, unit) res \<times> 'o" where
  "write_pointers ob key [] s = (Ok (), s)"
| "write_pointers ob key (c # cs) s =
     (case ob_write ob (chunkIndexKey c) (to_bytes key) s of
        (Ok _, s1) \<Rightarrow> write_pointers ob key cs s1
      | (Err e, s1) \<Rightarrow> (Err e, s1)
      | (Panic, s1) \<Rightarrow> (Panic, s1))"

text \<open>\<open>sha\<close> stands for \<open>sha256Hex\<close>, the hexadecimal SHA-256 of the bytes.\<close>

definition PutDedupShard ::
  "(byte list \<Rightarrow> byte list) \<Rightarrow> 'o objects \<Rightarrow> byte list \<Rightarrow> hash list \<Rightarrow> 'o \<Rightarrow> (store_error, unit) res \<times> 'o" where
  "PutDedupShard sha256 ob shard chunks s =
     (if chunks = [] then (Ok (), s)
      else
        let key = shardKey (hex_encode (sha256 shard)) in
        case ob_write ob key shard s of
          (Err e, s1) \<Rightarrow> (Err e, s1)
        | (Panic, s1) \<Rightarrow> (Panic, s1)
        | (Ok _, s1) \<Rightarrow> write_pointers ob key chunks s1)"

definition DedupShard :: "'o objects \<Rightarrow> hash \<Rightarrow> 'o \<Rightarrow> (store_error, byte list) res" where
  "DedupShard ob chunk s =
     res_bind (ob_read ob (chunkIndexKey chunk) s) (\<lambda>pointer.
       let key = trim_space (of_bytes pointer) in
       if \<not> shardKeyPattern key then Err (CorruptPointer key) else ob_read ob key s)"

definition FileHashBySHA256 :: "'o objects \<Rightarrow> string \<Rightarrow> 'o \<Rightarrow> string option" where
  "FileHashBySHA256 ob sha s =
     (if \<not> sha256HexPattern sha then None
      else case ob_read ob (shaKey sha) s of
             Ok data \<Rightarrow> Some (trim_space (of_bytes data))
           | _ \<Rightarrow> None)"

section \<open>Keys\<close>

lemma Hash_Hex_inj: "is_hash h \<Longrightarrow> is_hash h' \<Longrightarrow> Hash_Hex h = Hash_Hex h' \<longleftrightarrow> h = h'"
  using ParseHex_Hex by (metis res.inject(1))

lemma keys_distinct [simp]:
  "xorbKey h \<noteq> chunksKey h'" "chunksKey h' \<noteq> xorbKey h"
  "xorbKey h \<noteq> fileKey h'" "fileKey h' \<noteq> xorbKey h"
  "chunksKey h \<noteq> fileKey h'" "fileKey h' \<noteq> chunksKey h"
  "xorbKey h \<noteq> shaKey x" "shaKey x \<noteq> xorbKey h"
  "chunksKey h \<noteq> shaKey x" "shaKey x \<noteq> chunksKey h"
  "fileKey h \<noteq> shaKey x" "shaKey x \<noteq> fileKey h"
  "xorbKey h \<noteq> chunkIndexKey h'" "chunkIndexKey h' \<noteq> xorbKey h"
  "chunksKey h \<noteq> chunkIndexKey h'" "chunkIndexKey h' \<noteq> chunksKey h"
  "fileKey h \<noteq> chunkIndexKey h'" "chunkIndexKey h' \<noteq> fileKey h"
  "shaKey x \<noteq> chunkIndexKey h'" "chunkIndexKey h' \<noteq> shaKey x"
  "xorbKey h \<noteq> shardKey y" "chunksKey h \<noteq> shardKey y" "fileKey h \<noteq> shardKey y"
  "shaKey x \<noteq> shardKey y" "chunkIndexKey h \<noteq> shardKey y"
  "shardKey y \<noteq> xorbKey h" "shardKey y \<noteq> chunksKey h" "shardKey y \<noteq> fileKey h"
  "shardKey y \<noteq> shaKey x" "shardKey y \<noteq> chunkIndexKey h"
proof -
  show a: "xorbKey h \<noteq> chunksKey h'" for h h'
  proof
    assume "xorbKey h = chunksKey h'"
    then have "length (xorbKey h) = length (chunksKey h')" by simp
    then show False by (simp add: xorbKey_def chunksKey_def)
  qed
  show "chunksKey h' \<noteq> xorbKey h" using a by metis
qed (simp_all add: xorbKey_def chunksKey_def fileKey_def shaKey_def chunkIndexKey_def shardKey_def)

lemma key_inj:
  "is_hash h \<Longrightarrow> is_hash h' \<Longrightarrow> xorbKey h = xorbKey h' \<longleftrightarrow> h = h'"
  "is_hash h \<Longrightarrow> is_hash h' \<Longrightarrow> chunksKey h = chunksKey h' \<longleftrightarrow> h = h'"
  "is_hash h \<Longrightarrow> is_hash h' \<Longrightarrow> fileKey h = fileKey h' \<longleftrightarrow> h = h'"
  "is_hash h \<Longrightarrow> is_hash h' \<Longrightarrow> chunkIndexKey h = chunkIndexKey h' \<longleftrightarrow> h = h'"
  by (auto simp: xorbKey_def chunksKey_def fileKey_def chunkIndexKey_def Hash_Hex_inj)

lemma shard_key_pattern: "length (hash :: byte list) = 32 \<Longrightarrow> shardKeyPattern (shardKey (hex_encode hash))"
  unfolding shardKeyPattern_def shardKey_def cut_prefix_append by (simp add: hex_encode_lower)

lemma not_space_lower_hex: "is_lower_hex c \<Longrightarrow> \<not> is_space c"
  by (auto simp: is_space_def is_lower_hex_iff Let_def)

lemma trim_space_shard_key [simp]:
  "length (hash :: byte list) = 32 \<Longrightarrow>
     trim_space (shardKey (hex_encode hash)) = shardKey (hex_encode hash)"
proof -
  assume l: "length hash = 32"
  then have "hex_encode hash \<noteq> []" using length_hex_encode [of hash] by fastforce
  then have "is_lower_hex (last (hex_encode hash))"
    using hex_encode_lower [of hash] by (simp add: list_all_iff)
  moreover have "\<not> is_space CHR ''s''" by (simp add: is_space_def)
  ultimately show ?thesis
    using \<open>hex_encode hash \<noteq> []\<close> not_space_lower_hex
    by (intro trim_space_id) (auto simp: shardKey_def)
qed

lemma trim_space_Hash_Hex [simp]: "trim_space (Hash_Hex h) = Hash_Hex h"
proof -
  have ne: "Hash_Hex h \<noteq> []" using length_Hash_Hex [of h] by fastforce
  then have "\<not> is_space (hd (Hash_Hex h))" "\<not> is_space (last (Hash_Hex h))"
    using Hash_Hex_lower [of h] not_space_lower_hex by (auto simp: list_all_iff)
  with ne show ?thesis by (rule trim_space_id)
qed

section \<open>The store's invariant\<close>

text \<open>"a visible xorb always has its layout"\<close>

definition inv_layout :: "json_codec \<Rightarrow> (string \<Rightarrow> byte list option) \<Rightarrow> bool" where
  "inv_layout jc c \<longleftrightarrow>
     (\<forall>h x. is_hash h \<longrightarrow> c (xorbKey h) = Some x \<longrightarrow>
        (\<exists>cs. WalkChunks x = Ok cs \<and> c (chunksKey h) = Some (enc_layout jc cs)))"

text \<open>"a visible pointer always resolves", to the shard it names\<close>

definition resolves :: "(byte list \<Rightarrow> byte list) \<Rightarrow> (string \<Rightarrow> byte list option) \<Rightarrow> byte list \<Rightarrow> bool" where
  "resolves sha256 c p \<longleftrightarrow>
     (\<exists>b. p = to_bytes (shardKey (hex_encode (sha256 b))) \<and> c (shardKey (hex_encode (sha256 b))) \<noteq> None)"

definition inv_pointer :: "(byte list \<Rightarrow> byte list) \<Rightarrow> (string \<Rightarrow> byte list option) \<Rightarrow> bool" where
  "inv_pointer sha256 c \<longleftrightarrow>
     (\<forall>h p. c (chunkIndexKey h) = Some p \<longrightarrow> resolves sha256 c p) \<and>
     (\<forall>hx x. c (shardKey hx) = Some x \<longrightarrow> hx = hex_encode (sha256 x))"

text \<open>A visible content mapping names a file whose record is visible.\<close>

definition names_file :: "(string \<Rightarrow> byte list option) \<Rightarrow> byte list \<Rightarrow> bool" where
  "names_file c p \<longleftrightarrow> (\<exists>s h. p = to_bytes s \<and> ParseHex s = Ok h \<and> c (fileKey h) \<noteq> None)"

definition inv_sha :: "(string \<Rightarrow> byte list option) \<Rightarrow> bool" where
  "inv_sha c \<longleftrightarrow> (\<forall>sha p. c (shaKey sha) = Some p \<longrightarrow> names_file c p)"

definition store_inv :: "json_codec \<Rightarrow> (byte list \<Rightarrow> byte list) \<Rightarrow> (string \<Rightarrow> byte list option) \<Rightarrow> bool" where
  "store_inv jc sha256 c \<longleftrightarrow> inv_layout jc c \<and> inv_pointer sha256 c \<and> inv_sha c"

lemma store_inv_empty: "store_inv jc sha256 (\<lambda>_. None)"
  by (simp add: store_inv_def inv_layout_def inv_pointer_def inv_sha_def)

lemma inv_layout_other:
  "inv_layout jc c \<Longrightarrow> \<forall>h. k \<noteq> xorbKey h \<and> k \<noteq> chunksKey h \<Longrightarrow> inv_layout jc (c(k \<mapsto> b))"
  by (auto simp: inv_layout_def)

lemma inv_layout_write_layout:
  "inv_layout jc c \<Longrightarrow> is_hash h \<Longrightarrow> WalkChunks x = Ok cs \<Longrightarrow> c (xorbKey h) \<in> {None, Some x} \<Longrightarrow>
     inv_layout jc (c(chunksKey h \<mapsto> enc_layout jc cs))"
  by (auto simp: inv_layout_def key_inj)

lemma inv_layout_write_xorb:
  "inv_layout jc c \<Longrightarrow> is_hash h \<Longrightarrow> WalkChunks x = Ok cs \<Longrightarrow>
     c (chunksKey h) = Some (enc_layout jc cs) \<Longrightarrow> inv_layout jc (c(xorbKey h \<mapsto> x))"
  by (auto simp: inv_layout_def key_inj)

lemma shardKey_inj [simp]: "shardKey x = shardKey y \<longleftrightarrow> x = y"
  by (simp add: shardKey_def)

lemma resolves_mono: "resolves sha256 c p \<Longrightarrow> resolves sha256 (c(k \<mapsto> b)) p"
  unfolding resolves_def by (metis fun_upd_apply option.distinct(1))

lemma names_file_mono: "names_file c p \<Longrightarrow> names_file (c(k \<mapsto> b)) p"
  unfolding names_file_def by (metis fun_upd_apply option.distinct(1))

lemma inv_pointer_other:
  "inv_pointer sha256 c \<Longrightarrow> \<forall>h. k \<noteq> chunkIndexKey h \<Longrightarrow> \<forall>hx. k \<noteq> shardKey hx \<Longrightarrow>
     inv_pointer sha256 (c(k \<mapsto> b))"
  unfolding inv_pointer_def by (metis fun_upd_apply resolves_mono)

lemma inv_pointer_write_shard:
  "inv_pointer sha256 c \<Longrightarrow> inv_pointer sha256 (c(shardKey (hex_encode (sha256 b)) \<mapsto> b))"
  by (auto simp: inv_pointer_def resolves_mono)

lemma inv_pointer_write_pointer:
  "inv_pointer sha256 c \<Longrightarrow> c (shardKey (hex_encode (sha256 b))) \<noteq> None \<Longrightarrow>
     inv_pointer sha256 (c(chunkIndexKey h \<mapsto> to_bytes (shardKey (hex_encode (sha256 b)))))"
  unfolding inv_pointer_def
  by (auto intro: resolves_mono) (auto simp: resolves_def)

lemma inv_sha_other:
  "inv_sha c \<Longrightarrow> \<forall>x. k \<noteq> shaKey x \<Longrightarrow> inv_sha (c(k \<mapsto> b))"
  unfolding inv_sha_def by (metis fun_upd_apply names_file_mono)

lemma inv_sha_write_sha:
  "inv_sha c \<Longrightarrow> ParseHex s = Ok h \<Longrightarrow> c (fileKey h) \<noteq> None \<Longrightarrow> inv_sha (c(shaKey x \<mapsto> to_bytes s))"
  unfolding inv_sha_def by (auto intro: names_file_mono) (auto simp: names_file_def)

context object_store
begin

lemma PutXorb_inv:
  assumes inv: "store_inv jc sha256 (contents s)" and h: "is_hash h"
    and same: "(\<forall>e. ob_has ob (xorbKey h) s \<noteq> Err e) \<or> contents s (xorbKey h) \<in> {None, Some data}"
  shows "store_inv jc sha256 (contents (snd (PutXorb jc ob h data s)))"
proof (cases "HasXorb ob h s")
  case True
  with inv show ?thesis by (simp add: PutXorb_def)
next
  case False
  then have absent: "contents s (xorbKey h) \<in> {None, Some data}"
    using same no_panic(2) [of "xorbKey h" s] has_contents [of "xorbKey h" s]
    by (cases "ob_has ob (xorbKey h) s") (auto simp: HasXorb_def)
  show ?thesis
  proof (cases "WalkChunks data")
    case (Ok cs)
    let ?l = "enc_layout jc cs"
    obtain r1 s1 where w1: "ob_write ob (chunksKey h) ?l s = (r1, s1)"
      by (cases "ob_write ob (chunksKey h) ?l s") auto
    obtain r2 s2 where w2: "ob_write ob (xorbKey h) data s1 = (r2, s2)"
      by (cases "ob_write ob (xorbKey h) data s1") auto
    have c1: "contents s1 = contents s \<or> contents s1 = (contents s)(chunksKey h \<mapsto> ?l)"
      using write_cases [OF w1] by auto
    have inv1: "store_inv jc sha256 (contents s1)"
    proof -
      have "store_inv jc sha256 ((contents s)(chunksKey h \<mapsto> ?l))"
        using inv inv_layout_write_layout [where c = "contents s", OF _ h Ok absent]
        by (simp add: store_inv_def inv_pointer_other inv_sha_other)
      with inv c1 show ?thesis by auto
    qed
    show ?thesis
    proof (cases r1)
      case (Ok u)
      with w1 have c: "contents s1 = (contents s)(chunksKey h \<mapsto> ?l)" by (auto dest: write_ok)
      then have "inv_layout jc ((contents s1)(xorbKey h \<mapsto> data))"
        using inv1 inv_layout_write_xorb [where c = "contents s1", OF _ h \<open>WalkChunks data = Ok cs\<close>]
        by (simp add: store_inv_def)
      then have "store_inv jc sha256 ((contents s1)(xorbKey h \<mapsto> data))"
        using inv1 by (simp add: store_inv_def inv_pointer_other inv_sha_other)
      then have "store_inv jc sha256 (contents s2)"
        using inv1 write_cases [OF w2] by auto
      then show ?thesis
        using False Ok w1 w2 \<open>WalkChunks data = Ok cs\<close>
        by (cases r2) (auto simp: PutXorb_def)
    qed (use False w1 inv1 \<open>WalkChunks data = Ok cs\<close> in \<open>auto simp: PutXorb_def\<close>)
  qed (use False inv in \<open>auto simp: PutXorb_def\<close>)
qed

lemma PutFile_inv:
  assumes inv: "store_inv jc sha256 (contents s)"
  shows "store_inv jc sha256 (contents (snd (PutFile jc ob r s)))"
proof (cases "ParseHex (fr_FileHash r)")
  case (Ok h)
  let ?e = "enc_record jc r"
  obtain r1 s1 where w1: "ob_write ob (fileKey h) ?e s = (r1, s1)"
    by (cases "ob_write ob (fileKey h) ?e s") auto
  let ?p = "to_bytes (fr_FileHash r)"
  obtain r2 s2 where w2: "ob_write ob (shaKey (fr_SHA256 r)) ?p s1 = (r2, s2)"
    by (cases "ob_write ob (shaKey (fr_SHA256 r)) ?p s1") auto
  have "store_inv jc sha256 ((contents s)(fileKey h \<mapsto> ?e))"
    using inv by (simp add: store_inv_def inv_layout_other inv_pointer_other inv_sha_other)
  then have inv1: "store_inv jc sha256 (contents s1)"
    using inv write_cases [OF w1] by auto
  have inv2: "store_inv jc sha256 (contents s2)" if "r1 = Ok u" for u
  proof -
    have "contents s1 (fileKey h) \<noteq> None" using w1 that by (auto dest: write_ok)
    then have "store_inv jc sha256 ((contents s1)(shaKey (fr_SHA256 r) \<mapsto> ?p))"
      using inv1 inv_sha_write_sha [OF _ Ok]
      by (simp add: store_inv_def inv_layout_other inv_pointer_other)
    then show ?thesis using inv1 write_cases [OF w2] by auto
  qed
  show ?thesis
    using Ok w1 w2 inv inv1 inv2 by (cases r1) (auto simp: PutFile_def)
qed (use inv in \<open>auto simp: PutFile_def\<close>)

lemma write_pointers_inv:
  "store_inv jc sha256 (contents s) \<Longrightarrow> contents s (shardKey (hex_encode (sha256 b))) \<noteq> None \<Longrightarrow>
     store_inv jc sha256
       (contents (snd (write_pointers ob (shardKey (hex_encode (sha256 b))) cs s)))"
proof (induction cs arbitrary: s)
  case Nil
  then show ?case by simp
next
  case (Cons c cs)
  let ?key = "shardKey (hex_encode (sha256 b))"
  obtain r1 s1 where w1: "ob_write ob (chunkIndexKey c) (to_bytes ?key) s = (r1, s1)"
    by (cases "ob_write ob (chunkIndexKey c) (to_bytes ?key) s") auto
  have "store_inv jc sha256 ((contents s)(chunkIndexKey c \<mapsto> to_bytes ?key))"
    using Cons.prems inv_pointer_write_pointer [of sha256 "contents s" b c]
    by (simp add: store_inv_def inv_layout_other inv_sha_other)
  then have inv1: "store_inv jc sha256 (contents s1)"
    using Cons.prems(1) write_cases [OF w1] by auto
  moreover have "contents s1 ?key \<noteq> None"
    using write_cases [OF w1] Cons.prems(2) by (auto)
  ultimately show ?case
    using Cons.IH [of s1] w1 by (cases r1) (auto)
qed

lemma PutDedupShard_inv:
  assumes inv: "store_inv jc sha256 (contents s)"
  shows "store_inv jc sha256 (contents (snd (PutDedupShard sha256 ob shard cs s)))"
proof (cases "cs = []")
  case True
  with inv show ?thesis by (simp add: PutDedupShard_def)
next
  case False
  let ?key = "shardKey (hex_encode (sha256 shard))"
  obtain r1 s1 where w1: "ob_write ob ?key shard s = (r1, s1)"
    by (cases "ob_write ob ?key shard s") auto
  have "store_inv jc sha256 ((contents s)(?key \<mapsto> shard))"
    using inv inv_pointer_write_shard [of sha256 "contents s" shard]
    by (simp add: store_inv_def inv_layout_other inv_sha_other)
  then have inv1: "store_inv jc sha256 (contents s1)"
    using inv write_cases [OF w1] by auto
  have "store_inv jc sha256 (contents (snd (write_pointers ob ?key cs s1)))" if "r1 = Ok u" for u
    using inv1 w1 that
    by (intro write_pointers_inv) (auto dest: write_ok)
  with False w1 inv1 show ?thesis
    by (cases r1) (auto simp: PutDedupShard_def Let_def)
qed

end

section \<open>Sequences of operations\<close>

datatype store_op = OpXorb hash "byte list" | OpFile FileRecord | OpDedup "byte list" "hash list"

fun run_op :: "json_codec \<Rightarrow> (byte list \<Rightarrow> byte list) \<Rightarrow> 'o objects \<Rightarrow> store_op \<Rightarrow> 'o \<Rightarrow> 'o" where
  "run_op jc sha256 ob (OpXorb h d) s = snd (PutXorb jc ob h d s)"
| "run_op jc sha256 ob (OpFile r) s = snd (PutFile jc ob r s)"
| "run_op jc sha256 ob (OpDedup b cs) s = snd (PutDedupShard sha256 ob b cs s)"

definition run_ops ::
  "json_codec \<Rightarrow> (byte list \<Rightarrow> byte list) \<Rightarrow> 'o objects \<Rightarrow> store_op list \<Rightarrow> 'o \<Rightarrow> 'o" where
  "run_ops jc sha256 ob ops s = fold (run_op jc sha256 ob) ops s"

text \<open>Content addressing respected: no two uploads under one hash differ.\<close>

definition honest :: "store_op list \<Rightarrow> bool" where
  "honest ops \<longleftrightarrow>
     (\<forall>h d d'. OpXorb h d \<in> set ops \<longrightarrow> OpXorb h d' \<in> set ops \<longrightarrow> d = d')"

definition hashes_ok :: "store_op list \<Rightarrow> bool" where
  "hashes_ok ops \<longleftrightarrow> (\<forall>h d. OpXorb h d \<in> set ops \<longrightarrow> is_hash h)"

context object_store
begin

lemma PutXorb_xorb_key:
  "is_hash h \<Longrightarrow> is_hash h' \<Longrightarrow>
     contents (snd (PutXorb jc ob h d s)) (xorbKey h')
       \<in> {contents s (xorbKey h'), if h' = h then Some d else contents s (xorbKey h')}"
proof -
  assume h: "is_hash h" "is_hash h'"
  have "contents s1 (xorbKey h') = contents s (xorbKey h')"
    if "ob_write ob (chunksKey h) b s = (r, s1)" for r s1 b
    using write_other [OF that] by simp
  moreover have "contents s2 (xorbKey h') \<in> {contents s1 (xorbKey h'),
      if h' = h then Some d else contents s1 (xorbKey h')}"
    if "ob_write ob (xorbKey h) d s1 = (r, s2)" for r s1 s2
    using write_cases [OF that] h by (auto simp: key_inj)
  ultimately show ?thesis
    by (auto simp: PutXorb_def split: res.splits prod.splits) (metis insertE singletonD)+
qed

lemma PutFile_xorb_key: "contents (snd (PutFile jc ob r s)) (xorbKey h) = contents s (xorbKey h)"
  by (auto simp: PutFile_def split: res.splits prod.splits)
     (metis write_other keys_distinct prod.collapse)+

lemma write_pointers_xorb_key:
  "contents (snd (write_pointers ob key cs s)) (xorbKey h) = contents s (xorbKey h)"
proof (induction cs arbitrary: s)
  case (Cons c cs)
  obtain r s1 where w: "ob_write ob (chunkIndexKey c) (to_bytes key) s = (r, s1)"
    by (cases "ob_write ob (chunkIndexKey c) (to_bytes key) s") auto
  from write_other [OF w, of "xorbKey h"] Cons.IH [of s1] w show ?case
    by (cases r) auto
qed simp

lemma PutDedupShard_xorb_key:
  "contents (snd (PutDedupShard sha256 ob b cs s)) (xorbKey h) = contents s (xorbKey h)"
proof -
  obtain r s1 where w: "ob_write ob (shardKey (hex_encode (sha256 b))) b s = (r, s1)"
    by (cases "ob_write ob (shardKey (hex_encode (sha256 b))) b s") auto
  from write_other [OF w, of "xorbKey h"] w show ?thesis
    by (cases r) (auto simp: PutDedupShard_def write_pointers_xorb_key Let_def)
qed

text \<open>
  The invariant along a run: either uploads respect content addressing, or a
  predicate \<open>P\<close> of the states rules out failing existence checks.
\<close>

lemma run_ops_inv:
  assumes "store_inv jc sha256 (contents s)" and "hashes_ok ops"
    and mode: "honest (prior @ ops) \<and>
           (\<forall>h x. is_hash h \<longrightarrow> contents s (xorbKey h) = Some x \<longrightarrow> OpXorb h x \<in> set prior) \<or> P s"
    and step: "\<And>s op. P s \<Longrightarrow> P (run_op jc sha256 ob op s)"
    and has: "\<And>s k e. P s \<Longrightarrow> ob_has ob k s \<noteq> Err e"
  shows "store_inv jc sha256 (contents (run_ops jc sha256 ob ops s))"
  using assms(1,2) mode
proof (induction ops arbitrary: s prior)
  case Nil
  then show ?case by (simp add: run_ops_def)
next
  case (Cons op ops)
  let ?s = "run_op jc sha256 ob op s"
  have inv: "store_inv jc sha256 (contents ?s)"
  proof (cases op)
    case (OpXorb h d)
    have "(\<forall>e. ob_has ob (xorbKey h) s \<noteq> Err e) \<or> contents s (xorbKey h) \<in> {None, Some d}"
    proof (cases "P s")
      case True
      with has show ?thesis by blast
    next
      case False
      with Cons.prems(3) have hon: "honest (prior @ op # ops)"
        "\<forall>h x. is_hash h \<longrightarrow> contents s (xorbKey h) = Some x \<longrightarrow> OpXorb h x \<in> set prior"
        by auto
      have "is_hash h" using Cons.prems(2) OpXorb by (auto simp: hashes_ok_def)
      then have "OpXorb h x \<in> set prior" if "contents s (xorbKey h) = Some x" for x
        using hon(2) that by blast
      then have "x = d" if "contents s (xorbKey h) = Some x" for x
        using hon(1) OpXorb that unfolding honest_def by (metis in_set_conv_decomp set_append UnI1)
      then show ?thesis
        by (cases "contents s (xorbKey h)") simp_all
    qed
    moreover have "is_hash h" using Cons.prems(2) OpXorb by (auto simp: hashes_ok_def)
    ultimately show ?thesis
      unfolding OpXorb run_op.simps by (intro PutXorb_inv [OF Cons.prems(1)])
  qed (use Cons.prems(1) in \<open>auto intro: PutFile_inv PutDedupShard_inv\<close>)
  have mode: "honest ((prior @ [op]) @ ops) \<and>
      (\<forall>h x. is_hash h \<longrightarrow> contents ?s (xorbKey h) = Some x \<longrightarrow> OpXorb h x \<in> set (prior @ [op])) \<or> P ?s"
  proof (cases "P s")
    case True
    then show ?thesis using step by blast
  next
    case False
    with Cons.prems(3) have hon: "honest (prior @ op # ops)"
      "\<forall>h x. is_hash h \<longrightarrow> contents s (xorbKey h) = Some x \<longrightarrow> OpXorb h x \<in> set prior"
      by auto
    have "OpXorb h x \<in> set (prior @ [op])" if "is_hash h" "contents ?s (xorbKey h) = Some x" for h x
    proof (cases op)
      case (OpXorb h' d)
      have "is_hash h'" using Cons.prems(2) OpXorb by (auto simp: hashes_ok_def)
      from PutXorb_xorb_key [OF this that(1), of jc d s]
      have "contents s (xorbKey h) = Some x \<or> h = h' \<and> x = d"
        using that(2) OpXorb by (auto split: if_splits)
      with hon(2) that(1) OpXorb show ?thesis by auto
    qed (use that hon(2) in \<open>auto simp: PutFile_xorb_key PutDedupShard_xorb_key\<close>)
    with hon(1) show ?thesis by simp
  qed
  have "hashes_ok ops" using Cons.prems(2) by (auto simp: hashes_ok_def)
  from Cons.IH [OF inv this mode] show ?case by (simp add: run_ops_def)
qed

end

lemma disk_write_readable: "disk_write k b d = (r, d') \<Longrightarrow> dk_unreadable d' = dk_unreadable d"
  by (auto simp: disk_write_def Let_def disk_remove_def split: prod.splits if_splits)

lemma disk_write_pointers_readable:
  "dk_unreadable (snd (write_pointers diskObjects key cs d)) = dk_unreadable d"
proof (induction cs arbitrary: d)
  case (Cons c cs)
  obtain r d' where w: "disk_write (chunkIndexKey c) (to_bytes key) d = (r, d')"
    by (cases "disk_write (chunkIndexKey c) (to_bytes key) d") auto
  with Cons.IH [of d'] disk_write_readable [OF w] show ?case
    by (cases r) (auto simp: diskObjects_def)
qed simp

lemma disk_run_op_readable: "dk_unreadable (run_op jc sha256 diskObjects op d) = dk_unreadable d"
proof -
  have w: "dk_unreadable d' = dk_unreadable d" if "ob_write diskObjects k b d = (r, d')" for k b r d d'
    using disk_write_readable that by (simp add: diskObjects_def)
  show ?thesis
  proof (cases op)
    case (OpXorb h x)
    then show ?thesis
      by (auto simp: PutXorb_def split: res.splits prod.splits dest!: w)
  next
    case (OpFile r)
    then show ?thesis
      by (auto simp: PutFile_def split: res.splits prod.splits dest!: w)
         (metis w prod.collapse)+
  next
    case (OpDedup b cs)
    then show ?thesis
      by (auto simp: PutDedupShard_def Let_def disk_write_pointers_readable
          split: res.splits prod.splits dest!: w)
  qed
qed

section \<open>Concurrent uploads\<close>

text \<open>
  \<open>PutXorb\<close> takes no lock: the check and the two writes of concurrent uploads
  interleave. Each upload is a small state machine over the shared contents.
\<close>

datatype upload_pc = UpStart | UpChecked | UpLayoutWritten | UpDone

record uploader =
  up_hash :: hash
  up_data :: "byte list"
  up_pc :: upload_pc

inductive upload_step ::
  "json_codec \<Rightarrow> (string \<Rightarrow> byte list option) \<times> uploader list \<Rightarrow>
   (string \<Rightarrow> byte list option) \<times> uploader list \<Rightarrow> bool" for jc where
  present: "i < length us \<Longrightarrow> up_pc (us ! i) = UpStart \<Longrightarrow> c (xorbKey (up_hash (us ! i))) \<noteq> None \<Longrightarrow>
     upload_step jc (c, us) (c, us[i := (us ! i)\<lparr>up_pc := UpDone\<rparr>])"
| accept: "i < length us \<Longrightarrow> up_pc (us ! i) = UpStart \<Longrightarrow> c (xorbKey (up_hash (us ! i))) = None \<Longrightarrow>
     WalkChunks (up_data (us ! i)) = Ok cs \<Longrightarrow>
     upload_step jc (c, us) (c, us[i := (us ! i)\<lparr>up_pc := UpChecked\<rparr>])"
| reject: "i < length us \<Longrightarrow> up_pc (us ! i) = UpStart \<Longrightarrow> WalkChunks (up_data (us ! i)) = Err e \<Longrightarrow>
     upload_step jc (c, us) (c, us[i := (us ! i)\<lparr>up_pc := UpDone\<rparr>])"
| layout: "i < length us \<Longrightarrow> up_pc (us ! i) = UpChecked \<Longrightarrow> WalkChunks (up_data (us ! i)) = Ok cs \<Longrightarrow>
     upload_step jc (c, us)
       (c(chunksKey (up_hash (us ! i)) \<mapsto> enc_layout jc cs),
        us[i := (us ! i)\<lparr>up_pc := UpLayoutWritten\<rparr>])"
| xorb: "i < length us \<Longrightarrow> up_pc (us ! i) = UpLayoutWritten \<Longrightarrow>
     upload_step jc (c, us)
       (c(xorbKey (up_hash (us ! i)) \<mapsto> up_data (us ! i)), us[i := (us ! i)\<lparr>up_pc := UpDone\<rparr>])"
| crash: "i < length us \<Longrightarrow> upload_step jc (c, us) (c, us[i := (us ! i)\<lparr>up_pc := UpDone\<rparr>])"

inductive_cases upload_stepE: "upload_step jc (c, us) (c', us')"

text \<open>Uploads under one hash carry the same bytes, also the bytes already stored.\<close>

definition honest_pairs :: "(string \<Rightarrow> byte list option) \<Rightarrow> (hash \<times> byte list) list \<Rightarrow> bool" where
  "honest_pairs c ps \<longleftrightarrow>
     (\<forall>h d. (h, d) \<in> set ps \<longrightarrow> is_hash h \<and> c (xorbKey h) \<in> {None, Some d} \<and>
        (\<forall>d'. (h, d') \<in> set ps \<longrightarrow> d' = d))"

definition up_pair :: "uploader \<Rightarrow> hash \<times> byte list" where
  "up_pair u = (up_hash u, up_data u)"

definition honest_uploads :: "(string \<Rightarrow> byte list option) \<Rightarrow> uploader list \<Rightarrow> bool" where
  "honest_uploads c us \<longleftrightarrow> honest_pairs c (map up_pair us)"

definition upload_inv :: "json_codec \<Rightarrow> (string \<Rightarrow> byte list option) \<times> uploader list \<Rightarrow> bool" where
  "upload_inv jc = (\<lambda>(c, us).
     inv_layout jc c \<and> honest_uploads c us \<and>
     (\<forall>u \<in> set us. up_pc u = UpLayoutWritten \<longrightarrow>
        (\<exists>cs. WalkChunks (up_data u) = Ok cs \<and> c (chunksKey (up_hash u)) = Some (enc_layout jc cs))))"

lemma up_pair_pc [simp]: "up_pair (u\<lparr>up_pc := p\<rparr>) = up_pair u"
  by (simp add: up_pair_def)

lemma upload_pc_only [simp]:
  "i < length us \<Longrightarrow> honest_uploads c (us[i := (us ! i)\<lparr>up_pc := p\<rparr>]) = honest_uploads c us"
  using list_update_id [of "map up_pair us" i] by (simp add: honest_uploads_def map_update)

lemma set_update_cases: "u \<in> set (us[i := x]) \<Longrightarrow> u = x \<or> u \<in> set us"
  using set_update_subset_insert [of us i x] by blast

lemma honest_uploads_mem:
  assumes "honest_uploads c us" and "u \<in> set us"
  shows "is_hash (up_hash u)" and "c (xorbKey (up_hash u)) \<in> {None, Some (up_data u)}"
    and "v \<in> set us \<Longrightarrow> up_hash v = up_hash u \<Longrightarrow> up_data v = up_data u"
proof -
  have m: "(up_hash w, up_data w) \<in> set (map up_pair us)" if "w \<in> set us" for w
    using that by (force simp: up_pair_def)
  show "is_hash (up_hash u)" "c (xorbKey (up_hash u)) \<in> {None, Some (up_data u)}"
    using m [OF assms(2)] assms(1) unfolding honest_uploads_def honest_pairs_def by blast+
  show "v \<in> set us \<Longrightarrow> up_hash v = up_hash u \<Longrightarrow> up_data v = up_data u"
    using m [OF assms(2)] m [of v] assms(1) unfolding honest_uploads_def honest_pairs_def by metis
qed

lemma honest_pairsD:
  assumes "honest_pairs c ps" and "(h, d) \<in> set ps"
  shows "is_hash h" and "c (xorbKey h) \<in> {None, Some d}" and "(h, d') \<in> set ps \<Longrightarrow> d' = d"
  using assms unfolding honest_pairs_def by auto

lemma honest_pairs_write:
  assumes c: "honest_pairs c ps"
  shows "honest_pairs (c(chunksKey h \<mapsto> b)) ps"
    and "(h, d) \<in> set ps \<Longrightarrow> honest_pairs (c(xorbKey h \<mapsto> d)) ps"
proof -
  show "honest_pairs (c(chunksKey h \<mapsto> b)) ps"
    using c unfolding honest_pairs_def by simp
  assume hd: "(h, d) \<in> set ps"
  show "honest_pairs (c(xorbKey h \<mapsto> d)) ps"
    unfolding honest_pairs_def
  proof (intro allI impI conjI)
    fix h' d'
    assume p: "(h', d') \<in> set ps"
    show "is_hash h'" by (rule honest_pairsD(1) [OF c p])
    show "(c(xorbKey h \<mapsto> d)) (xorbKey h') \<in> {None, Some d'}"
      using honest_pairsD [OF c hd] honest_pairsD(1,2) [OF c p] p
      by (cases "h' = h") (auto simp: key_inj)
    show "d'' = d'" if "(h', d'') \<in> set ps" for d''
      by (rule honest_pairsD(3) [OF c p that])
  qed
qed

lemma honest_write:
  assumes "honest_uploads c us" and "u \<in> set us"
  shows "honest_uploads (c(chunksKey (up_hash u) \<mapsto> b)) us"
    and "honest_uploads (c(xorbKey (up_hash u) \<mapsto> up_data u)) us"
proof -
  have "(up_hash u, up_data u) \<in> set (map up_pair us)"
    using assms(2) by (force simp: up_pair_def)
  with assms(1) show "honest_uploads (c(chunksKey (up_hash u) \<mapsto> b)) us"
    "honest_uploads (c(xorbKey (up_hash u) \<mapsto> up_data u)) us"
    unfolding honest_uploads_def by (blast intro: honest_pairs_write)+
qed

lemma layout_mem:
  "upload_inv jc (c, us) \<Longrightarrow> u \<in> set us \<Longrightarrow> up_pc u = UpLayoutWritten \<Longrightarrow>
     \<exists>cs. WalkChunks (up_data u) = Ok cs \<and> c (chunksKey (up_hash u)) = Some (enc_layout jc cs)"
  by (simp add: upload_inv_def)

lemma upload_inv_pc:
  assumes "upload_inv jc (c, us)" and "i < length us" and "p \<noteq> UpLayoutWritten"
  shows "upload_inv jc (c, us[i := (us ! i)\<lparr>up_pc := p\<rparr>])"
proof -
  have "\<exists>cs. WalkChunks (up_data v) = Ok cs \<and> c (chunksKey (up_hash v)) = Some (enc_layout jc cs)"
    if "v \<in> set (us[i := (us ! i)\<lparr>up_pc := p\<rparr>])" "up_pc v = UpLayoutWritten" for v
    using set_update_cases [OF that(1)] that(2) assms(3) layout_mem [OF assms(1), of v] by auto
  with assms(1,2) show ?thesis by (simp add: upload_inv_def)
qed

lemma upload_step_inv:
  assumes "upload_step jc st st'" and "upload_inv jc st"
  shows "upload_inv jc st'"
  using assms
proof (induction rule: upload_step.induct)
  case (layout i us cs c)
  let ?u = "us ! i"
  let ?c = "c(chunksKey (up_hash ?u) \<mapsto> enc_layout jc cs)"
  let ?us = "us[i := ?u\<lparr>up_pc := UpLayoutWritten\<rparr>]"
  have u: "?u \<in> set us" using layout by simp
  have inv: "inv_layout jc c" "honest_uploads c us" using layout by (auto simp: upload_inv_def)
  note hu = honest_uploads_mem [OF inv(2) u]
  have "inv_layout jc ?c"
    by (rule inv_layout_write_layout [OF inv(1) hu(1) \<open>WalkChunks (up_data ?u) = Ok cs\<close> hu(2)])
  moreover have "honest_uploads ?c ?us"
    using layout(1) honest_write(1) [OF inv(2) u] by simp
  moreover have "\<exists>cs. WalkChunks (up_data v) = Ok cs \<and> ?c (chunksKey (up_hash v)) = Some (enc_layout jc cs)"
    if v: "v \<in> set ?us" "up_pc v = UpLayoutWritten" for v
  proof (cases "up_hash v = up_hash ?u")
    case True
    have "up_data v = up_data ?u"
      using set_update_cases [OF v(1)] True hu(3) by auto
    with True layout(3) show ?thesis by simp
  next
    case False
    then have m: "v \<in> set us" using set_update_cases [OF v(1)] by auto
    have "is_hash (up_hash v)" by (rule honest_uploads_mem(1) [OF inv(2) m])
    with False hu(1) layout_mem [OF layout(4) m v(2)] show ?thesis by (simp add: key_inj)
  qed
  ultimately show ?case by (simp add: upload_inv_def)
next
  case (xorb i us c)
  let ?u = "us ! i"
  let ?c = "c(xorbKey (up_hash ?u) \<mapsto> up_data ?u)"
  have u: "?u \<in> set us" using xorb by simp
  have inv: "inv_layout jc c" "honest_uploads c us" using xorb by (auto simp: upload_inv_def)
  note hu = honest_uploads_mem [OF inv(2) u]
  obtain cs where cs: "WalkChunks (up_data ?u) = Ok cs" "c (chunksKey (up_hash ?u)) = Some (enc_layout jc cs)"
    using layout_mem [OF xorb(3) u xorb(2)] by blast
  have "inv_layout jc ?c"
    by (rule inv_layout_write_xorb [OF inv(1) hu(1) cs])
  moreover have "honest_uploads ?c us" by (rule honest_write(2) [OF inv(2) u])
  ultimately have "upload_inv jc (?c, us)"
    using layout_mem [OF xorb(3)] by (simp add: upload_inv_def)
  then show ?case by (rule upload_inv_pc) (use xorb in simp_all)
qed (auto intro: upload_inv_pc)

lemma upload_reach_inv: "(upload_step jc)\<^sup>*\<^sup>* st st' \<Longrightarrow> upload_inv jc st \<Longrightarrow> upload_inv jc st'"
  by (induction rule: rtranclp_induct) (auto intro: upload_step_inv)

section \<open>A codec for the witnesses\<close>

text \<open>
  encoding/json is outside the repository; this small codec (unary numbers)
  only shows that the hypothesis \<open>codec_ok\<close> can hold.
\<close>

definition enc_nats :: "nat list \<Rightarrow> byte list" where
  "enc_nats ns = concat (map (\<lambda>n. replicate n 1 @ [0]) ns)"

fun dec_nats :: "nat \<Rightarrow> byte list \<Rightarrow> nat list" where
  "dec_nats k [] = []"
| "dec_nats k (b # bs) = (if b = 0 then k # dec_nats 0 bs else dec_nats (Suc k) bs)"

fun nats_layout :: "nat list \<Rightarrow> ChunkInfo list option" where
  "nats_layout [] = Some []"
| "nats_layout (a # b # c # d # ns) =
     map_option (\<lambda>l. \<lparr>ck_Start = a, ck_End = b, ck_UnpackedLen = c, ck_Scheme = d\<rparr> # l) (nats_layout ns)"
| "nats_layout _ = None"

definition layout_nats :: "ChunkInfo list \<Rightarrow> nat list" where
  "layout_nats l = concat (map (\<lambda>c. [ck_Start c, ck_End c, ck_UnpackedLen c, ck_Scheme c]) l)"

definition string_nats :: "string \<Rightarrow> nat list" where
  "string_nats s = length s # map of_char s"

definition take_string :: "nat list \<Rightarrow> string \<times> nat list" where
  "take_string ns = (case ns of [] \<Rightarrow> ([], []) | k # r \<Rightarrow> (map char_of (take k r), drop k r))"

definition int_nats :: "int \<Rightarrow> nat list" where
  "int_nats i = [nat i, nat (- i)]"

fun term_nats :: "TermRecord \<Rightarrow> nat list" where
  "term_nats t = string_nats (tr_Xorb t) @ int_nats (tr_ChunkStart t) @ int_nats (tr_ChunkEnd t)
                 @ int_nats (tr_UnpackedLen t)"

fun nats_terms :: "nat \<Rightarrow> nat list \<Rightarrow> TermRecord list option" where
  "nats_terms 0 ns = Some []"
| "nats_terms (Suc n) ns =
     (let (x, r) = take_string ns in
      case r of
        a # b # c # d # e # f # r' \<Rightarrow>
          map_option (\<lambda>ts. \<lparr>tr_Xorb = x, tr_ChunkStart = int a - int b, tr_ChunkEnd = int c - int d,
                           tr_UnpackedLen = int e - int f\<rparr> # ts) (nats_terms n r')
      | _ \<Rightarrow> None)"

definition record_nats :: "FileRecord \<Rightarrow> nat list" where
  "record_nats r = string_nats (fr_FileHash r) @ string_nats (fr_SHA256 r) @ int_nats (fr_TotalLen r)
                   @ length (fr_Terms r) # concat (map term_nats (fr_Terms r))"

definition nats_record :: "nat list \<Rightarrow> FileRecord option" where
  "nats_record ns =
     (let (h, r) = take_string ns; (sha, r') = take_string r in
      case r' of
        a # b # n # q \<Rightarrow>
          map_option (\<lambda>ts. \<lparr>fr_FileHash = h, fr_SHA256 = sha, fr_TotalLen = int a - int b,
                           fr_Terms = ts\<rparr>) (nats_terms n q)
      | _ \<Rightarrow> None)"

definition unary_codec :: json_codec where
  "unary_codec = \<lparr>enc_layout = enc_nats \<circ> layout_nats, dec_layout = nats_layout \<circ> dec_nats 0,
                  enc_record = enc_nats \<circ> record_nats, dec_record = nats_record \<circ> dec_nats 0\<rparr>"

lemma dec_nats_run: "dec_nats k (replicate n 1 @ 0 # bs) = (k + n) # dec_nats 0 bs"
  by (induction n arbitrary: k) auto

lemma dec_enc_nats: "dec_nats 0 (enc_nats ns) = ns"
  by (induction ns) (auto simp: enc_nats_def dec_nats_run)

lemma take_string_nats: "take_string (string_nats s @ r) = (s, r)"
  by (simp add: take_string_def string_nats_def map_idI)

lemma nats_layout_nats: "nats_layout (layout_nats l) = Some l"
  by (induction l) (auto simp: layout_nats_def)

lemma nats_terms_nats: "nats_terms (length ts) (concat (map term_nats ts)) = Some ts"
  by (induction ts) (auto simp: take_string_nats int_nats_def Let_def)

lemma codec_ok_unary: "codec_ok unary_codec"
  by (auto simp: codec_ok_def unary_codec_def dec_enc_nats nats_layout_nats nats_record_def
      record_nats_def take_string_nats int_nats_def nats_terms_nats)

section \<open>Reading what was written\<close>

context object_store
begin

lemma PutXorb_stored:
  "PutXorb jc ob h d s = (Ok True, s') \<Longrightarrow>
     \<exists>cs. WalkChunks d = Ok cs \<and> contents s' (xorbKey h) = Some d \<and>
          contents s' (chunksKey h) = Some (enc_layout jc cs)"
  by (auto simp: PutXorb_def split: if_splits res.splits prod.splits dest!: write_ok)

lemma PutFile_stored:
  assumes "PutFile jc ob r s = (Ok u, s')"
  shows "\<exists>h. ParseHex (fr_FileHash r) = Ok h \<and> contents s' (fileKey h) = Some (enc_record jc r) \<and>
             (fr_SHA256 r \<noteq> [] \<longrightarrow> sha256HexPattern (fr_SHA256 r) \<and>
                contents s' (shaKey (fr_SHA256 r)) = Some (to_bytes (fr_FileHash r)))"
  using assms by (auto simp: PutFile_def split: if_splits res.splits prod.splits dest!: write_ok)

lemma write_pointers_stored:
  "write_pointers ob key cs s = (Ok u, s') \<Longrightarrow>
     (\<forall>c \<in> set cs. contents s' (chunkIndexKey c) = Some (to_bytes key)) \<and>
     (\<forall>k. (\<forall>c. k \<noteq> chunkIndexKey c) \<longrightarrow> contents s' k = contents s k) \<and>
     (\<forall>c. contents s (chunkIndexKey c) = Some (to_bytes key) \<longrightarrow>
          contents s' (chunkIndexKey c) = Some (to_bytes key))"
proof (induction cs arbitrary: s)
  case Nil
  then show ?case by simp
next
  case (Cons c cs)
  then obtain s1 where w: "ob_write ob (chunkIndexKey c) (to_bytes key) s = (Ok (), s1)"
    and r: "write_pointers ob key cs s1 = (Ok u, s')"
    by (auto split: prod.splits res.splits)
  note c1 = write_ok [OF w]
  from Cons.IH [OF r] c1 show ?case by (auto split: if_splits)
qed

lemma PutDedupShard_stored:
  assumes "PutDedupShard sha256 ob b cs s = (Ok u, s')" and "c \<in> set cs"
  shows "contents s' (shardKey (hex_encode (sha256 b))) = Some b \<and>
         contents s' (chunkIndexKey c) = Some (to_bytes (shardKey (hex_encode (sha256 b))))"
proof -
  let ?key = "shardKey (hex_encode (sha256 b))"
  obtain s1 where w: "ob_write ob ?key b s = (Ok (), s1)" and p: "write_pointers ob ?key cs s1 = (Ok u, s')"
    using assms by (auto simp: PutDedupShard_def Let_def split: if_splits prod.splits res.splits)
  show ?thesis
    using write_pointers_stored [OF p] write_ok [OF w] assms(2) by auto
qed

end

lemma disk_read_contents:
  "\<not> dk_unreadable d k \<Longrightarrow> ob_read diskObjects k d
     = (case disk_contents d k of None \<Rightarrow> Err ErrNotFound | Some b \<Rightarrow> Ok b)"
  by (simp add: diskObjects_def disk_read_def disk_contents_def)

section \<open>Properties\<close>



text \<open>
  What the store accepts it gives back: after a successful \<open>PutXorb\<close> the
  bytes and their layout read back, after a successful \<open>PutFile\<close> the record
  reads back and its SHA-256 (in either case) resolves to its file hash, and
  after a successful \<open>PutDedupShard\<close> every listed chunk answers with exactly
  the shard's bytes.
\<close>

theorem store_reads_back:
  assumes "codec_ok jc" and "dk_unreadable d = (\<lambda>_. False)" and "\<forall>b. length (sha256 b) = 32"
  shows "(PutXorb jc diskObjects h x d = (Ok True, d1) \<longrightarrow>
            ReadXorb diskObjects h d1 = Ok x \<and>
            (\<exists>cs. WalkChunks x = Ok cs \<and> XorbChunks jc diskObjects h d1 = Ok cs)) \<and>
         (PutFile jc diskObjects r d = (Ok (), d2) \<longrightarrow>
            (\<exists>fh. ParseHex (fr_FileHash r) = Ok fh \<and> Store_File jc diskObjects fh d2 = Ok r) \<and>
            (fr_SHA256 r \<noteq> [] \<longrightarrow> to_lower sha = to_lower (fr_SHA256 r) \<longrightarrow> sha256HexPattern sha \<longrightarrow>
               FileHashBySHA256 diskObjects sha d2 = Some (trim_space (fr_FileHash r)))) \<and>
         (PutDedupShard sha256 diskObjects b cs d = (Ok (), d3) \<longrightarrow>
            (\<forall>c \<in> set cs. DedupShard diskObjects c d3 = Ok b))"
proof (intro conjI impI)
  have u: "dk_unreadable (run_op jc sha256 diskObjects op d) = (\<lambda>_. False)" for op
    using assms(2) by (simp add: disk_run_op_readable)
  {
    assume p: "PutXorb jc diskObjects h x d = (Ok True, d1)"
    then have "dk_unreadable d1 = (\<lambda>_. False)" using u [of "OpXorb h x"] by simp
    then show "ReadXorb diskObjects h d1 = Ok x"
      "\<exists>cs. WalkChunks x = Ok cs \<and> XorbChunks jc diskObjects h d1 = Ok cs"
      using disk.PutXorb_stored [OF p] assms(1)
      by (auto simp: ReadXorb_def XorbChunks_def disk_read_contents codec_ok_def)
  next
    assume p: "PutFile jc diskObjects r d = (Ok (), d2)"
    then have rd: "dk_unreadable d2 = (\<lambda>_. False)" using u [of "OpFile r"] by simp
    then show "\<exists>fh. ParseHex (fr_FileHash r) = Ok fh \<and> Store_File jc diskObjects fh d2 = Ok r"
      using disk.PutFile_stored [OF p] assms(1)
      by (auto simp: Store_File_def disk_read_contents codec_ok_def)
    assume "fr_SHA256 r \<noteq> []" "to_lower sha = to_lower (fr_SHA256 r)" "sha256HexPattern sha"
    then show "FileHashBySHA256 diskObjects sha d2 = Some (trim_space (fr_FileHash r))"
      using disk.PutFile_stored [OF p] rd
      by (auto simp: FileHashBySHA256_def disk_read_contents shaKey_def)
  next
    assume p: "PutDedupShard sha256 diskObjects b cs d = (Ok (), d3)"
    then have rd: "dk_unreadable d3 = (\<lambda>_. False)" using u [of "OpDedup b cs"] by simp
    show "\<forall>c \<in> set cs. DedupShard diskObjects c d3 = Ok b"
      using disk.PutDedupShard_stored [OF p] rd assms(3)
      by (auto simp: DedupShard_def disk_read_contents shard_key_pattern)
  }
qed

theorem store_reads_back_witness:
  "\<exists>d1. PutXorb unary_codec diskObjects zero_hash (ser_chunk (0, 1, [7]))
           \<lparr>dk_files = \<lambda>_. None, dk_next = 0, dk_faults = [], dk_unreadable = \<lambda>_. False\<rparr> = (Ok True, d1) \<and>
         ReadXorb diskObjects zero_hash d1 = Ok (ser_chunk (0, 1, [7]))"
proof -
  let ?d = "\<lparr>dk_files = \<lambda>_. None, dk_next = 0, dk_faults = [], dk_unreadable = \<lambda>_. False\<rparr>"
  let ?p = "PutXorb unary_codec diskObjects zero_hash (ser_chunk (0, 1, [7])) ?d"
  have "WalkChunks (ser_chunk (0, 1, [7]))
      = Ok [\<lparr>ck_Start = 0, ck_End = 9, ck_UnpackedLen = 1, ck_Scheme = 0\<rparr>]"
    using WalkChunks_ser [of "[(0, 1, [7])]" "[]"] by (simp add: chunk_ok_def maxChunkSize_def)
  then have "fst ?p = Ok True"
    by (simp add: PutXorb_def HasXorb_def diskObjects_def disk_has_def disk_write_def disk_fault_def disk_remove_def Let_def)
  then obtain d1 where d1: "?p = (Ok True, d1)" by (cases ?p) auto
  with store_reads_back [OF codec_ok_unary, of ?d "\<lambda>_. replicate 32 0" zero_hash "ser_chunk (0, 1, [7])" d1]
  show ?thesis by auto
qed

lemma WalkChunks_demo:
  "WalkChunks (ser_chunk (0, 0, [])) = Ok [\<lparr>ck_Start = 0, ck_End = 8, ck_UnpackedLen = 0, ck_Scheme = 0\<rparr>]"
  "WalkChunks (ser_chunk (0, 1, [7])) = Ok [\<lparr>ck_Start = 0, ck_End = 9, ck_UnpackedLen = 1, ck_Scheme = 0\<rparr>]"
  using WalkChunks_ser [of "[(0, 0, [])]" "[]"] WalkChunks_ser [of "[(0, 1, [7])]" "[]"]
  by (simp_all add: chunk_ok_def maxChunkSize_def)

text \<open>
  C30. Concurrent uploads keep the layout invariant under every interleaving
  and every crash, as long as uploads under one hash carry the same bytes.
\<close>

theorem concurrent_uploads_invariant:
  assumes "(upload_step jc)\<^sup>*\<^sup>* (c, us) (c', us')"
    and "inv_layout jc c" and "honest_uploads c us" and "\<forall>u \<in> set us. up_pc u = UpStart"
  shows "inv_layout jc c'"
proof -
  have "upload_inv jc (c, us)" using assms(2-4) by (auto simp: upload_inv_def)
  from upload_reach_inv [OF assms(1) this] show ?thesis by (simp add: upload_inv_def)
qed

theorem concurrent_uploads_invariant_witness:
  "inv_layout unary_codec
     (((\<lambda>_. None)(chunksKey zero_hash \<mapsto> enc_layout unary_codec
          [\<lparr>ck_Start = 0, ck_End = 9, ck_UnpackedLen = 1, ck_Scheme = 0\<rparr>]))
        (xorbKey zero_hash \<mapsto> ser_chunk (0, 1, [7])))"
proof -
  let ?u = "\<lambda>p. \<lparr>up_hash = zero_hash, up_data = ser_chunk (0, 1, [7]), up_pc = p\<rparr>"
  let ?c0 = "\<lambda>_. None :: byte list option"
  let ?c1 = "?c0(chunksKey zero_hash \<mapsto> enc_layout unary_codec
      [\<lparr>ck_Start = 0, ck_End = 9, ck_UnpackedLen = 1, ck_Scheme = 0\<rparr>])"
  have "upload_step unary_codec (?c0, [?u UpStart]) (?c0, [?u UpChecked])"
    using upload_step.accept [of 0 "[?u UpStart]" ?c0] WalkChunks_demo by simp
  moreover have "upload_step unary_codec (?c0, [?u UpChecked]) (?c1, [?u UpLayoutWritten])"
    using upload_step.layout [of 0 "[?u UpChecked]" _ unary_codec ?c0] WalkChunks_demo by simp
  moreover have "upload_step unary_codec (?c1, [?u UpLayoutWritten])
      (?c1(xorbKey zero_hash \<mapsto> ser_chunk (0, 1, [7])), [?u UpDone])"
    using upload_step.xorb [of 0 "[?u UpLayoutWritten]" unary_codec ?c1] by simp
  ultimately have "(upload_step unary_codec)\<^sup>*\<^sup>* (?c0, [?u UpStart])
      (?c1(xorbKey zero_hash \<mapsto> ser_chunk (0, 1, [7])), [?u UpDone])"
    by (meson converse_rtranclp_into_rtranclp rtranclp.rtrancl_refl)
  from concurrent_uploads_invariant [OF this] show ?thesis
    by (simp add: inv_layout_def honest_uploads_def honest_pairs_def up_pair_def is_hash_def zero_hash_def)
qed


end
