(* ===== verification/Go_Base64.thy ===== *)
theory Go_Base64
  imports Go_Text
begin

text \<open>
  encoding/base64 as the program uses it: the raw URL alphabet (tokens, tree
  cursors) and the padded standard alphabet (inline commit files, preupload
  samples). Decoding skips carriage returns and newlines and does not insist
  that the unused trailing bits are zero, as Go's non-strict decoder.
\<close>

section \<open>Alphabets\<close>

datatype b64_alphabet = StdAlphabet | URLAlphabet

definition b64_char :: "b64_alphabet \<Rightarrow> nat \<Rightarrow> char" where
  "b64_char al n =
     (if n < 26 then char_of (65 + n)
      else if n < 52 then char_of (71 + n)
      else if n < 62 then char_of (n - 4)
      else if n = 62 then (if al = URLAlphabet then CHR ''-'' else CHR ''+'')
      else (if al = URLAlphabet then CHR ''_'' else CHR ''/''))"

definition b64_val :: "b64_alphabet \<Rightarrow> char \<Rightarrow> nat option" where
  "b64_val al c =
     (let n = of_char c :: nat in
      if 65 \<le> n \<and> n \<le> 90 then Some (n - 65)
      else if 97 \<le> n \<and> n \<le> 122 then Some (n - 71)
      else if 48 \<le> n \<and> n \<le> 57 then Some (n + 4)
      else if c = (if al = URLAlphabet then CHR ''-'' else CHR ''+'') then Some 62
      else if c = (if al = URLAlphabet then CHR ''_'' else CHR ''/'') then Some 63
      else None)"

section \<open>Encoding and decoding\<close>

fun b64_encode :: "b64_alphabet \<Rightarrow> bool \<Rightarrow> byte list \<Rightarrow> string" where
  "b64_encode al pad [] = []"
| "b64_encode al pad [x] =
     (let n = unat x * 16 in
      [b64_char al (n div 64), b64_char al (n mod 64)] @ (if pad then ''=='' else []))"
| "b64_encode al pad [x, y] =
     (let n = (unat x * 256 + unat y) * 4 in
      [b64_char al (n div 4096), b64_char al (n div 64 mod 64), b64_char al (n mod 64)]
      @ (if pad then ''='' else []))"
| "b64_encode al pad (x # y # z # r) =
     (let n = unat x * 65536 + unat y * 256 + unat z in
      [b64_char al (n div 262144), b64_char al (n div 4096 mod 64), b64_char al (n div 64 mod 64),
       b64_char al (n mod 64)] @ b64_encode al pad r)"

definition nat_byte :: "nat \<Rightarrow> byte" where
  "nat_byte n = word_of_nat (n mod 256)"

fun b64_quads :: "nat list \<Rightarrow> byte list option" where
  "b64_quads [] = Some []"
| "b64_quads [a] = None"
| "b64_quads [a, b] = Some [nat_byte ((a * 64 + b) div 16)]"
| "b64_quads [a, b, c] =
     (let n = (a * 64 + b) * 64 + c in Some [nat_byte (n div 1024), nat_byte (n div 4)])"
| "b64_quads (a # b # c # d # r) =
     (let n = ((a * 64 + b) * 64 + c) * 64 + d in
      map_option (\<lambda>bs. nat_byte (n div 65536) # nat_byte (n div 256) # nat_byte n # bs) (b64_quads r))"

fun b64_vals :: "b64_alphabet \<Rightarrow> string \<Rightarrow> nat list option" where
  "b64_vals al [] = Some []"
| "b64_vals al (c # cs) =
     (case b64_val al c of
        None \<Rightarrow> None
      | Some v \<Rightarrow> map_option (\<lambda>vs. v # vs) (b64_vals al cs))"

text \<open>With padding, the text is whole quads and at most two \<open>=\<close> end it.\<close>

definition b64_unpad :: "string \<Rightarrow> string option" where
  "b64_unpad s =
     (if length s mod 4 \<noteq> 0 then None
      else if has_suffix ''=='' s then Some (take (length s - 2) s)
      else if has_suffix ''='' s then Some (take (length s - 1) s)
      else Some s)"

definition b64_decode :: "b64_alphabet \<Rightarrow> bool \<Rightarrow> string \<Rightarrow> byte list option" where
  "b64_decode al pad s =
     (let t = filter (\<lambda>c. c \<noteq> CHR 0x0A \<and> c \<noteq> CHR 0x0D) s in
      case (if pad then b64_unpad t else Some t) of
        None \<Rightarrow> None
      | Some u \<Rightarrow> Option.bind (b64_vals al u) b64_quads)"

section \<open>Round trip\<close>

lemma b64_val_char [simp]: "n < 64 \<Longrightarrow> b64_val al (b64_char al n) = Some n"
  by (cases al) (auto simp: b64_val_def b64_char_def Let_def of_char_of)

lemma b64_char_class: "n < 64 \<Longrightarrow>
    b64_char al n \<noteq> CHR 0x0A \<and> b64_char al n \<noteq> CHR 0x0D \<and> b64_char al n \<noteq> CHR ''='' \<and>
    b64_char al n \<noteq> CHR ''.''"
proof -
  assume n: "n < 64"
  have "b64_val al CHR 0x0A = None" "b64_val al CHR 0x0D = None" "b64_val al CHR ''='' = None"
    "b64_val al CHR ''.'' = None"
    by (auto simp: b64_val_def Let_def)
  with b64_val_char [OF n, of al] show ?thesis by auto
qed

lemma nat_byte_unat [simp]: "nat_byte (unat x) = x"
  by (simp add: nat_byte_def)

lemma nat_byte_eqI: "n mod 256 = unat x \<Longrightarrow> nat_byte n = x"
  by (simp add: nat_byte_def)

lemma b64_split3: "n div 262144 * 262144 + n div 4096 mod 64 * 4096 + n div 64 mod 64 * 64 + n mod 64 = (n::nat)"
proof -
  have "n mod 64 + 64 * (n div 64) = n" by simp
  moreover have "n div 64 mod 64 + 64 * (n div 4096) = n div 64"
    using mod_mult_div_eq [of "n div 64" 64] by (simp add: div_mult2_eq flip: div_mult2_eq)
  moreover have "n div 4096 mod 64 + 64 * (n div 262144) = n div 4096"
    using mod_mult_div_eq [of "n div 4096" 64] by (simp flip: div_mult2_eq)
  ultimately show ?thesis by linarith
qed

lemma b64_split2: "(n div 4096 * 64 + n div 64 mod 64) * 64 + n mod 64 = (n::nat)"
proof -
  have "n div 64 mod 64 + 64 * (n div 4096) = n div 64"
    using mod_mult_div_eq [of "n div 64" 64] by (simp flip: div_mult2_eq)
  then have "n div 4096 * 64 + n div 64 mod 64 = n div 64" by simp
  then show ?thesis by simp
qed

lemma three_bytes:
  "(c::nat) < 256 \<Longrightarrow> (a * 65536 + b * 256 + c) div 256 = a * 256 + b"
  "(c::nat) < 256 \<Longrightarrow> (a * 65536 + b * 256 + c) mod 256 = c"
proof -
  assume c: "c < 256"
  have e: "a * 65536 + b * 256 + c = c + (a * 256 + b) * 256" by simp
  show "(a * 65536 + b * 256 + c) div 256 = a * 256 + b"
    unfolding e using c by (subst div_mult_self1) auto
  show "(a * 65536 + b * 256 + c) mod 256 = c"
    unfolding e using c by (subst mod_mult_self1) auto
qed

lemma byte_lt: "unat (x :: byte) \<le> 255"
  using unat_byte_less [of x] by linarith

text \<open>The digit values of an encoding, without the padding.\<close>

fun b64_digits :: "byte list \<Rightarrow> nat list" where
  "b64_digits [] = []"
| "b64_digits [x] = (let n = unat x * 16 in [n div 64, n mod 64])"
| "b64_digits [x, y] =
     (let n = (unat x * 256 + unat y) * 4 in [n div 4096, n div 64 mod 64, n mod 64])"
| "b64_digits (x # y # z # r) =
     (let n = unat x * 65536 + unat y * 256 + unat z in
      [n div 262144, n div 4096 mod 64, n div 64 mod 64, n mod 64] @ b64_digits r)"

definition b64_padding :: "byte list \<Rightarrow> string" where
  "b64_padding bs = (if length bs mod 3 = 1 then ''=='' else if length bs mod 3 = 2 then ''='' else [])"

lemma b64_encode_digits:
  "b64_encode al pad bs = map (b64_char al) (b64_digits bs) @ (if pad then b64_padding bs else [])"
  by (induction al pad bs rule: b64_encode.induct) (auto simp: Let_def b64_padding_def)

lemma b64_digits_bound: "\<forall>d \<in> set (b64_digits bs). d < 64"
proof (induction bs rule: b64_digits.induct)
  case (2 x)
  then show ?case using byte_lt [of x] by (auto simp: Let_def)
next
  case (3 x y)
  then show ?case using byte_lt [of x] byte_lt [of y] by (auto simp: Let_def)
next
  case (4 x y z r)
  then show ?case using byte_lt [of x] byte_lt [of y] byte_lt [of z] by (auto simp: Let_def)
qed simp

lemma b64_quads_digits: "b64_quads (b64_digits bs) = Some bs"
proof (induction bs rule: b64_digits.induct)
  case (2 x)
  have "unat x * 16 div 64 * 64 + unat x * 16 mod 64 = unat x * 16"
    using div_mult_mod_eq [of "unat x * 16" 64] by simp
  then show ?case by (simp add: Let_def)
next
  case (3 x y)
  let ?n = "(unat x * 256 + unat y) * 4"
  have "(?n div 4096 * 64 + ?n div 64 mod 64) * 64 + ?n mod 64 = ?n"
    by (rule b64_split2)
  moreover have "nat_byte (?n div 1024) = x"
    using byte_lt [of y] by (intro nat_byte_eqI) simp
  moreover have "nat_byte (?n div 4) = y"
    using byte_lt [of y] by (intro nat_byte_eqI) simp
  ultimately show ?case by (simp add: Let_def)
next
  case (4 x y z r)
  let ?n = "unat x * 65536 + unat y * 256 + unat z"
  have "((?n div 262144 * 64 + ?n div 4096 mod 64) * 64 + ?n div 64 mod 64) * 64 + ?n mod 64 = ?n"
    using b64_split3 [of ?n] by (simp add: algebra_simps)
  moreover have "nat_byte (?n div 65536) = x"
    using byte_lt [of x] byte_lt [of y] byte_lt [of z] by (intro nat_byte_eqI) simp
  moreover have "nat_byte (?n div 256) = y" "nat_byte ?n = z"
    by (intro nat_byte_eqI; simp only: three_bytes unat_byte_less; simp)+
  ultimately show ?case using 4 by (simp add: Let_def)
qed simp

lemma b64_vals_map: "\<forall>d \<in> set ds. d < 64 \<Longrightarrow> b64_vals al (map (b64_char al) ds) = Some ds"
  by (induction ds) auto

lemma length_b64_digits: "(length (b64_digits bs) + length (b64_padding bs)) mod 4 = 0"
  by (induction bs rule: b64_digits.induct) (auto simp: Let_def b64_padding_def split: if_splits)

lemma has_suffix_eq_digits:
  assumes "\<forall>c \<in> set s. c \<noteq> CHR ''=''"
  shows "\<not> has_suffix ''='' s" "\<not> has_suffix ''=='' s" "\<not> has_suffix ''=='' (s @ ''='')"
proof -
  have "CHR ''='' \<notin> set s" using assms by blast
  then show "\<not> has_suffix ''='' s" "\<not> has_suffix ''=='' s"
    unfolding has_suffix_iff by fastforce+
  show "\<not> has_suffix ''=='' (s @ ''='')"
  proof
    assume "has_suffix ''=='' (s @ ''='')"
    then obtain t where "s @ ''='' = t @ ''==''" unfolding has_suffix_iff by blast
    then have "butlast (s @ ''='') = butlast (t @ ''=='')" by (rule arg_cong)
    then have "s = t @ ''=''" by (simp add: butlast_append)
    with \<open>CHR ''='' \<notin> set s\<close> show False by simp
  qed
qed

lemma b64_unpad_padding:
  assumes "\<forall>c \<in> set s. c \<noteq> CHR ''=''" and "(length s + length (b64_padding bs)) mod 4 = 0"
  shows "b64_unpad (s @ b64_padding bs) = Some s"
proof -
  note no = has_suffix_eq_digits [OF assms(1)]
  consider "length bs mod 3 = 0" | "length bs mod 3 = 1" | "length bs mod 3 = 2" by linarith
  then show ?thesis
  proof cases
    case 1
    then have "b64_padding bs = []" by (simp add: b64_padding_def)
    with assms(2) no show ?thesis by (simp add: b64_unpad_def)
  next
    case 2
    then have p: "b64_padding bs = ''==''" by (simp add: b64_padding_def)
    have "has_suffix ''=='' (s @ ''=='')" by (rule has_suffix_append)
    with assms(2) show ?thesis unfolding p b64_unpad_def by simp
  next
    case 3
    then have p: "b64_padding bs = ''=''" by (simp add: b64_padding_def)
    have "has_suffix ''='' (s @ ''='')" by (rule has_suffix_append)
    with assms(2) no(3) show ?thesis unfolding p b64_unpad_def by simp
  qed
qed

lemma b64_encode_chars:
  "c \<in> set (b64_encode al pad bs) \<Longrightarrow> c \<noteq> CHR 0x0A \<and> c \<noteq> CHR 0x0D \<and> c \<noteq> CHR ''.''"
  using b64_digits_bound [of bs] b64_char_class
  by (auto simp: b64_encode_digits b64_padding_def split: if_splits)

lemma b64_decode_encode [simp]: "b64_decode al pad (b64_encode al pad bs) = Some bs"
proof -
  have "filter (\<lambda>c. c \<noteq> CHR 0x0A \<and> c \<noteq> CHR 0x0D) (b64_encode al pad bs) = b64_encode al pad bs"
    using b64_encode_chars by (intro filter_True) blast
  moreover have "\<forall>c \<in> set (map (b64_char al) (b64_digits bs)). c \<noteq> CHR ''=''"
    using b64_digits_bound [of bs] b64_char_class by auto
  then have "b64_unpad (map (b64_char al) (b64_digits bs) @ b64_padding bs)
      = Some (map (b64_char al) (b64_digits bs))"
    using length_b64_digits [of bs] by (intro b64_unpad_padding) auto
  ultimately show ?thesis
    using b64_vals_map [OF b64_digits_bound] b64_quads_digits
    by (simp add: b64_decode_def b64_encode_digits)
qed

end
