(* ===== verification/Xet_Service.thy ===== *)
theory Xet_Service
  imports Xet_Store Backend Go_Base64
begin

text \<open>
  internal/xet/service.go: tokens and signed URLs, xorb and shard ingest with
  materialization into the routed backend, the reconstruction plan and the
  dedup query. The keyed hash, the JSON codecs, the LZ4 reader and the relay's
  two operations (\<open>Materializer\<close>) are parameters; requests carry the parts of
  \<open>http.Request\<close> the handlers read. Handlers return the response and the new
  state: the store, the backend, the audit trail and the dedup counters.
\<close>

section \<open>Parameters and state\<close>

record tokenClaims =
  tc_Scope :: string
  tc_Kind :: repo_kind
  tc_Repo :: string
  tc_User :: string
  tc_Exp :: int

datatype mat_error = MatStore store_error | MatDecode chunk_error | MatHash hash_error
| MatBackend backend_error

text \<open>
  The environment: \<open>mac\<close> is HMAC-SHA256 under the process secret, \<open>put_blob\<close>
  receives the pipe as the bytes written to it and the error it was closed with.
\<close>

record ('o, 's) xet_env =
  xe_json :: json_codec
  xe_claims_enc :: "tokenClaims \<Rightarrow> byte list"
  xe_claims_dec :: "byte list \<Rightarrow> tokenClaims option"
  xe_mac :: "string \<Rightarrow> byte list"
  xe_sha256 :: "byte list \<Rightarrow> byte list"
  xe_inflate :: inflater
  xe_objects :: "'o objects"
  xe_has_blob :: "repo_kind \<Rightarrow> repo_id \<Rightarrow> string \<Rightarrow> 's \<Rightarrow> bool"
  xe_put_blob :: "repo_kind \<Rightarrow> repo_id \<Rightarrow> string \<Rightarrow> int \<Rightarrow> byte list \<times> mat_error option \<Rightarrow> 's \<Rightarrow>
                   (mat_error, unit) res \<times> 's"

record audit_event =
  ae_Action :: string
  ae_Actor :: string
  ae_Repo :: string
  ae_Digest :: string

record ('o, 's) xet_state =
  xs_store :: 'o
  xs_backend :: 's
  xs_audit :: "audit_event list"
  xs_dedup :: "string list"

record cas_request =
  cq_Authorization :: string
  cq_Prefix :: string
  cq_Hash :: string
  cq_Range :: string
  cq_Body :: "byte list"
  cq_TLS :: bool
  cq_ForwardedProto :: string
  cq_Host :: string

definition maxXorbSize :: nat where "maxXorbSize = 96 * 2 ^ 20"
definition maxShardSize :: nat where "maxShardSize = 64 * 2 ^ 20"
definition tokenTTL :: int where "tokenTTL = 3600"
definition dataURLTTL :: int where "dataURLTTL = 900"

definition requestBaseURL :: "cas_request \<Rightarrow> string" where
  "requestBaseURL r =
     (if cq_ForwardedProto r \<noteq> [] then cq_ForwardedProto r
      else if cq_TLS r then ''https'' else ''http'') @ ''://'' @ cq_Host r"

section \<open>Tokens\<close>

definition xet_sign :: "('o, 's) xet_env \<Rightarrow> string \<Rightarrow> string" where
  "xet_sign e payload = hex_encode (xe_mac e payload)"

definition token_body :: "('o, 's) xet_env \<Rightarrow> tokenClaims \<Rightarrow> string" where
  "token_body e c = b64_encode URLAlphabet False (xe_claims_enc e c)"

definition MintToken ::
  "('o, 's) xet_env \<Rightarrow> int \<Rightarrow> string \<Rightarrow> repo_kind \<Rightarrow> repo_id \<Rightarrow> string \<Rightarrow> string \<times> int" where
  "MintToken e now scope kind repo user =
     (let claims = \<lparr>tc_Scope = scope, tc_Kind = kind, tc_Repo = repo_string repo, tc_User = user,
                    tc_Exp = now + tokenTTL\<rparr>;
          body = token_body e claims
      in (''sxet1.'' @ body @ ''.'' @ xet_sign e body, tc_Exp claims))"

definition verifyBearer :: "('o, 's) xet_env \<Rightarrow> int \<Rightarrow> string \<Rightarrow> string \<Rightarrow> tokenClaims option" where
  "verifyBearer e now auth needScope =
     (case cut_prefix ''Bearer '' auth of
        None \<Rightarrow> None
      | Some token \<Rightarrow>
          (case split_on CHR ''.'' token of
             [p0, p1, p2] \<Rightarrow>
               if p0 \<noteq> ''sxet1'' then None
               else if xet_sign e p1 \<noteq> p2 then None
               else (case b64_decode URLAlphabet False p1 of
                       None \<Rightarrow> None
                     | Some payload \<Rightarrow>
                         (case xe_claims_dec e payload of
                            None \<Rightarrow> None
                          | Some claims \<Rightarrow>
                              if now > tc_Exp claims then None
                              else if needScope = ''write'' \<and> tc_Scope claims \<noteq> ''write'' then None
                              else Some claims))
           | _ \<Rightarrow> None))"

text \<open>The headers of a token response: CAS URL, access token, expiration.\<close>

definition WriteTokenResponse ::
  "('o, 's) xet_env \<Rightarrow> int \<Rightarrow> cas_request \<Rightarrow> string \<Rightarrow> repo_kind \<Rightarrow> repo_id \<Rightarrow> string
   \<Rightarrow> (string \<times> string) list" where
  "WriteTokenResponse e now r scope kind repo user =
     (let (token, exp) = MintToken e now scope kind repo user in
      [(''X-Xet-Cas-Url'', requestBaseURL r @ ''/xet''), (''X-Xet-Access-Token'', token),
       (''X-Xet-Token-Expiration'', format_int exp), (''Content-Type'', ''application/json'')])"

section \<open>Reconstruction and materialization\<close>

definition recordFromShardFile :: "ShardFile \<Rightarrow> FileRecord" where
  "recordFromShardFile f =
     \<lparr>fr_FileHash = Hash_Hex (sf_FileHash f),
      fr_SHA256 = (if Hash_IsZero (sf_SHA256 f) then [] else Hash_Hex (sf_SHA256 f)),
      fr_TotalLen = sum_list (map (\<lambda>t. int (tm_UnpackedLen t)) (sf_Terms f)),
      fr_Terms = map (\<lambda>t. \<lparr>tr_Xorb = Hash_Hex (tm_XorbHash t), tr_ChunkStart = int (tm_ChunkStart t),
                          tr_ChunkEnd = int (tm_ChunkEnd t), tr_UnpackedLen = int (tm_UnpackedLen t)\<rparr>)
                   (sf_Terms f)\<rparr>"

text \<open>
  One iteration of \<open>reconstruct\<close>, and the loop: the outcome, and the bytes
  written so far.
\<close>

definition decode_term ::
  "('o, 's) xet_env \<Rightarrow> 'o \<Rightarrow> TermRecord \<Rightarrow> byte list \<Rightarrow> (mat_error, unit) res \<times> byte list" where
  "decode_term e st t w =
     (case ParseHex (tr_Xorb t) of
        Err er \<Rightarrow> (Err (MatHash er), w)
      | Panic \<Rightarrow> (Panic, w)
      | Ok h \<Rightarrow>
          (case ReadXorb (xe_objects e) h st of
             Err er \<Rightarrow> (Err (MatStore er), w)
           | Panic \<Rightarrow> (Panic, w)
           | Ok xorb \<Rightarrow>
               (case XorbChunks (xe_json e) (xe_objects e) h st of
                  Err er \<Rightarrow> (Err (MatStore er), w)
                | Panic \<Rightarrow> (Panic, w)
                | Ok chunks \<Rightarrow>
                    (case DecodeChunkRange (xe_inflate e) xorb chunks (tr_ChunkStart t) (tr_ChunkEnd t) w of
                       (Err er, w') \<Rightarrow> (Err (MatDecode er), w')
                     | (Panic, w') \<Rightarrow> (Panic, w')
                     | (Ok _, w') \<Rightarrow> (Ok (), w')))))"

fun reconstruct ::
  "('o, 's) xet_env \<Rightarrow> 'o \<Rightarrow> TermRecord list \<Rightarrow> byte list \<Rightarrow> (mat_error, unit) res \<times> byte list" where
  "reconstruct e st [] w = (Ok (), w)"
| "reconstruct e st (t # ts) w =
     (case decode_term e st t w of
        (Err er, w') \<Rightarrow> (Err er, w')
      | (Panic, w') \<Rightarrow> (Panic, w')
      | (Ok _, w') \<Rightarrow> reconstruct e st ts w')"

text \<open>
  \<open>materialize\<close>: a panic of the reconstructing goroutine takes the process down.
\<close>

definition materialize ::
  "('o, 's) xet_env \<Rightarrow> repo_kind \<Rightarrow> repo_id \<Rightarrow> FileRecord \<Rightarrow> 'o \<Rightarrow> 's \<Rightarrow> (mat_error, unit) res \<times> 's" where
  "materialize e kind repo r st bs =
     (if fr_SHA256 r = [] then (Ok (), bs)
      else if xe_has_blob e kind repo (fr_SHA256 r) bs then (Ok (), bs)
      else case reconstruct e st (fr_Terms r) [] of
        (Panic, w) \<Rightarrow> (Panic, bs)
      | (Err er, w) \<Rightarrow> xe_put_blob e kind repo (fr_SHA256 r) (fr_TotalLen r) (w, Some er) bs
      | (Ok _, w) \<Rightarrow> xe_put_blob e kind repo (fr_SHA256 r) (fr_TotalLen r) (w, None) bs)"

definition materializeStatus :: "mat_error \<Rightarrow> nat" where
  "materializeStatus er =
     (case er of
        MatStore ErrNotFound \<Rightarrow> 400
      | MatBackend ErrDigestMismatch \<Rightarrow> 400
      | _ \<Rightarrow> 500)"

section \<open>Responses\<close>

record indexRange =
  ir_Start :: int
  ir_End :: int

record fetchInfo =
  fi_Range :: indexRange
  fi_URL :: string
  fi_Start :: nat
  fi_End :: int

record reconstructionTerm =
  rt_Hash :: string
  rt_UnpackedLength :: int
  rt_Range :: indexRange

record reconstructionResponse =
  rr_Offset :: int
  rr_Terms :: "reconstructionTerm list"
  rr_Fetch :: "string \<Rightarrow> fetchInfo list"

datatype cas_response =
  CasError nat | WasInserted bool | ShardResult nat | Reconstruction reconstructionResponse
| RawBytes "byte list"

section \<open>Ingest\<close>

definition audit_record :: "audit_event \<Rightarrow> audit_event list \<Rightarrow> audit_event list" where
  "audit_record ev log =
     log @ [ev\<lparr>ae_Actor := (if ae_Actor ev = [] then ''anonymous'' else ae_Actor ev)\<rparr>]"

definition HandleXorbUpload ::
  "('o, 's) xet_env \<Rightarrow> int \<Rightarrow> cas_request \<Rightarrow> ('o, 's) xet_state \<Rightarrow> cas_response option \<times> ('o, 's) xet_state" where
  "HandleXorbUpload e now r s =
     (case verifyBearer e now (cq_Authorization r) ''write'' of
        None \<Rightarrow> (Some (CasError 401), s)
      | Some claims \<Rightarrow>
          if cq_Prefix r \<noteq> ''default'' then (Some (CasError 400), s)
          else (case ParseHex (cq_Hash r) of
            Err _ \<Rightarrow> (Some (CasError 400), s)
          | Panic \<Rightarrow> (None, s)
          | Ok hash \<Rightarrow>
              if length (cq_Body r) > maxXorbSize then (Some (CasError 400), s)
              else (case PutXorb (xe_json e) (xe_objects e) hash (cq_Body r) (xs_store s) of
                (Err _, st) \<Rightarrow> (Some (CasError 400), s\<lparr>xs_store := st\<rparr>)
              | (Panic, st) \<Rightarrow> (None, s\<lparr>xs_store := st\<rparr>)
              | (Ok inserted, st) \<Rightarrow>
                  (Some (WasInserted inserted),
                   s\<lparr>xs_store := st,
                     xs_dedup := xs_dedup s @ [if inserted then ''xorb_new'' else ''xorb_duplicate''],
                     xs_audit := (if inserted
                                  then audit_record \<lparr>ae_Action = ''xet_xorb'', ae_Actor = tc_User claims,
                                         ae_Repo = tc_Repo claims, ae_Digest = ''xet:'' @ Hash_Hex hash\<rparr>
                                         (xs_audit s)
                                  else xs_audit s)\<rparr>))))"

text \<open>The loop over the files of a shard: the first failure ends it.\<close>

fun ingest_files ::
  "('o, 's) xet_env \<Rightarrow> tokenClaims \<Rightarrow> repo_id \<Rightarrow> ShardFile list \<Rightarrow> ('o, 's) xet_state
   \<Rightarrow> (nat, unit) res \<times> ('o, 's) xet_state" where
  "ingest_files e claims repo [] s = (Ok (), s)"
| "ingest_files e claims repo (f # fs) s =
     (let r = recordFromShardFile f in
      case PutFile (xe_json e) (xe_objects e) r (xs_store s) of
        (Err _, st) \<Rightarrow> (Err 500, s\<lparr>xs_store := st\<rparr>)
      | (Panic, st) \<Rightarrow> (Panic, s\<lparr>xs_store := st\<rparr>)
      | (Ok _, st) \<Rightarrow>
          (case materialize e (tc_Kind claims) repo r st (xs_backend s) of
             (Err er, bs) \<Rightarrow> (Err (materializeStatus er), s\<lparr>xs_store := st, xs_backend := bs\<rparr>)
           | (Panic, bs) \<Rightarrow> (Panic, s\<lparr>xs_store := st, xs_backend := bs\<rparr>)
           | (Ok _, bs) \<Rightarrow>
               ingest_files e claims repo fs
                 (s\<lparr>xs_store := st, xs_backend := bs,
                    xs_audit := audit_record \<lparr>ae_Action = ''xet_shard_file'', ae_Actor = tc_User claims,
                                  ae_Repo = tc_Repo claims, ae_Digest = ''sha256:'' @ fr_SHA256 r\<rparr>
                                  (xs_audit s)\<rparr>)))"

definition eligible_chunks :: "ShardXorb list \<Rightarrow> hash list" where
  "eligible_chunks xs = concat (map (\<lambda>x. filter GlobalDedupEligible (sx_ChunkHashes x)) xs)"

definition HandleShardUpload ::
  "('o, 's) xet_env \<Rightarrow> int \<Rightarrow> cas_request \<Rightarrow> ('o, 's) xet_state \<Rightarrow> cas_response option \<times> ('o, 's) xet_state" where
  "HandleShardUpload e now r s =
     (case verifyBearer e now (cq_Authorization r) ''write'' of
        None \<Rightarrow> (Some (CasError 401), s)
      | Some claims \<Rightarrow>
          (case ParseRepoID (tc_Repo claims) of
             Err _ \<Rightarrow> (Some (CasError 400), s)
           | Panic \<Rightarrow> (None, s)
           | Ok repo \<Rightarrow>
               if length (cq_Body r) > maxShardSize then (Some (CasError 400), s)
               else (case ParseShard (cq_Body r) of
                 Err _ \<Rightarrow> (Some (CasError 400), s)
               | Panic \<Rightarrow> (None, s)
               | Ok shard \<Rightarrow>
                   (case ingest_files e claims repo (sh_Files shard) s of
                      (Err status, s1) \<Rightarrow> (Some (CasError status), s1)
                    | (Panic, s1) \<Rightarrow> (None, s1)
                    | (Ok _, s1) \<Rightarrow>
                        (case PutDedupShard (xe_sha256 e) (xe_objects e) (cq_Body r)
                                (eligible_chunks (sh_Xorbs shard)) (xs_store s1) of
                           (Err _, st) \<Rightarrow> (Some (CasError 500), s1\<lparr>xs_store := st\<rparr>)
                         | (Panic, st) \<Rightarrow> (None, s1\<lparr>xs_store := st\<rparr>)
                         | (Ok _, st) \<Rightarrow> (Some (ShardResult 1), s1\<lparr>xs_store := st\<rparr>))))))"

section \<open>The reconstruction API\<close>

definition data_payload :: "string \<Rightarrow> int \<Rightarrow> string" where
  "data_payload x n = ''data.'' @ x @ ''.'' @ format_int n"

definition signedDataURL :: "('o, 's) xet_env \<Rightarrow> int \<Rightarrow> string \<Rightarrow> string \<Rightarrow> string" where
  "signedDataURL e now base xorbHex =
     (let exp = now + dataURLTTL;
          sig = xet_sign e (data_payload xorbHex exp)
      in base @ ''/xet/data/'' @ xorbHex @ ''?e='' @ format_int exp @ ''&s='' @ sig)"

definition parseByteRange :: "string \<Rightarrow> int \<Rightarrow> (int \<times> int) option" where
  "parseByteRange header totalLen =
     (case cut_prefix ''bytes='' header of
        None \<Rightarrow> None
      | Some spec \<Rightarrow>
          (case cut_on CHR ''-'' spec of
             None \<Rightarrow> None
           | Some (startStr, endStr) \<Rightarrow>
               (case (parse_int64 startStr,
                      if endStr \<noteq> [] then parse_int64 endStr else Some (totalLen - 1)) of
                  (Some start, Some stop) \<Rightarrow>
                    if start < 0 \<or> stop < start then None
                    else if start \<ge> totalLen then None
                    else Some (start, min stop (totalLen - 1))
                | _ \<Rightarrow> None)))"

text \<open>
  The loop of \<open>HandleReconstruction\<close>. \<open>layout_of\<close> is the store's \<open>XorbChunks\<close> of a
  term's xorb; the two index expressions are \<open>go_index\<close>. The error is the
  status answered.
\<close>

definition go_int_index :: "'a list \<Rightarrow> int \<Rightarrow> (nat, 'a) res" where
  "go_int_index xs i = (if i < 0 then Panic else go_index xs (nat i))"

fun plan_terms ::
  "(string \<Rightarrow> (nat, ChunkInfo list) res) \<Rightarrow> (string \<Rightarrow> string) \<Rightarrow> int \<Rightarrow> int \<Rightarrow> int \<Rightarrow> TermRecord list
   \<Rightarrow> reconstructionResponse \<Rightarrow> (nat, reconstructionResponse) res" where
  "plan_terms layout_of url start stop acc [] resp = Ok resp"
| "plan_terms layout_of url start stop acc (t # ts) resp =
     (let termEnd = acc + tr_UnpackedLen t in
      if termEnd \<le> start then plan_terms layout_of url start stop termEnd ts resp
      else if acc > stop then Ok resp
      else
        let resp1 = (if rr_Terms resp = [] then resp\<lparr>rr_Offset := start - acc\<rparr> else resp) in
        res_bind (layout_of (tr_Xorb t)) (\<lambda>chunks.
        if tr_ChunkEnd t > int (length chunks) then Err 500
        else
          res_bind (go_int_index chunks (tr_ChunkStart t)) (\<lambda>c0.
          res_bind (go_int_index chunks (tr_ChunkEnd t - 1)) (\<lambda>c1.
            let rng = \<lparr>ir_Start = tr_ChunkStart t, ir_End = tr_ChunkEnd t\<rparr>;
                fi = \<lparr>fi_Range = rng, fi_URL = url (tr_Xorb t), fi_Start = ck_Start c0,
                      fi_End = int (ck_End c1) - 1\<rparr>
            in plan_terms layout_of url start stop termEnd ts
                 (resp1\<lparr>rr_Terms := rr_Terms resp1 @ [\<lparr>rt_Hash = tr_Xorb t,
                                        rt_UnpackedLength = tr_UnpackedLen t, rt_Range = rng\<rparr>],
                        rr_Fetch := (rr_Fetch resp1)(tr_Xorb t := rr_Fetch resp1 (tr_Xorb t) @ [fi])\<rparr>)))))"

definition term_layout :: "('o, 's) xet_env \<Rightarrow> 'o \<Rightarrow> string \<Rightarrow> (nat, ChunkInfo list) res" where
  "term_layout e st x =
     (case ParseHex x of
        Err _ \<Rightarrow> Err 500
      | Panic \<Rightarrow> Panic
      | Ok h \<Rightarrow> (case XorbChunks (xe_json e) (xe_objects e) h st of
                  Err _ \<Rightarrow> Err 500 | Panic \<Rightarrow> Panic | Ok cs \<Rightarrow> Ok cs))"

definition empty_response :: reconstructionResponse where
  "empty_response = \<lparr>rr_Offset = 0, rr_Terms = [], rr_Fetch = \<lambda>_. []\<rparr>"

definition HandleReconstruction ::
  "('o, 's) xet_env \<Rightarrow> int \<Rightarrow> cas_request \<Rightarrow> ('o, 's) xet_state \<Rightarrow> cas_response option" where
  "HandleReconstruction e now r s =
     (case verifyBearer e now (cq_Authorization r) ''read'' of
        None \<Rightarrow> Some (CasError 401)
      | Some _ \<Rightarrow>
          (case ParseHex (cq_Hash r) of
             Err _ \<Rightarrow> Some (CasError 400)
           | Panic \<Rightarrow> None
           | Ok fh \<Rightarrow>
               (case Store_File (xe_json e) (xe_objects e) fh (xs_store s) of
                  Err _ \<Rightarrow> Some (CasError 404)
                | Panic \<Rightarrow> None
                | Ok rec \<Rightarrow>
                    (case (if cq_Range r \<noteq> [] then parseByteRange (cq_Range r) (fr_TotalLen rec)
                           else Some (0, fr_TotalLen rec - 1)) of
                       None \<Rightarrow> Some (CasError 416)
                     | Some (start, stop) \<Rightarrow>
                         (case plan_terms (term_layout e (xs_store s))
                                 (signedDataURL e now (requestBaseURL r)) start stop 0 (fr_Terms rec)
                                 empty_response of
                            Err status \<Rightarrow> Some (CasError status)
                          | Panic \<Rightarrow> None
                          | Ok resp \<Rightarrow>
                              if rr_Terms resp = [] then Some (CasError 416)
                              else Some (Reconstruction resp))))))"

section \<open>Dedup queries and xorb data\<close>

definition HandleChunkQuery ::
  "('o, 's) xet_env \<Rightarrow> int \<Rightarrow> cas_request \<Rightarrow> ('o, 's) xet_state \<Rightarrow> cas_response option \<times> ('o, 's) xet_state" where
  "HandleChunkQuery e now r s =
     (case verifyBearer e now (cq_Authorization r) ''read'' of
        None \<Rightarrow> (Some (CasError 401), s)
      | Some _ \<Rightarrow>
          if cq_Prefix r \<noteq> ''default'' then (Some (CasError 400), s)
          else (case ParseHex (cq_Hash r) of
            Err _ \<Rightarrow> (Some (CasError 400), s)
          | Panic \<Rightarrow> (None, s)
          | Ok h \<Rightarrow>
              (case DedupShard (xe_objects e) h (xs_store s) of
                 Ok b \<Rightarrow> (Some (RawBytes b), s\<lparr>xs_dedup := xs_dedup s @ [''query_hit'']\<rparr>)
               | Err _ \<Rightarrow> (Some (CasError 404), s\<lparr>xs_dedup := xs_dedup s @ [''query_miss'']\<rparr>)
               | Panic \<Rightarrow> (None, s))))"

text \<open>
  \<open>HandleXorbData\<close> with the query parameters \<open>e\<close> and \<open>s\<close> as read from the URL;
  the answered bytes go to \<open>http.ServeContent\<close>.
\<close>

definition HandleXorbData ::
  "('o, 's) xet_env \<Rightarrow> int \<Rightarrow> string \<Rightarrow> string \<Rightarrow> string \<Rightarrow> ('o, 's) xet_state \<Rightarrow> cas_response option" where
  "HandleXorbData e now xorbHex eStr sig s =
     (case parse_int64 eStr of
        None \<Rightarrow> Some (CasError 403)
      | Some exp \<Rightarrow>
          if now > exp \<or> xet_sign e (data_payload xorbHex exp) \<noteq> sig
          then Some (CasError 403)
          else (case ParseHex xorbHex of
            Err _ \<Rightarrow> Some (CasError 400)
          | Panic \<Rightarrow> None
          | Ok h \<Rightarrow>
              (case ReadXorb (xe_objects e) h (xs_store s) of
                 Ok b \<Rightarrow> Some (RawBytes b)
               | Err _ \<Rightarrow> Some (CasError 404)
               | Panic \<Rightarrow> None)))"

section \<open>Tokens and signatures\<close>

definition claims_ok :: "('o, 's) xet_env \<Rightarrow> bool" where
  "claims_ok e \<longleftrightarrow> (\<forall>c. xe_claims_dec e (xe_claims_enc e c) = Some c)"

lemma dot_notin_hex: "CHR ''.'' \<notin> set (hex_encode bs)"
  using hex_encode_lower [of bs] by (auto simp: list_all_iff is_lower_hex_iff)

lemma dot_notin_token_body: "CHR ''.'' \<notin> set (token_body e c)"
  using b64_encode_chars by (fastforce simp: token_body_def)

lemma split_token: "split_on CHR ''.'' (''sxet1.'' @ token_body e c @ ''.'' @ xet_sign e b)
    = [''sxet1'', token_body e c, xet_sign e b]"
proof -
  have "split_on CHR ''.'' (''sxet1'' @ CHR ''.'' # token_body e c @ CHR ''.'' # xet_sign e b)
      = ''sxet1'' # split_on CHR ''.'' (token_body e c @ CHR ''.'' # xet_sign e b)"
    by (rule split_on_append) simp
  also have "split_on CHR ''.'' (token_body e c @ CHR ''.'' # xet_sign e b)
      = [token_body e c, xet_sign e b]"
    using dot_notin_token_body [of e c] dot_notin_hex
    by (simp add: split_on_append split_on_free xet_sign_def)
  finally show ?thesis by simp
qed

lemma verify_MintToken:
  assumes "claims_ok e"
  shows "verifyBearer e now' (''Bearer '' @ fst (MintToken e now scope kind repo user)) need =
    (if now' > now + tokenTTL \<or> need = ''write'' \<and> scope \<noteq> ''write'' then None
     else Some \<lparr>tc_Scope = scope, tc_Kind = kind, tc_Repo = repo_string repo, tc_User = user,
                tc_Exp = now + tokenTTL\<rparr>)"
proof -
  let ?c = "\<lparr>tc_Scope = scope, tc_Kind = kind, tc_Repo = repo_string repo, tc_User = user,
             tc_Exp = now + tokenTTL\<rparr>"
  have dec: "b64_decode URLAlphabet False (token_body e ?c) = Some (xe_claims_enc e ?c)"
    by (simp add: token_body_def)
  have mint: "fst (MintToken e now scope kind repo user)
      = ''sxet1.'' @ token_body e ?c @ ''.'' @ xet_sign e (token_body e ?c)"
    by (simp add: MintToken_def Let_def)
  show ?thesis
    using assms
    unfolding verifyBearer_def mint cut_prefix_append option.case split_token list.case dec
    by (simp add: claims_ok_def)
qed

lemma verifyBearer_shape:
  assumes "verifyBearer e now auth need = Some c"
  shows "\<exists>body. auth = ''Bearer sxet1.'' @ body @ ''.'' @ xet_sign e body \<and> CHR ''.'' \<notin> set body \<and>
                now \<le> tc_Exp c \<and> (need = ''write'' \<longrightarrow> tc_Scope c = ''write'')"
proof -
  obtain token p0 p1 p2 where t: "cut_prefix ''Bearer '' auth = Some token"
    "split_on CHR ''.'' token = [p0, p1, p2]" "p0 = ''sxet1''" "xet_sign e p1 = p2"
    and c: "\<not> now > tc_Exp c" "\<not> (need = ''write'' \<and> tc_Scope c \<noteq> ''write'')"
    using assms
    by (auto simp: verifyBearer_def split: option.splits list.splits if_splits)
  have "join_on ''.'' [p0, p1, p2] = token" using join_split [of "CHR ''.''" token] t(2) by simp
  moreover have "CHR ''.'' \<notin> set p1" using split_on_parts_free [of p1 "CHR ''.''" token] t(2) by simp
  moreover have "auth = ''Bearer '' @ token" using t(1) by (simp only: cut_prefix_Some_iff)
  ultimately show ?thesis using t(3,4) c by (intro exI [of _ p1]) auto
qed

lemma dot_notin_digits: "CHR ''.'' \<notin> set (nat_digits n)"
  using nat_digits_all_digit [of n] by (auto simp: list_all_iff is_digit_iff)

lemma dot_notin_format_int: "CHR ''.'' \<notin> set (format_int n)"
  using dot_notin_digits by (auto simp: format_int_def)

lemma last_sep_inj:
  "c \<notin> set s \<Longrightarrow> c \<notin> set t \<Longrightarrow> x @ c # s = y @ c # t \<Longrightarrow> x = y \<and> s = t"
proof (induction x arbitrary: y)
  case Nil
  then show ?case by (cases y) auto
next
  case (Cons a x)
  then show ?case by (cases y) auto
qed

lemma format_int_inj: "format_int n = format_int m \<Longrightarrow> n = m"
proof -
  have val: "(if n < 0 then - int (digits_val (tl (format_int n))) else int (digits_val (format_int n))) = n"
    for n :: int
    by (simp add: format_int_def)
  have neg: "n < 0 \<longleftrightarrow> hd (format_int n) = CHR ''-''" for n :: int
    using nat_digits_hd [of "nat n"] by (auto simp: format_int_def)
  assume "format_int n = format_int m"
  with neg [of n] neg [of m] val [of n] val [of m] show ?thesis by metis
qed

lemma data_payload_inj: "data_payload x n = data_payload y m \<longleftrightarrow> x = y \<and> n = m"
proof
  assume "data_payload x n = data_payload y m"
  then have "x @ CHR ''.'' # format_int n = y @ CHR ''.'' # format_int m"
    by (simp add: data_payload_def)
  from last_sep_inj [OF dot_notin_format_int dot_notin_format_int this]
  show "x = y \<and> n = m" using format_int_inj by blast
qed simp

section \<open>Ranges\<close>

lemma dash_notin_digits: "CHR ''-'' \<notin> set (nat_digits n)"
  using nat_digits_all_digit [of n] by (auto simp: list_all_iff is_digit_iff)

lemma parseByteRange_bounds:
  "parseByteRange h n = Some (a, b) \<Longrightarrow> 0 \<le> a \<and> a \<le> b \<and> b < n"
  by (auto simp: parseByteRange_def min_def split: option.splits if_splits prod.splits)

lemma parseByteRange_format:
  assumes "0 \<le> a" "a < 2 ^ 63" "0 \<le> b" "b < 2 ^ 63"
  shows "parseByteRange (''bytes='' @ format_int a @ ''-'' @ format_int b) n =
     (if a \<le> b \<and> a < n then Some (a, min b (n - 1)) else None)"
proof -
  have "cut_on CHR ''-'' (format_int a @ CHR ''-'' # format_int b) = Some (format_int a, format_int b)"
    using assms(1) dash_notin_digits by (intro cut_on_append) (simp add: format_int_def)
  moreover have "format_int b \<noteq> []" using assms by (simp add: format_int_def)
  moreover have "parse_int64 (format_int a) = Some a" "parse_int64 (format_int b) = Some b"
    using assms by (auto intro!: parse_format_int)
  ultimately show ?thesis
    using assms cut_prefix_append [of "''bytes=''" "format_int a @ CHR ''-'' # format_int b"]
    unfolding parseByteRange_def by auto
qed

section \<open>Decoding terms\<close>

lemma decode_chunks_prefix:
  "decode_chunks inflate xorb cs i w
     = (fst (decode_chunks inflate xorb cs i []), w @ snd (decode_chunks inflate xorb cs i []))"
proof (induction cs arbitrary: i w)
  case Nil
  then show ?case by simp
next
  case (Cons c cs)
  show ?case
  proof (cases "res_bind (go_slice (ck_Start c) (ck_End c) xorb) (DecodeChunk inflate)")
    case (Ok d)
    then show ?thesis
      using Cons.IH [of "Suc i" "w @ d"] Cons.IH [of "Suc i" d] by (simp split: prod.splits)
  qed simp_all
qed

lemma DecodeChunkRange_prefix:
  "DecodeChunkRange inflate xorb cs a b w
     = (fst (DecodeChunkRange inflate xorb cs a b []), w @ snd (DecodeChunkRange inflate xorb cs a b []))"
  using decode_chunks_prefix [of inflate xorb "gslice (nat a) (nat b) cs" "nat a" w]
  by (simp add: DecodeChunkRange_def)

lemma decode_term_prefix:
  "decode_term e st t w = (fst (decode_term e st t []), w @ snd (decode_term e st t []))"
proof -
  have "DecodeChunkRange (xe_inflate e) x cs a b w = (r, d) \<longleftrightarrow>
        r = fst (DecodeChunkRange (xe_inflate e) x cs a b []) \<and>
        d = w @ snd (DecodeChunkRange (xe_inflate e) x cs a b [])" for x cs a b r d
    by (subst DecodeChunkRange_prefix) auto
  then show ?thesis
    unfolding decode_term_def by (auto split: res.splits prod.splits)
qed

text \<open>What one term decodes to, when it does.\<close>

definition term_data :: "('o, 's) xet_env \<Rightarrow> 'o \<Rightarrow> TermRecord \<Rightarrow> byte list option" where
  "term_data e st t = (case decode_term e st t [] of (Ok _, w) \<Rightarrow> Some w | _ \<Rightarrow> None)"

lemma decode_term_Ok_iff:
  "decode_term e st t w = (Ok (), w') \<longleftrightarrow> (\<exists>d. term_data e st t = Some d \<and> w' = w @ d)"
  by (subst decode_term_prefix) (auto simp: term_data_def split: prod.splits res.splits)

lemma reconstruct_Ok_Cons:
  "reconstruct e st (t # ts) w = (Ok (), w') \<longleftrightarrow>
     (\<exists>d. term_data e st t = Some d \<and> reconstruct e st ts (w @ d) = (Ok (), w'))"
proof (cases "decode_term e st t w")
  case (Pair r v)
  show ?thesis
  proof (cases r)
    case (Ok u)
    with Pair have "decode_term e st t w = (Ok (), v)" by simp
    then obtain d where "term_data e st t = Some d" "v = w @ d"
      unfolding decode_term_Ok_iff by blast
    with Pair Ok show ?thesis by simp
  next
    case (Err er)
    with Pair have "term_data e st t = None"
      using decode_term_Ok_iff [of e st t w] by (cases "term_data e st t") auto
    with Pair Err show ?thesis by simp
  next
    case Panic
    with Pair have "term_data e st t = None"
      using decode_term_Ok_iff [of e st t w] by (cases "term_data e st t") auto
    with Pair Panic show ?thesis by simp
  qed
qed

lemma reconstruct_Ok_iff:
  "reconstruct e st ts w = (Ok (), w') \<longleftrightarrow>
     (\<forall>t \<in> set ts. term_data e st t \<noteq> None) \<and> w' = w @ concat (map (\<lambda>t. the (term_data e st t)) ts)"
proof (induction ts arbitrary: w)
  case Nil
  then show ?case by auto
next
  case (Cons t ts)
  show ?case
    unfolding reconstruct_Ok_Cons by (cases "term_data e st t") (auto simp: Cons.IH)
qed

lemma term_data_layout:
  assumes "term_data e st t = Some d"
  shows "\<exists>cs. term_layout e st (tr_Xorb t) = Ok cs \<and> 0 \<le> tr_ChunkStart t \<and>
              tr_ChunkStart t < tr_ChunkEnd t \<and> tr_ChunkEnd t \<le> int (length cs)"
  using assms
  by (auto simp: term_data_def decode_term_def term_layout_def DecodeChunkRange_def
      split: res.splits prod.splits if_splits)

section \<open>The reconstruction plan\<close>

text \<open>The terms a plan selects, and where the first of them starts in the file.\<close>

fun sel :: "int \<Rightarrow> int \<Rightarrow> int \<Rightarrow> TermRecord list \<Rightarrow> TermRecord list" where
  "sel start stop acc [] = []"
| "sel start stop acc (t # ts) =
     (if acc + tr_UnpackedLen t \<le> start then sel start stop (acc + tr_UnpackedLen t) ts
      else if acc > stop then []
      else t # sel start stop (acc + tr_UnpackedLen t) ts)"

fun first_acc :: "int \<Rightarrow> int \<Rightarrow> TermRecord list \<Rightarrow> int" where
  "first_acc start acc [] = acc"
| "first_acc start acc (t # ts) =
     (if acc + tr_UnpackedLen t \<le> start then first_acc start (acc + tr_UnpackedLen t) ts else acc)"

definition resp_term :: "TermRecord \<Rightarrow> reconstructionTerm" where
  "resp_term t = \<lparr>rt_Hash = tr_Xorb t, rt_UnpackedLength = tr_UnpackedLen t,
                  rt_Range = \<lparr>ir_Start = tr_ChunkStart t, ir_End = tr_ChunkEnd t\<rparr>\<rparr>"

definition resp_fetch ::
  "(string \<Rightarrow> (nat, ChunkInfo list) res) \<Rightarrow> (string \<Rightarrow> string) \<Rightarrow> TermRecord \<Rightarrow> fetchInfo" where
  "resp_fetch layout_of url t =
     (case layout_of (tr_Xorb t) of
        Ok cs \<Rightarrow> \<lparr>fi_Range = \<lparr>ir_Start = tr_ChunkStart t, ir_End = tr_ChunkEnd t\<rparr>,
                  fi_URL = url (tr_Xorb t),
                  fi_Start = ck_Start (cs ! nat (tr_ChunkStart t)),
                  fi_End = int (ck_End (cs ! nat (tr_ChunkEnd t - 1))) - 1\<rparr>)"

definition term_in_layout :: "(string \<Rightarrow> (nat, ChunkInfo list) res) \<Rightarrow> TermRecord \<Rightarrow> bool" where
  "term_in_layout layout_of t \<longleftrightarrow>
     (\<exists>cs. layout_of (tr_Xorb t) = Ok cs \<and> 0 \<le> tr_ChunkStart t \<and>
           tr_ChunkStart t < tr_ChunkEnd t \<and> tr_ChunkEnd t \<le> int (length cs))"

lemma plan_terms_sel:
  "\<forall>t \<in> set ts. term_in_layout layout_of t \<Longrightarrow>
     \<exists>r. plan_terms layout_of url start stop acc ts resp = Ok r \<and>
         rr_Terms r = rr_Terms resp @ map resp_term (sel start stop acc ts) \<and>
         rr_Offset r = (if rr_Terms resp = [] \<and> sel start stop acc ts \<noteq> []
                        then start - first_acc start acc ts else rr_Offset resp) \<and>
         (\<forall>x. rr_Fetch r x = rr_Fetch resp x @
            map (resp_fetch layout_of url) (filter (\<lambda>t. tr_Xorb t = x) (sel start stop acc ts)))"
proof (induction ts arbitrary: acc resp)
  case Nil
  then show ?case by simp
next
  case (Cons t ts)
  let ?stopAcc = "acc + tr_UnpackedLen t"
  have IH: "\<exists>r. plan_terms layout_of url start stop ?stopAcc ts resp' = Ok r \<and>
         rr_Terms r = rr_Terms resp' @ map resp_term (sel start stop ?stopAcc ts) \<and>
         rr_Offset r = (if rr_Terms resp' = [] \<and> sel start stop ?stopAcc ts \<noteq> []
                        then start - first_acc start ?stopAcc ts else rr_Offset resp') \<and>
         (\<forall>x. rr_Fetch r x = rr_Fetch resp' x @
            map (resp_fetch layout_of url) (filter (\<lambda>t. tr_Xorb t = x) (sel start stop ?stopAcc ts)))"
    for resp'
    using Cons.prems by (intro Cons.IH) simp
  consider "?stopAcc \<le> start" | "\<not> ?stopAcc \<le> start" "acc > stop" | "\<not> ?stopAcc \<le> start" "\<not> acc > stop" by blast
  then show ?case
  proof cases
    case 1
    then have "plan_terms layout_of url start stop acc (t # ts) resp
        = plan_terms layout_of url start stop ?stopAcc ts resp"
      "sel start stop acc (t # ts) = sel start stop ?stopAcc ts"
      "first_acc start acc (t # ts) = first_acc start ?stopAcc ts"
      by (simp_all add: Let_def)
    with IH [of resp] show ?thesis by (simp only:)
  next
    case 2
    then show ?thesis by (simp add: Let_def)
  next
    case 3
    obtain cs where cs: "layout_of (tr_Xorb t) = Ok cs" "0 \<le> tr_ChunkStart t"
      "tr_ChunkStart t < tr_ChunkEnd t" "tr_ChunkEnd t \<le> int (length cs)"
      using Cons.prems by (auto simp: term_in_layout_def)
    then have i: "go_int_index cs (tr_ChunkStart t) = Ok (cs ! nat (tr_ChunkStart t))"
      "go_int_index cs (tr_ChunkEnd t - 1) = Ok (cs ! nat (tr_ChunkEnd t - 1))"
      by (auto simp: go_int_index_def go_index_def)
    let ?r1 = "if rr_Terms resp = [] then resp\<lparr>rr_Offset := start - acc\<rparr> else resp"
    let ?r2 = "?r1\<lparr>rr_Terms := rr_Terms ?r1 @ [resp_term t],
                   rr_Fetch := (rr_Fetch ?r1)(tr_Xorb t := rr_Fetch ?r1 (tr_Xorb t)
                                 @ [resp_fetch layout_of url t])\<rparr>"
    have "plan_terms layout_of url start stop acc (t # ts) resp
        = plan_terms layout_of url start stop ?stopAcc ts ?r2"
      using 3 cs i by (simp add: Let_def resp_term_def resp_fetch_def)
    with IH [of ?r2] 3 show ?thesis by auto
  qed
qed

lemma sel_started:
  "start < acc \<Longrightarrow> \<forall>t \<in> set ts. int (length (f t)) = tr_UnpackedLen t \<Longrightarrow> acc \<le> stop + 1 \<Longrightarrow>
     take (nat (stop + 1 - acc)) (concat (map f (sel start stop acc ts)))
       = take (nat (stop + 1 - acc)) (concat (map f ts))"
proof (induction ts arbitrary: acc)
  case Nil
  then show ?case by simp
next
  case (Cons t ts)
  have len: "tr_UnpackedLen t = int (length (f t))" using Cons.prems by simp
  show ?case
  proof (cases "acc > stop")
    case True
    then have "nat (stop + 1 - acc) = 0" by simp
    then show ?thesis by simp
  next
    case False
    let ?a = "acc + tr_UnpackedLen t"
    have s: "sel start stop acc (t # ts) = t # sel start stop ?a ts"
      using Cons.prems(1) len False by simp
    show ?thesis
    proof (cases "?a \<le> stop + 1")
      case True
      have "take (nat (stop + 1 - ?a)) (concat (map f (sel start stop ?a ts)))
          = take (nat (stop + 1 - ?a)) (concat (map f ts))"
        using Cons.prems True len by (intro Cons.IH) auto
      moreover have "nat (stop + 1 - ?a) = nat (stop + 1 - acc) - length (f t)" using len by simp
      ultimately show ?thesis unfolding s by simp
    next
      case False
      then have "nat (stop + 1 - acc) \<le> length (f t)" using len by simp
      then show ?thesis unfolding s by simp
    qed
  qed
qed

lemma sel_content:
  "acc \<le> start \<Longrightarrow> start \<le> stop \<Longrightarrow> \<forall>t \<in> set ts. int (length (f t)) = tr_UnpackedLen t \<Longrightarrow>
     first_acc start acc ts \<le> start \<and>
     take (nat (stop + 1 - start))
       (drop (nat (start - first_acc start acc ts)) (concat (map f (sel start stop acc ts))))
     = take (nat (stop + 1 - start)) (drop (nat (start - acc)) (concat (map f ts)))"
proof (induction ts arbitrary: acc)
  case Nil
  then show ?case by simp
next
  case (Cons t ts)
  have len: "tr_UnpackedLen t = int (length (f t))" using Cons.prems by simp
  let ?a = "acc + tr_UnpackedLen t"
  show ?case
  proof (cases "?a \<le> start")
    case True
    have "nat (start - acc) = length (f t) + nat (start - ?a)" using True len by simp
    then have "drop (nat (start - acc)) (concat (map f (t # ts)))
        = drop (nat (start - ?a)) (concat (map f ts))"
      by simp
    with Cons.IH [OF True Cons.prems(2)] Cons.prems(3) True show ?thesis by simp
  next
    case False
    have s: "sel start stop acc (t # ts) = t # sel start stop ?a ts"
      "first_acc start acc (t # ts) = acc"
      using Cons.prems False by simp_all
    let ?k = "nat (start - acc)" and ?n = "nat (stop + 1 - start)"
    have k: "?k < length (f t)" using False len Cons.prems(1) by simp
    have "take ?n (drop ?k (f t @ concat (map f (sel start stop ?a ts))))
        = take ?n (drop ?k (f t @ concat (map f ts)))"
    proof (cases "?a \<le> stop + 1")
      case True
      have "take (nat (stop + 1 - ?a)) (concat (map f (sel start stop ?a ts)))
          = take (nat (stop + 1 - ?a)) (concat (map f ts))"
        using False True Cons.prems by (intro sel_started) auto
      moreover have "nat (stop + 1 - ?a) = ?n - (length (f t) - ?k)"
        using len Cons.prems(1,2) k by simp
      ultimately show ?thesis using k by simp
    next
      case False
      then have "?n \<le> length (f t) - ?k" using len Cons.prems(1,2) by simp
      then show ?thesis using k by simp
    qed
    with s Cons.prems(1) show ?thesis by simp
  qed
qed

lemma sel_nonempty:
  "acc \<le> start \<Longrightarrow> start \<le> stop \<Longrightarrow> start < acc + sum_list (map tr_UnpackedLen ts) \<Longrightarrow>
     sel start stop acc ts \<noteq> []"
proof (induction ts arbitrary: acc)
  case (Cons t ts)
  show ?case
  proof (cases "acc + tr_UnpackedLen t \<le> start")
    case True
    with Cons.IH [OF True Cons.prems(2)] Cons.prems(3) show ?thesis by (simp add: add.assoc)
  qed (use Cons.prems in simp)
qed simp

lemma reconstructed_length:
  assumes "reconstruct e st ts [] = (Ok (), file)"
    and "\<forall>t \<in> set ts. \<forall>d. term_data e st t = Some d \<longrightarrow> int (length d) = tr_UnpackedLen t"
  shows "int (length file) = sum_list (map tr_UnpackedLen ts)"
proof -
  have fc: "file = concat (map (\<lambda>t. the (term_data e st t)) ts)"
    and some: "\<forall>t \<in> set ts. term_data e st t \<noteq> None"
    using assms(1) by (simp_all add: reconstruct_Ok_iff)
  have "int (length (concat (map (\<lambda>t. the (term_data e st t)) us))) = sum_list (map tr_UnpackedLen us)"
    if "set us \<subseteq> set ts" for us
    using that
  proof (induction us)
    case (Cons u us)
    then show ?case using assms(2) some by fastforce
  qed simp
  with fc show ?thesis by simp
qed

lemma sel_subset: "set (sel start stop acc ts) \<subseteq> set ts"
  by (induction ts arbitrary: acc) auto

text \<open>The plan of a decodable file, for a range inside it.\<close>

lemma plan_correct:
  assumes fileOk: "reconstruct e st ts [] = (Ok (), file)"
    and lens: "\<forall>t \<in> set ts. \<forall>d. term_data e st t = Some d \<longrightarrow> int (length d) = tr_UnpackedLen t"
    and rng: "0 \<le> start" "start \<le> stop" "start < int (length file)"
  shows "\<exists>resp us w. plan_terms (term_layout e st) url start stop 0 ts empty_response = Ok resp \<and>
           rr_Terms resp \<noteq> [] \<and> rr_Terms resp = map resp_term us \<and>
           reconstruct e st us [] = (Ok (), w) \<and> 0 \<le> rr_Offset resp \<and>
           take (nat (stop + 1 - start)) (drop (nat (rr_Offset resp)) w)
             = gslice (nat start) (nat (stop + 1)) file \<and>
           (\<forall>x. rr_Fetch resp x =
              map (resp_fetch (term_layout e st) url) (filter (\<lambda>t. tr_Xorb t = x) us))"
proof -
  let ?f = "\<lambda>t. the (term_data e st t)" and ?us = "sel start stop 0 ts"
  have some: "\<forall>t \<in> set ts. term_data e st t \<noteq> None" and cat: "file = concat (map ?f ts)"
    using fileOk by (simp_all add: reconstruct_Ok_iff)
  have "term_in_layout (term_layout e st) t" if "t \<in> set ts" for t
  proof -
    obtain d where "term_data e st t = Some d" using some \<open>t \<in> set ts\<close> by fastforce
    from term_data_layout [OF this] show ?thesis by (simp add: term_in_layout_def)
  qed
  then have "\<forall>t \<in> set ts. term_in_layout (term_layout e st) t" by blast
  from plan_terms_sel [OF this, of url start stop 0 empty_response] obtain resp where
    r: "plan_terms (term_layout e st) url start stop 0 ts empty_response = Ok resp"
    "rr_Terms resp = map resp_term ?us"
    "rr_Offset resp = (if ?us \<noteq> [] then start - first_acc start 0 ts else 0)"
    "\<forall>x. rr_Fetch resp x = map (resp_fetch (term_layout e st) url) (filter (\<lambda>t. tr_Xorb t = x) ?us)"
    by (auto simp: empty_response_def)
  have ne: "?us \<noteq> []"
    using rng reconstructed_length [OF fileOk lens] by (intro sel_nonempty) auto
  have "\<forall>t \<in> set ?us. term_data e st t \<noteq> None"
    using some sel_subset by blast
  then have w: "reconstruct e st ?us [] = (Ok (), concat (map ?f ?us))"
    by (simp add: reconstruct_Ok_iff)
  have fl: "\<forall>t \<in> set ts. int (length (?f t)) = tr_UnpackedLen t"
    using some lens by (metis option.exhaust_sel)
  have "first_acc start 0 ts \<le> start \<and>
      take (nat (stop + 1 - start)) (drop (nat (start - first_acc start 0 ts)) (concat (map ?f ?us)))
        = take (nat (stop + 1 - start)) (drop (nat (start - 0)) (concat (map ?f ts)))"
    by (rule sel_content [OF rng(1,2) fl])
  moreover have "nat (stop + 1) - nat start = nat (stop + 1 - start)" using rng by simp
  ultimately have "0 \<le> rr_Offset resp"
    "take (nat (stop + 1 - start)) (drop (nat (rr_Offset resp)) (concat (map ?f ?us)))
       = gslice (nat start) (nat (stop + 1)) file"
    using r(3) ne cat by (simp_all add: gslice_def)
  moreover have "rr_Terms resp \<noteq> []" using r(2) ne by simp
  ultimately show ?thesis using r(1,2,4) w by blast
qed

section \<open>Ingest cannot crash the process\<close>

definition env_ok :: "('o, 's) xet_env \<Rightarrow> bool" where
  "env_ok e \<longleftrightarrow> codec_ok (xe_json e) \<and> (\<forall>k r sha n p s. fst (xe_put_blob e k r sha n p s) \<noteq> Panic)"

context object_store
begin

lemma decode_term_no_panic:
  assumes "xe_objects e = ob" and "codec_ok (xe_json e)" and "inv_layout (xe_json e) (contents st)"
  shows "fst (decode_term e st t w) \<noteq> Panic"
proof -
  have "fst (DecodeChunkRange (xe_inflate e) x cs a b w) \<noteq> Panic"
    if h: "ParseHex (tr_Xorb t) = Ok h" and x: "ReadXorb ob h st = Ok x"
      and l: "XorbChunks (xe_json e) ob h st = Ok cs" for h x cs a b
  proof -
    have "contents st (xorbKey h) = Some x" using x by (auto simp: ReadXorb_def dest: read_contents)
    moreover obtain l' where "contents st (chunksKey h) = Some l'" "dec_layout (xe_json e) l' = Some cs"
      using l by (auto simp: XorbChunks_def go_res split: option.splits dest: read_contents)
    ultimately have "WalkChunks x = Ok cs"
      using assms(2,3) ParseHex_is_hash [OF h] by (fastforce simp: inv_layout_def codec_ok_def)
    from WalkChunks_sound [OF this] have "list_all (chunk_fits x) (gslice (nat a) (nat b) cs)"
      by (auto simp: list_all_iff gslice_def dest!: in_set_takeD in_set_dropD)
    from decode_chunks_safe [OF this] show ?thesis by (auto simp: DecodeChunkRange_def)
  qed
  then have "fst (case DecodeChunkRange (xe_inflate e) x cs a b w of
        (Err er, w') \<Rightarrow> (Err (MatDecode er), w') | (Panic, w') \<Rightarrow> (Panic, w')
      | (Ok _, w') \<Rightarrow> (Ok (), w')) \<noteq> Panic"
    if "ParseHex (tr_Xorb t) = Ok h" "ReadXorb ob h st = Ok x"
      "XorbChunks (xe_json e) ob h st = Ok cs" for h x cs a b
    using that by (auto split: prod.splits res.splits) (metis fst_conv)
  moreover have "ReadXorb ob h st \<noteq> Panic" "XorbChunks (xe_json e) ob h st \<noteq> Panic" for h
    using no_panic(1) by (auto simp: ReadXorb_def XorbChunks_def go_res split: option.splits)
  ultimately show ?thesis
    unfolding decode_term_def assms(1) by (simp split: res.split)
qed

lemma reconstruct_no_panic:
  assumes "xe_objects e = ob" and "codec_ok (xe_json e)" and "inv_layout (xe_json e) (contents st)"
  shows "fst (reconstruct e st ts w) \<noteq> Panic"
proof (induction ts arbitrary: w)
  case (Cons t ts)
  then show ?case
    using decode_term_no_panic [OF assms, of t w]
    by (cases "decode_term e st t w") (auto split: res.splits)
qed simp

lemma materialize_no_panic:
  assumes "xe_objects e = ob" and "env_ok e" and "inv_layout (xe_json e) (contents st)"
  shows "fst (materialize e k repo r st bs) \<noteq> Panic"
proof -
  have "fst (reconstruct e st (fr_Terms r) []) \<noteq> Panic"
    using reconstruct_no_panic assms by (auto simp: env_ok_def)
  with assms(2) show ?thesis
    by (cases "reconstruct e st (fr_Terms r) []") (auto simp: materialize_def env_ok_def split: res.splits)
qed

lemma PutFile_no_panic: "fst (PutFile jc ob r s) \<noteq> Panic"
  using no_panic(3) by (auto simp: PutFile_def split: res.splits prod.splits) (metis fst_conv)+

lemma write_pointers_no_panic: "fst (write_pointers ob key cs s) \<noteq> Panic"
proof (induction cs arbitrary: s)
  case (Cons c cs)
  then show ?case
    using no_panic(3) [of "chunkIndexKey c" "to_bytes key" s]
    by (cases "ob_write ob (chunkIndexKey c) (to_bytes key) s") (auto split: res.splits)
qed simp

lemma PutDedupShard_no_panic: "fst (PutDedupShard sha256 ob b cs s) \<noteq> Panic"
  using no_panic(3) [of "shardKey (hex_encode (sha256 b))" b s] write_pointers_no_panic
  by (cases "ob_write ob (shardKey (hex_encode (sha256 b))) b s")
     (auto simp: PutDedupShard_def Let_def split: res.splits)

lemma PutXorb_no_panic: "fst (PutXorb jc ob h x s) \<noteq> Panic"
  using no_panic(3) by (auto simp: PutXorb_def WalkChunks_def go_res split: res.splits prod.splits)
    (metis fst_conv)+

lemma ingest_files_safe:
  assumes "xe_objects e = ob" and "env_ok e" and "store_inv (xe_json e) sha256 (contents (xs_store s))"
  shows "fst (ingest_files e c repo fs s) \<noteq> Panic \<and>
         store_inv (xe_json e) sha256 (contents (xs_store (snd (ingest_files e c repo fs s))))"
  using assms(3)
proof (induction fs arbitrary: s)
  case Nil
  then show ?case by simp
next
  case (Cons f fs)
  let ?r = "recordFromShardFile f"
  obtain r1 st where p: "PutFile (xe_json e) ob ?r (xs_store s) = (r1, st)"
    by (cases "PutFile (xe_json e) ob ?r (xs_store s)") auto
  have inv: "store_inv (xe_json e) sha256 (contents st)"
    using PutFile_inv [OF Cons.prems, of ?r] p by simp
  then have lay: "inv_layout (xe_json e) (contents st)" by (simp add: store_inv_def)
  obtain r2 bs where m: "materialize e (tc_Kind c) repo ?r st (xs_backend s) = (r2, bs)"
    by (cases "materialize e (tc_Kind c) repo ?r st (xs_backend s)") auto
  have "r1 \<noteq> Panic" "r2 \<noteq> Panic"
    using PutFile_no_panic [of "xe_json e" ?r "xs_store s"] p
      materialize_no_panic [OF assms(1,2) lay, of "tc_Kind c" repo ?r "xs_backend s"] m
    by auto
  with p m inv Cons.IH assms(1) show ?case
    by (cases r1; cases r2) (auto simp: Let_def)
qed

lemma HandleShardUpload_safe:
  assumes "xe_objects e = ob" and "env_ok e"
    and "store_inv (xe_json e) (xe_sha256 e) (contents (xs_store s))"
  shows "fst (HandleShardUpload e now r s) \<noteq> None \<and>
         store_inv (xe_json e) (xe_sha256 e) (contents (xs_store (snd (HandleShardUpload e now r s))))"
proof (cases "verifyBearer e now (cq_Authorization r) ''write''")
  case None
  with assms(3) show ?thesis by (simp add: HandleShardUpload_def)
next
  case (Some c)
  show ?thesis
  proof (cases "ParseRepoID (tc_Repo c)")
    case (Ok repo)
    show ?thesis
    proof (cases "ParseShard (cq_Body r)")
      case (Ok shard)
      obtain r1 s1 where i: "ingest_files e c repo (sh_Files shard) s = (r1, s1)"
        by (cases "ingest_files e c repo (sh_Files shard) s") auto
      let ?cs = "eligible_chunks (sh_Xorbs shard)"
      obtain r2 st where d: "PutDedupShard (xe_sha256 e) ob (cq_Body r) ?cs (xs_store s1) = (r2, st)"
        by (cases "PutDedupShard (xe_sha256 e) ob (cq_Body r) ?cs (xs_store s1)") auto
      have s1: "r1 \<noteq> Panic" "store_inv (xe_json e) (xe_sha256 e) (contents (xs_store s1))"
        using ingest_files_safe [OF assms, of c repo "sh_Files shard"] i by auto
      have "r2 \<noteq> Panic" "store_inv (xe_json e) (xe_sha256 e) (contents st)"
        using PutDedupShard_no_panic [of "xe_sha256 e" "cq_Body r" ?cs "xs_store s1"]
          PutDedupShard_inv [OF s1(2), of "cq_Body r" ?cs] d by auto
      with s1 Some Ok \<open>ParseRepoID (tc_Repo c) = Ok repo\<close> i d assms(1,3) show ?thesis
        by (cases r1; cases r2) (simp_all add: HandleShardUpload_def)
    next
      case (Err er)
      with Some Ok assms(3) show ?thesis by (simp add: HandleShardUpload_def)
    next
      case Panic
      then show ?thesis using ParseShard_never_panics by simp
    qed
  next
    case (Err er)
    with Some assms(3) show ?thesis by (simp add: HandleShardUpload_def)
  qed simp
qed

lemma HandleXorbUpload_safe:
  assumes "xe_objects e = ob"
  shows "fst (HandleXorbUpload e now r s) \<noteq> None"
proof -
  have "fst (PutXorb (xe_json e) ob h x st) \<noteq> Panic" for h x st by (rule PutXorb_no_panic)
  then show ?thesis
    unfolding HandleXorbUpload_def assms
    by (auto split: option.split res.split prod.split) (metis fst_conv)
qed

end

section \<open>Ingest end to end\<close>

text \<open>
  A part of a file as the client split it: the xorb's hash, its chunks (scheme
  and content), its footer, and the chunk range the file uses.
\<close>

type_synonym part = "hash \<times> (nat \<times> byte list) list \<times> byte list \<times> nat \<times> nat"

definition part_xorb :: "(byte list \<Rightarrow> byte list) \<Rightarrow> part \<Rightarrow> byte list" where
  "part_xorb deflate = (\<lambda>(h, ds, foot, i, j). concat (map (ser_chunk \<circ> enc_chunk deflate) ds) @ foot)"

definition part_content :: "part \<Rightarrow> byte list" where
  "part_content = (\<lambda>(h, ds, foot, i, j). concat (map snd (gslice i j ds)))"

definition part_term :: "part \<Rightarrow> TermRecord" where
  "part_term = (\<lambda>(h, ds, foot, i, j).
     \<lparr>tr_Xorb = Hash_Hex h, tr_ChunkStart = int i, tr_ChunkEnd = int j,
      tr_UnpackedLen = int (length (concat (map snd (gslice i j ds))))\<rparr>)"

definition part_ok :: "(byte list \<Rightarrow> byte list) \<Rightarrow> part \<Rightarrow> bool" where
  "part_ok deflate = (\<lambda>(h, ds, foot, i, j).
     is_hash h \<and> (\<forall>d \<in> set ds. chunk_ok (enc_chunk deflate d)) \<and> i < j \<and> j \<le> length ds \<and>
     (foot = [] \<or> at_footer foot))"

lemma stream_enc: "stream (map (enc_chunk deflate) ds) = concat (map (ser_chunk \<circ> enc_chunk deflate) ds)"
  by (simp add: stream_def)

lemma part_term_data:
  assumes law: "\<forall>x. xe_inflate e (deflate x) = (x, True)" and jc: "codec_ok (xe_json e)"
    and ob: "xe_objects e = diskObjects" and rd: "dk_unreadable st = (\<lambda>_. False)"
    and inv: "inv_layout (xe_json e) (disk_contents st)"
    and p: "part_ok deflate p" and x: "disk_contents st (xorbKey (fst p)) = Some (part_xorb deflate p)"
  shows "term_data e st (part_term p) = Some (part_content p)"
proof -
  obtain h ds foot i j where pp: "p = (h, ds, foot, i, j)" by (cases p) auto
  note ok = p [unfolded part_ok_def pp prod.case]
  then have ij: "i < j" "j \<le> length ds" and foot: "foot = [] \<or> at_footer foot"
    and h: "is_hash h" and ds: "\<forall>d \<in> set ds. chunk_ok (enc_chunk deflate d)" by auto
  let ?xorb = "stream (map (enc_chunk deflate) ds) @ foot"
  let ?l = "layout 0 (map (enc_chunk deflate) ds)"
  have "ds \<noteq> []" using ij by auto
  then have w: "WalkChunks ?xorb = Ok ?l"
    using WalkChunks_ser [of "map (enc_chunk deflate) ds" foot] ds foot by (simp add: stream_def)
  have xo: "disk_contents st (xorbKey h) = Some ?xorb"
    using x by (simp add: pp part_xorb_def stream_enc)
  then obtain cs where "WalkChunks ?xorb = Ok cs"
    "disk_contents st (chunksKey h) = Some (enc_layout (xe_json e) cs)"
    using inv h unfolding inv_layout_def by blast
  then have lay: "XorbChunks (xe_json e) diskObjects h st = Ok ?l"
    using w jc rd by (simp add: XorbChunks_def disk_read_contents codec_ok_def)
  have rx: "ReadXorb diskObjects h st = Ok ?xorb"
    using xo rd by (simp add: ReadXorb_def disk_read_contents)
  have dec: "DecodeChunkRange (xe_inflate e) ?xorb ?l (int i) (int j) []
      = (Ok (), [] @ concat (map snd (gslice i j ds)))"
    by (rule decode_range_enc [where deflate = deflate, OF law ds ij])
  show ?thesis
    using ParseHex_Hex [OF h] rx lay dec ob
    by (simp add: term_data_def decode_term_def part_term_def part_content_def pp)
qed

lemma parts_reconstruct:
  assumes "\<forall>x. xe_inflate e (deflate x) = (x, True)" and "codec_ok (xe_json e)"
    and "xe_objects e = diskObjects" and "dk_unreadable st = (\<lambda>_. False)"
    and "inv_layout (xe_json e) (disk_contents st)"
    and "\<forall>p \<in> set ps. part_ok deflate p \<and> disk_contents st (xorbKey (fst p)) = Some (part_xorb deflate p)"
  shows "reconstruct e st (map part_term ps) [] = (Ok (), concat (map part_content ps))"
proof -
  have d: "term_data e st (part_term p) = Some (part_content p)" if "p \<in> set ps" for p
    using part_term_data [where deflate = deflate, OF assms(1-5)] assms(6) that by blast
  then have "map (\<lambda>p. the (term_data e st (part_term p))) ps = map part_content ps"
    by (intro map_cong) auto
  then have "concat (map (\<lambda>t. the (term_data e st t)) (map part_term ps)) = concat (map part_content ps)"
    by (simp only: map_map comp_def)
  moreover have "\<forall>t \<in> set (map part_term ps). term_data e st t \<noteq> None"
    using d by fastforce
  ultimately show ?thesis
    unfolding reconstruct_Ok_iff by simp
qed

section \<open>A concrete service for the witnesses\<close>

definition demo_claims :: tokenClaims where
  "demo_claims = \<lparr>tc_Scope = ''write'', tc_Kind = RepoKindModel, tc_Repo = ''org/m'', tc_User = ''ann'',
                  tc_Exp = 3600\<rparr>"

definition demo_env :: "(disk, byte list option) xet_env" where
  "demo_env = \<lparr>xe_json = unary_codec, xe_claims_enc = \<lambda>_. [1], xe_claims_dec = \<lambda>_. Some demo_claims,
     xe_mac = \<lambda>s. [of_nat (length s)], xe_sha256 = \<lambda>b. replicate 32 (of_nat (length b)),
     xe_inflate = \<lambda>b. (b, True), xe_objects = diskObjects,
     xe_has_blob = \<lambda>k r sha s. s \<noteq> None,
     xe_put_blob = \<lambda>k r sha n (b, er) s.
       (case er of None \<Rightarrow> (Ok (), Some b) | Some x \<Rightarrow> (Err x, s))\<rparr>"

definition demo_auth :: string where
  "demo_auth = ''Bearer sxet1.AQ.02''"

lemma demo_verify: "verifyBearer demo_env 0 demo_auth need = Some demo_claims"
proof -
  have "verifyBearer demo_env 0 demo_auth ''write'' = Some demo_claims" by code_simp
  then show ?thesis
    by (auto simp: verifyBearer_def demo_claims_def split: option.splits list.splits if_splits)
qed

lemma demo_env_ok: "env_ok demo_env"
  by (auto simp: env_ok_def demo_env_def codec_ok_unary split: option.splits)

definition demo_xh :: hash where "demo_xh = replicate 32 1"
definition demo_fh :: hash where "demo_fh = replicate 32 2"

definition demo_part :: part where
  "demo_part = (demo_xh, [(0, [5, 6, 7])], [], 0, 1)"

definition demo_record :: FileRecord where
  "demo_record = \<lparr>fr_FileHash = Hash_Hex demo_fh, fr_SHA256 = ''ab'', fr_TotalLen = 3,
                  fr_Terms = [part_term demo_part]\<rparr>"

definition demo_bad_file :: ShardFile where
  "demo_bad_file = \<lparr>sf_FileHash = demo_fh, sf_SHA256 = zero_hash,
     sf_Terms = [\<lparr>tm_XorbHash = demo_xh, tm_UnpackedLen = Suc 0, tm_ChunkStart = 0, tm_ChunkEnd = 0\<rparr>]\<rparr>"

definition demo_layout :: "ChunkInfo list" where
  "demo_layout = [\<lparr>ck_Start = 0, ck_End = 11, ck_UnpackedLen = 3, ck_Scheme = 0\<rparr>]"

definition demo_disk :: "FileRecord \<Rightarrow> disk" where
  "demo_disk r = \<lparr>dk_files = (\<lambda>_. None)(ObjFile (xorbKey demo_xh) \<mapsto> part_xorb (\<lambda>x. x) demo_part,
       ObjFile (chunksKey demo_xh) \<mapsto> enc_layout unary_codec demo_layout,
       ObjFile (fileKey demo_fh) \<mapsto> enc_record unary_codec r),
     dk_next = 0, dk_faults = [], dk_unreadable = \<lambda>_. False\<rparr>"

definition demo_state :: "FileRecord \<Rightarrow> (disk, byte list option) xet_state" where
  "demo_state r = \<lparr>xs_store = demo_disk r, xs_backend = None, xs_audit = [], xs_dedup = []\<rparr>"

definition demo_request :: "string \<Rightarrow> cas_request" where
  "demo_request rng = \<lparr>cq_Authorization = demo_auth, cq_Prefix = ''default'', cq_Hash = Hash_Hex demo_fh,
     cq_Range = rng, cq_Body = [1], cq_TLS = False, cq_ForwardedProto = [], cq_Host = ''h''\<rparr>"

lemma demo_hashes: "is_hash demo_xh" "is_hash demo_fh" "demo_xh \<noteq> demo_fh"
  by (simp_all add: is_hash_def demo_xh_def demo_fh_def)

lemma demo_walk: "WalkChunks (part_xorb (\<lambda>x. x) demo_part) = Ok demo_layout"
  using WalkChunks_ser [of "[(0, 3, [5, 6, 7])]" "[]"]
  by (simp add: part_xorb_def demo_part_def demo_layout_def enc_chunk_def chunk_ok_def maxChunkSize_def
      numeral_3_eq_3)

lemma demo_contents:
  "disk_contents (demo_disk r) (xorbKey demo_xh) = Some (part_xorb (\<lambda>x. x) demo_part)"
  "disk_contents (demo_disk r) (chunksKey demo_xh) = Some (enc_layout unary_codec demo_layout)"
  "disk_contents (demo_disk r) (fileKey demo_fh) = Some (enc_record unary_codec r)"
  "dk_unreadable (demo_disk r) = (\<lambda>_. False)"
  by (simp_all add: disk_contents_def demo_disk_def)

lemma demo_xorb_only:
  "is_hash h \<Longrightarrow> disk_contents (demo_disk r) (xorbKey h) = Some x \<Longrightarrow> h = demo_xh"
  using demo_hashes by (auto simp: disk_contents_def demo_disk_def key_inj split: if_splits)

lemma demo_inv: "inv_layout unary_codec (disk_contents (demo_disk r))"
  unfolding inv_layout_def using demo_xorb_only demo_contents demo_walk by fastforce

lemma demo_part_ok:
  "part_ok (\<lambda>x. x) demo_part" "disk_contents (demo_disk r) (xorbKey (fst demo_part)) = Some (part_xorb (\<lambda>x. x) demo_part)"
  using demo_hashes demo_contents(1)
  by (simp_all add: part_ok_def demo_part_def chunk_ok_def enc_chunk_def maxChunkSize_def)

lemma demo_env_simps [simp]:
  "xe_inflate demo_env = (\<lambda>b. (b, True))" "xe_json demo_env = unary_codec"
  "xe_objects demo_env = diskObjects"
  by (simp_all add: demo_env_def)

lemma demo_reconstruct:
  "reconstruct demo_env (demo_disk r) [part_term demo_part] [] = (Ok (), [5, 6, 7])"
  using parts_reconstruct [where e = demo_env and deflate = "\<lambda>x. x" and st = "demo_disk r"
      and ps = "[demo_part]"] codec_ok_unary demo_inv demo_contents(4) demo_part_ok
  by (simp add: part_content_def demo_part_def gslice_def)

lemma demo_file: "Store_File unary_codec diskObjects demo_fh (demo_disk r) = Ok r"
  using demo_contents(3,4) codec_ok_unary
  by (simp add: Store_File_def disk_read_contents codec_ok_def)

lemma demo_chunks: "XorbChunks unary_codec diskObjects demo_xh (demo_disk r) = Ok demo_layout"
  using demo_contents(2,4) codec_ok_unary
  by (simp add: XorbChunks_def disk_read_contents codec_ok_def)

section \<open>Properties\<close>

text \<open>
  C32. A minted token is accepted with exactly its claims until its expiry and
  never after it, and a read token is refused where write is needed: this
  characterises \<open>verifyBearer\<close> on every minted token, at every later time and
  for every required scope.
\<close>

theorem verifyBearer_MintToken:
  assumes "\<forall>c. xe_claims_dec e (xe_claims_enc e c) = Some c"
  shows "verifyBearer e now' (''Bearer '' @ fst (MintToken e now scope kind repo user)) need =
    (if now' > now + tokenTTL \<or> need = ''write'' \<and> scope \<noteq> ''write'' then None
     else Some \<lparr>tc_Scope = scope, tc_Kind = kind, tc_Repo = repo_string repo, tc_User = user,
                tc_Exp = now + tokenTTL\<rparr>)"
  using assms by (intro verify_MintToken) (simp add: claims_ok_def)

text \<open>A claims codec for the witness: the fields as unary numbers.\<close>

definition claims_nats :: "tokenClaims \<Rightarrow> nat list" where
  "claims_nats c = string_nats (tc_Scope c) @ string_nats (tc_Repo c) @ string_nats (tc_User c)
     @ int_nats (tc_Exp c)
     @ [case tc_Kind c of RepoKindNone \<Rightarrow> 0 | RepoKindModel \<Rightarrow> 1 | RepoKindDataset \<Rightarrow> 2]"

definition nats_claims :: "nat list \<Rightarrow> tokenClaims option" where
  "nats_claims ns =
     (let (sc, r1) = take_string ns; (rp, r2) = take_string r1; (us, r3) = take_string r2 in
      case r3 of
        [a, b, k] \<Rightarrow> Some \<lparr>tc_Scope = sc,
          tc_Kind = (if k = 0 then RepoKindNone else if k = 1 then RepoKindModel else RepoKindDataset),
          tc_Repo = rp, tc_User = us, tc_Exp = int a - int b\<rparr>
      | _ \<Rightarrow> None)"

definition claims_env :: "(disk, byte list option) xet_env" where
  "claims_env = demo_env\<lparr>xe_claims_enc := enc_nats \<circ> claims_nats,
                         xe_claims_dec := nats_claims \<circ> dec_nats 0\<rparr>"

lemma claims_env_ok: "xe_claims_dec claims_env (xe_claims_enc claims_env c) = Some c"
  by (cases "tc_Kind c")
     (auto simp: claims_env_def dec_enc_nats claims_nats_def nats_claims_def take_string_nats
       int_nats_def Let_def)

theorem verifyBearer_MintToken_witness:
  "verifyBearer claims_env 3700 (''Bearer '' @ fst (MintToken claims_env 0 ''write'' RepoKindModel
       \<lparr>Owner = ''org'', Name = ''m''\<rparr> ''ann'')) ''read'' = None"
  using verifyBearer_MintToken [of claims_env 3700 0 "''write''" RepoKindModel
      "\<lparr>Owner = ''org'', Name = ''m''\<rparr>" "''ann''" "''read''"] claims_env_ok
  by (simp add: tokenTTL_def)

text \<open>
  Bearer tokens and data URLs share one signing key without confusion:
  every accepted bearer token signs a payload without a dot, every data URL
  payload contains one, and two data URL payloads agree only for the same xorb
  and the same expiry, so no signature is valid for another purpose, another
  xorb or a later time.
\<close>

theorem signature_domains:
  assumes "verifyBearer e now auth need = Some c"
  shows "\<exists>body. auth = ''Bearer sxet1.'' @ body @ ''.'' @ xet_sign e body \<and>
                (\<forall>x n. body \<noteq> data_payload x n) \<and>
                (\<forall>x n y m. data_payload x n = data_payload y m \<longleftrightarrow> x = y \<and> n = m)"
proof -
  obtain body where b: "auth = ''Bearer sxet1.'' @ body @ ''.'' @ xet_sign e body"
    "CHR ''.'' \<notin> set body"
    using verifyBearer_shape [OF assms] by blast
  moreover have "CHR ''.'' \<in> set (data_payload x n)" for x n by (simp add: data_payload_def)
  ultimately show ?thesis using data_payload_inj by blast
qed

theorem signature_domains_witness:
  "\<exists>body. demo_auth = ''Bearer sxet1.'' @ body @ ''.'' @ xet_sign demo_env body \<and>
          (\<forall>x n. body \<noteq> data_payload x n)"
  using signature_domains [OF demo_verify] by blast

text \<open>
  \<open>parseByteRange\<close> is exact: an accepted header always names a non-empty
  range inside the file, a closed range that starts inside the file is accepted
  and clipped to the last byte, and one that starts at or beyond the end, or is
  reversed, is refused.
\<close>

theorem parseByteRange_exact:
  "(\<forall>a b. parseByteRange h n = Some (a, b) \<longrightarrow> 0 \<le> a \<and> a \<le> b \<and> b < n) \<and>
   (\<forall>a b. 0 \<le> a \<longrightarrow> a < 2 ^ 63 \<longrightarrow> 0 \<le> b \<longrightarrow> b < 2 ^ 63 \<longrightarrow>
      parseByteRange (''bytes='' @ format_int a @ ''-'' @ format_int b) n =
        (if a \<le> b \<and> a < n then Some (a, min b (n - 1)) else None))"
proof (intro conjI allI impI)
  show "0 \<le> a" "a \<le> b" "b < n" if "parseByteRange h n = Some (a, b)" for a b
    using parseByteRange_bounds [OF that] by auto
  show "parseByteRange (''bytes='' @ format_int a @ ''-'' @ format_int b) n =
        (if a \<le> b \<and> a < n then Some (a, min b (n - 1)) else None)"
    if "0 \<le> a" "a < 2 ^ 63" "0 \<le> b" "b < 2 ^ 63" for a b
    using that by (rule parseByteRange_format)
qed

theorem parseByteRange_exact_witness:
  "parseByteRange (''bytes='' @ format_int 3 @ ''-'' @ format_int 99) 10 = Some (3, 9)"
  using parseByteRange_exact by simp

text \<open>
  C33. The reconstruction plan is right. For a stored file whose terms decode,
  the answer to a range request selects terms whose decoded concatenation,
  after the offset it reports, starts with exactly the requested bytes of the
  file; the fetch information of every xorb covers exactly the chunk range of
  its selected terms; an unsatisfiable range is answered 416. The handler
  never indexes out of range on such a file.
\<close>

theorem HandleReconstruction_correct:
  assumes "verifyBearer e now (cq_Authorization r) ''read'' = Some c"
    and "ParseHex (cq_Hash r) = Ok fh"
    and "Store_File (xe_json e) (xe_objects e) fh (xs_store s) = Ok rec"
    and "reconstruct e (xs_store s) (fr_Terms rec) [] = (Ok (), file)" and "file \<noteq> []"
    and "\<forall>t \<in> set (fr_Terms rec). \<forall>d. term_data e (xs_store s) t = Some d \<longrightarrow>
           int (length d) = tr_UnpackedLen t"
    and "fr_TotalLen rec = sum_list (map tr_UnpackedLen (fr_Terms rec))"
  shows "case (if cq_Range r \<noteq> [] then parseByteRange (cq_Range r) (int (length file))
               else Some (0, int (length file) - 1)) of
           None \<Rightarrow> HandleReconstruction e now r s = Some (CasError 416)
         | Some (start, stop) \<Rightarrow>
             (\<exists>resp ts w. HandleReconstruction e now r s = Some (Reconstruction resp) \<and>
                rr_Terms resp = map resp_term ts \<and>
                reconstruct e (xs_store s) ts [] = (Ok (), w) \<and> 0 \<le> rr_Offset resp \<and>
                take (nat (stop + 1 - start)) (drop (nat (rr_Offset resp)) w)
                  = gslice (nat start) (nat (stop + 1)) file \<and>
                (\<forall>x. rr_Fetch resp x =
                   map (resp_fetch (term_layout e (xs_store s)) (signedDataURL e now (requestBaseURL r)))
                     (filter (\<lambda>t. tr_Xorb t = x) ts)))"
proof -
  have n: "fr_TotalLen rec = int (length file)"
    using reconstructed_length [OF assms(4,6)] assms(7) by simp
  let ?want = "if cq_Range r \<noteq> [] then parseByteRange (cq_Range r) (int (length file))
               else Some (0, int (length file) - 1)"
  let ?url = "signedDataURL e now (requestBaseURL r)"
  show ?thesis
  proof (cases ?want)
    case None
    with assms(1-3) n show ?thesis
      by (simp only: HandleReconstruction_def option.case res.case)
  next
    case (Some ab)
    obtain start stop where ab: "ab = (start, stop)" by (cases ab) auto
    with Some assms(5) have rng: "0 \<le> start" "start \<le> stop" "start < int (length file)"
      using parseByteRange_bounds [of "cq_Range r" "int (length file)" start stop]
      by (auto split: if_splits)
    from plan_correct [OF assms(4,6) rng, of ?url] obtain resp us w where
      p: "plan_terms (term_layout e (xs_store s)) ?url start stop 0 (fr_Terms rec) empty_response = Ok resp"
      "rr_Terms resp \<noteq> []" and
      q: "rr_Terms resp = map resp_term us" "reconstruct e (xs_store s) us [] = (Ok (), w)"
      "0 \<le> rr_Offset resp" "take (nat (stop + 1 - start)) (drop (nat (rr_Offset resp)) w)
             = gslice (nat start) (nat (stop + 1)) file"
      "\<forall>x. rr_Fetch resp x = map (resp_fetch (term_layout e (xs_store s)) ?url) (filter (\<lambda>t. tr_Xorb t = x) us)"
      by blast
    have "HandleReconstruction e now r s = Some (Reconstruction resp)"
      using assms(1-3) n Some ab p
      by (simp only: HandleReconstruction_def option.case res.case prod.case if_False)
    with q Some ab show ?thesis by auto
  qed
qed

theorem HandleReconstruction_correct_witness:
  "\<exists>resp. HandleReconstruction demo_env 0 (demo_request ''bytes=1-1'') (demo_state demo_record)
            = Some (Reconstruction resp)"
proof -
  let ?r = "demo_request ''bytes=1-1''" and ?s = "demo_state demo_record"
  have p: "parseByteRange ''bytes=1-1'' (int (length [5, 6, 7 :: byte])) = Some (1, 1)"
    by (simp add: parseByteRange_def) code_simp
  have d: "\<forall>d. term_data demo_env (demo_disk demo_record) (part_term demo_part) = Some d \<longrightarrow>
      int (length d) = tr_UnpackedLen (part_term demo_part)"
    using demo_reconstruct [of demo_record]
    by (auto simp: reconstruct_Ok_Cons part_term_def demo_part_def gslice_def simp del: reconstruct.simps(2))
  have r: "verifyBearer demo_env 0 (cq_Authorization ?r) ''read'' = Some demo_claims"
    "ParseHex (cq_Hash ?r) = Ok demo_fh" "cq_Range ?r = ''bytes=1-1''"
    using demo_verify ParseHex_Hex [OF demo_hashes(2)] by (simp_all add: demo_request_def)
  have st: "xs_store ?s = demo_disk demo_record" by (simp add: demo_state_def)
  have f: "Store_File (xe_json demo_env) (xe_objects demo_env) demo_fh (xs_store ?s) = Ok demo_record"
    using demo_file by (simp add: st)
  have t: "fr_Terms demo_record = [part_term demo_part]" by (simp add: demo_record_def)
  note main = HandleReconstruction_correct [OF r(1,2) f, of "[5, 6, 7]"]
  have "(if cq_Range ?r \<noteq> [] then parseByteRange (cq_Range ?r) (int (length [5, 6, 7 :: byte]))
         else Some (0, int (length [5, 6, 7 :: byte]) - 1)) = Some (1, 1)"
    unfolding r(3) p by simp
  note main = main [unfolded this option.case prod.case]
  have "reconstruct demo_env (xs_store ?s) (fr_Terms demo_record) [] = (Ok (), [5, 6, 7])"
    unfolding st t by (rule demo_reconstruct)
  moreover have "\<forall>t \<in> set (fr_Terms demo_record). \<forall>d. term_data demo_env (xs_store ?s) t = Some d \<longrightarrow>
      int (length d) = tr_UnpackedLen t"
    using d by (simp add: st t)
  moreover have "fr_TotalLen demo_record = sum_list (map tr_UnpackedLen (fr_Terms demo_record))"
    by (simp add: demo_record_def part_term_def demo_part_def gslice_def)
  ultimately show ?thesis using main by blast
qed



text \<open>
  C5. What reaches the routed backend is exactly the file the client split:
  for every file whose parts were uploaded as xorbs (any chunking, any mix of
  compression schemes, any ranges), materialization streams the concatenation
  of the parts' original contents with a clean end, under the declared length.
\<close>

theorem materialize_exact:
  assumes "\<forall>x. xe_inflate e (deflate x) = (x, True)" and "codec_ok (xe_json e)"
    and "xe_objects e = diskObjects" and "dk_unreadable st = (\<lambda>_. False)"
    and "inv_layout (xe_json e) (disk_contents st)"
    and "\<forall>p \<in> set ps. part_ok deflate p \<and> disk_contents st (xorbKey (fst p)) = Some (part_xorb deflate p)"
    and "fr_Terms rec = map part_term ps" and "fr_SHA256 rec \<noteq> []"
    and "\<not> xe_has_blob e kind repo (fr_SHA256 rec) bs"
  shows "materialize e kind repo rec st bs
           = xe_put_blob e kind repo (fr_SHA256 rec) (fr_TotalLen rec) (concat (map part_content ps), None) bs"
  using parts_reconstruct [where deflate = deflate, OF assms(1-6)] assms(7-9)
  by (simp add: materialize_def)

theorem materialize_exact_witness:
  "materialize demo_env RepoKindModel \<lparr>Owner = ''org'', Name = ''m''\<rparr> demo_record (demo_disk demo_record) None
     = (Ok (), Some [5, 6, 7])"
  using materialize_exact [where e = demo_env and deflate = "\<lambda>x. x" and st = "demo_disk demo_record"
      and ps = "[demo_part]" and rec = demo_record and bs = None and kind = RepoKindModel
      and repo = "\<lparr>Owner = ''org'', Name = ''m''\<rparr>"]
    codec_ok_unary demo_inv demo_contents(4) demo_part_ok
  by (simp add: demo_record_def demo_env_def part_content_def demo_part_def gslice_def)

text \<open>
  C35. \<open>HandleReconstruction\<close> panics on a file the server itself accepted: a
  shard file without a SHA-256 is recorded without being decoded, and when its
  term has an empty chunk range at 0 the handler evaluates the index
  \<open>ChunkEnd - 1 = -1\<close>, because it only checks that \<open>ChunkEnd\<close> does not exceed
  the layout.
\<close>

theorem HandleReconstruction_panics:
  assumes "verifyBearer e now (cq_Authorization r) ''read'' = Some c"
    and "ParseHex (cq_Hash r) = Ok fh"
    and "Store_File (xe_json e) (xe_objects e) fh (xs_store s) = Ok (recordFromShardFile f)"
    and "sf_Terms f = [\<lparr>tm_XorbHash = xh, tm_UnpackedLen = Suc n, tm_ChunkStart = 0, tm_ChunkEnd = 0\<rparr>]"
    and "is_hash xh" and "XorbChunks (xe_json e) (xe_objects e) xh (xs_store s) = Ok cs" and "cs \<noteq> []"
    and "cq_Range r = []" and "Hash_IsZero (sf_SHA256 f)"
  shows "materialize e kind repo (recordFromShardFile f) (xs_store s) bs = (Ok (), bs) \<and>
         HandleReconstruction e now r s = None"
proof -
  have "term_layout e (xs_store s) (Hash_Hex xh) = Ok cs"
    using assms(5,6) by (simp add: term_layout_def ParseHex_Hex)
  with assms show ?thesis
    by (simp add: HandleReconstruction_def materialize_def recordFromShardFile_def Let_def
        go_int_index_def go_index_def)
qed

theorem HandleReconstruction_panics_witness:
  "HandleReconstruction demo_env 0 (demo_request []) (demo_state (recordFromShardFile demo_bad_file)) = None"
  using HandleReconstruction_panics [of demo_env 0 "demo_request []" demo_claims demo_fh
      "demo_state (recordFromShardFile demo_bad_file)" demo_bad_file demo_xh 0 demo_layout]
    demo_verify [of "''read''"] demo_file demo_chunks ParseHex_Hex [OF demo_hashes(2)] demo_hashes(1)
  by (simp add: demo_request_def demo_state_def demo_bad_file_def demo_layout_def Hash_IsZero_def)

end
