(* ===== verification/Replication.thy ===== *)
theory Replication
  imports Backend "HOL-Library.AList" "HOL-Library.Multiset"
begin

text \<open>
  Package internal/replication: the disk-spooled retry queue that copies
  commits to replica backends (replication.go). The queue's state is a record,
  each operation a function on it; the goroutine of \<open>Run\<close>, the workers and
  process crashes are the steps of \<open>q_step\<close>.

  A Go map is an association list in an arbitrary iteration order; where the
  code iterates over one, the order is an argument. Times and durations are
  nanoseconds. JSON (encoding/json) is a codec argument whose law is
  \<open>job_codec_ok\<close>; job ids come from the clock and crypto/rand and are
  arguments. File-system calls that may fail take the failure as an argument.
\<close>

section \<open>Jobs\<close>

record Job =
  job_ID :: string
  job_Action :: string
  job_Kind :: repo_kind
  job_Repo :: string
  job_CommitSHA :: string
  job_Refs :: "(string \<times> string) list"
  job_Source :: string
  job_Target :: string
  job_CreatedAt :: int
  job_Attempts :: nat
  job_LastError :: string
  job_NextTry :: int

definition ActionCommit :: string where
  "ActionCommit = ''commit''"

definition ActionDeleteRepo :: string where
  "ActionDeleteRepo = ''delete_repo''"

definition groupKey :: "Job \<Rightarrow> string" where
  "groupKey j = job_Target j @ ''|'' @ kind_string (job_Kind j) @ ''|'' @ job_Repo j"

text \<open>The part of a job no operation changes: what is to be copied where.\<close>

definition job_work :: "Job \<Rightarrow> Job" where
  "job_work j = j\<lparr>job_Attempts := 0, job_LastError := [], job_NextTry := 0\<rparr>"

lemma job_work_fields [simp]:
  "job_work (j\<lparr>job_NextTry := t\<rparr>) = job_work j"
  "job_work (j\<lparr>job_Attempts := n, job_LastError := e, job_NextTry := t\<rparr>) = job_work j"
  "job_work (job_work j) = job_work j"
  by (simp_all add: job_work_def)

lemma job_work_eqD:
  "job_work i = job_work j \<Longrightarrow>
     job_ID i = job_ID j \<and> groupKey i = groupKey j \<and> job_CreatedAt i = job_CreatedAt j
     \<and> job_Action i = job_Action j \<and> job_CommitSHA i = job_CommitSHA j \<and> job_Refs i = job_Refs j"
  by (cases i, cases j) (simp add: job_work_def groupKey_def)

section \<open>The queue and its spool directory\<close>

text \<open>A directory entry of the spool: a regular file with its content, or a directory.\<close>

datatype 'c spool_entry = SpoolFile 'c | SpoolDir

type_synonym 'c spool = "(string \<times> 'c spool_entry) list"

record 'c job_codec =
  enc_job :: "Job \<Rightarrow> 'c"
  dec_job :: "'c \<Rightarrow> Job option"

definition job_codec_ok :: "'c job_codec \<Rightarrow> bool" where
  "job_codec_ok jc \<longleftrightarrow> (\<forall>j. dec_job jc (enc_job jc j) = Some j)"

record ('w, 'c) Queue =
  q_backends :: "string \<Rightarrow> 'w Backend option"
  q_workers :: nat
  q_maxBackoff :: int
  q_jobs :: "(string \<times> Job) list"
  q_inflight :: "string set"
  q_spool :: "'c spool"
  q_wake :: bool

datatype queue_error =
  NoSpoolDir | SpoolingJob | RenamingJob

definition second :: int where
  "second = 1000000000"

text \<open>\<open>filepath.Ext\<close>: the suffix from the last dot, empty without one.\<close>

definition filepath_Ext :: "string \<Rightarrow> string" where
  "filepath_Ext name =
     (if CHR ''.'' \<in> set name then CHR ''.'' # rev (takeWhile (\<lambda>c. c \<noteq> CHR ''.'') (rev name))
      else [])"

text \<open>
  \<open>loadSpool\<close>: the entries in \<open>os.ReadDir\<close>'s order (by name); \<open>readable\<close> says
  for which names \<open>os.ReadFile\<close> succeeds.
\<close>

fun load_entries ::
  "'c job_codec \<Rightarrow> (string \<Rightarrow> bool) \<Rightarrow> int \<Rightarrow> 'c spool \<Rightarrow> (string \<times> Job) list \<Rightarrow> (string \<times> Job) list" where
  "load_entries jc readable now [] jobs = jobs"
| "load_entries jc readable now ((name, e) # es) jobs =
     (case e of
        SpoolDir \<Rightarrow> load_entries jc readable now es jobs
      | SpoolFile c \<Rightarrow>
          if filepath_Ext name \<noteq> ''.json'' then load_entries jc readable now es jobs
          else if \<not> readable name then load_entries jc readable now es jobs
          else
            (case dec_job jc c of
               None \<Rightarrow> load_entries jc readable now es jobs
             | Some job \<Rightarrow>
                 load_entries jc readable now es
                   (AList.update (job_ID job) (job\<lparr>job_NextTry := now\<rparr>) jobs)))"

definition loadSpool ::
  "'c job_codec \<Rightarrow> (string \<Rightarrow> bool) \<Rightarrow> int \<Rightarrow> ('w, 'c) Queue \<Rightarrow> ('w, 'c) Queue" where
  "loadSpool jc readable now q =
     q\<lparr>q_jobs := load_entries jc readable now (sort_key fst (q_spool q)) (q_jobs q)\<rparr>"

text \<open>\<open>New\<close> on an existing spool directory; \<open>dir\<close> is \<open>opts.SpoolDir\<close>.\<close>

definition Queue_New ::
  "'c job_codec \<Rightarrow> (string \<Rightarrow> bool) \<Rightarrow> int \<Rightarrow> string \<Rightarrow> (string \<Rightarrow> 'w Backend option) \<Rightarrow> int \<Rightarrow> int
   \<Rightarrow> 'c spool \<Rightarrow> (queue_error, ('w, 'c) Queue) res" where
  "Queue_New jc readable now dir backends workers maxBackoff spool =
     (if dir = [] then Err NoSpoolDir
      else Ok (loadSpool jc readable now
        \<lparr>q_backends = backends,
         q_workers = (if workers \<le> 0 then 4 else nat workers),
         q_maxBackoff = (if maxBackoff \<le> 0 then 300 * second else maxBackoff),
         q_jobs = [], q_inflight = {}, q_spool = spool, q_wake = False\<rparr>))"

text \<open>
  \<open>persist\<close>: a temporary file, then a rename. A failed write leaves nothing or
  a partial temporary file, a failed rename the whole one.
\<close>

datatype 'c persist_outcome = PersistOK | WriteFails "'c option" | RenameFails

definition job_file :: "string \<Rightarrow> string" where
  "job_file i = i @ ''.json''"

definition persist ::
  "'c job_codec \<Rightarrow> 'c persist_outcome \<Rightarrow> Job \<Rightarrow> 'c spool \<Rightarrow> (queue_error, unit) res \<times> 'c spool" where
  "persist jc out job sp =
     (let path = job_file (job_ID job); tmp = path @ ''.tmp'' in
      case out of
        WriteFails None \<Rightarrow> (Err SpoolingJob, sp)
      | WriteFails (Some c) \<Rightarrow> (Err SpoolingJob, AList.update tmp (SpoolFile c) sp)
      | RenameFails \<Rightarrow> (Err RenamingJob, AList.update tmp (SpoolFile (enc_job jc job)) sp)
      | PersistOK \<Rightarrow>
          (Ok (), AList.update path (SpoolFile (enc_job jc job)) (AList.delete tmp sp)))"

text \<open>\<open>remove\<close>: a failure is only logged.\<close>

definition remove_job :: "bool \<Rightarrow> Job \<Rightarrow> 'c spool \<Rightarrow> 'c spool" where
  "remove_job fails job sp = (if fails then sp else AList.delete (job_file (job_ID job)) sp)"

section \<open>Enqueueing\<close>

text \<open>
  \<open>enqueue\<close>: one job per target, each persisted before it enters the map; an
  error returns at once and keeps what was enqueued before it. The list holds
  the targets, each with the id \<open>newJobID\<close> draws for it and the outcome of its
  persist.
\<close>

fun enqueue_loop ::
  "'c job_codec \<Rightarrow> repo_kind \<Rightarrow> repo_id \<Rightarrow> string \<Rightarrow> (Job \<Rightarrow> Job) \<Rightarrow> int
   \<Rightarrow> (string \<times> string \<times> 'c persist_outcome) list \<Rightarrow> ('w, 'c) Queue
   \<Rightarrow> (queue_error, unit) res \<times> ('w, 'c) Queue" where
  "enqueue_loop jc kind repo source fill now [] q = (Ok (), q)"
| "enqueue_loop jc kind repo source fill now ((target, i, out) # ts) q =
     (let job = fill \<lparr>job_ID = i, job_Action = [], job_Kind = kind, job_Repo = repo_string repo,
                      job_CommitSHA = [], job_Refs = [], job_Source = source, job_Target = target,
                      job_CreatedAt = now, job_Attempts = 0, job_LastError = [], job_NextTry = now\<rparr>
      in case persist jc out job (q_spool q) of
           (Ok _, sp) \<Rightarrow>
             enqueue_loop jc kind repo source fill now ts
               (q\<lparr>q_spool := sp, q_jobs := AList.update (job_ID job) job (q_jobs q)\<rparr>)
         | (Err e, sp) \<Rightarrow> (Err e, q\<lparr>q_spool := sp\<rparr>)
         | (Panic, sp) \<Rightarrow> (Panic, q\<lparr>q_spool := sp\<rparr>))"

definition enqueue ::
  "'c job_codec \<Rightarrow> repo_kind \<Rightarrow> repo_id \<Rightarrow> string \<Rightarrow> (Job \<Rightarrow> Job) \<Rightarrow> int
   \<Rightarrow> (string \<times> string \<times> 'c persist_outcome) list \<Rightarrow> ('w, 'c) Queue
   \<Rightarrow> (queue_error, unit) res \<times> ('w, 'c) Queue" where
  "enqueue jc kind repo source fill now ts q =
     (if ts = [] then (Ok (), q)
      else case enqueue_loop jc kind repo source fill now ts q of
             (Ok u, q') \<Rightarrow> (Ok u, q'\<lparr>q_wake := True\<rparr>)
           | (Err e, q') \<Rightarrow> (Err e, q')
           | (Panic, q') \<Rightarrow> (Panic, q'))"

definition fill_commit :: "string \<Rightarrow> (string \<times> string) list \<Rightarrow> Job \<Rightarrow> Job" where
  "fill_commit sha refs j = j\<lparr>job_Action := ActionCommit, job_CommitSHA := sha, job_Refs := refs\<rparr>"

definition fill_delete :: "Job \<Rightarrow> Job" where
  "fill_delete j = j\<lparr>job_Action := ActionDeleteRepo\<rparr>"

definition EnqueueCommit where
  "EnqueueCommit jc kind repo source sha refs now ts q =
     enqueue jc kind repo source (fill_commit sha refs) now ts q"

definition EnqueueDeleteRepo where
  "EnqueueDeleteRepo jc kind repo source now ts q = enqueue jc kind repo source fill_delete now ts q"

section \<open>Claiming and finishing\<close>

text \<open>
  \<open>claimDue\<close>, where \<open>js\<close> is the order in which the map is iterated. Go's sort
  is not stable; as \<open>js\<close> is any order, every outcome of it is covered.
\<close>

fun older_of_group :: "Job \<Rightarrow> Job list \<Rightarrow> Job" where
  "older_of_group job [] = job"
| "older_of_group job (c # cs) =
     (if groupKey c = groupKey job \<and> job_CreatedAt c < job_CreatedAt job
      then older_of_group c cs else older_of_group job cs)"

definition claim_candidates :: "Job list \<Rightarrow> int \<Rightarrow> ('w, 'c) Queue \<Rightarrow> Job list" where
  "claim_candidates js now q =
     filter (\<lambda>j. \<not> now < job_NextTry j \<and> groupKey j \<notin> q_inflight q) js"

definition claimDue :: "Job list \<Rightarrow> int \<Rightarrow> ('w, 'c) Queue \<Rightarrow> Job option \<times> ('w, 'c) Queue" where
  "claimDue js now q =
     (case sort_key job_CreatedAt (claim_candidates js now q) of
        [] \<Rightarrow> (None, q)
      | job0 # rest \<Rightarrow>
          (let job = older_of_group job0 rest in
           (Some job, q\<lparr>q_inflight := insert (groupKey job) (q_inflight q)\<rparr>)))"

definition unclaim :: "Job \<Rightarrow> ('w, 'c) Queue \<Rightarrow> ('w, 'c) Queue" where
  "unclaim job q = q\<lparr>q_inflight := q_inflight q - {groupKey job}\<rparr>"

text \<open>\<open>nextDelay\<close>: the loop over the map, in the order \<open>js\<close>.\<close>

fun next_delay_loop :: "string set \<Rightarrow> int \<Rightarrow> Job list \<Rightarrow> int \<Rightarrow> int" where
  "next_delay_loop busy now [] delay = delay"
| "next_delay_loop busy now (j # js) delay =
     (if groupKey j \<in> busy then next_delay_loop busy now js delay
      else let d = job_NextTry j - now in
           next_delay_loop busy now js (if d < delay then max d 10000000 else delay))"

definition nextDelay :: "Job list \<Rightarrow> int \<Rightarrow> ('w, 'c) Queue \<Rightarrow> int" where
  "nextDelay js now q = next_delay_loop (q_inflight q) now js (60 * second)"

definition backoff_of :: "int \<Rightarrow> nat \<Rightarrow> int" where
  "backoff_of maxBackoff attempts = min (2 ^ min attempts 16 * second) maxBackoff"

text \<open>
  The bookkeeping of \<open>execute\<close> after \<open>runJob\<close> returned \<open>err\<close> (\<open>None\<close> is nil).
  \<open>job\<close> is the value behind the pointer; the map holds the same pointer, so
  that the update of the job is an update of the map's entry.
\<close>

definition failed_job :: "int \<Rightarrow> int \<Rightarrow> string \<Rightarrow> Job \<Rightarrow> Job" where
  "failed_job maxBackoff now e job =
     (let n = Suc (job_Attempts job) in
      job\<lparr>job_Attempts := n, job_LastError := e, job_NextTry := now + backoff_of maxBackoff n\<rparr>)"

definition finish_job ::
  "'c job_codec \<Rightarrow> int \<Rightarrow> bool \<Rightarrow> bool \<Rightarrow> 'c persist_outcome \<Rightarrow> Job \<Rightarrow> string option
   \<Rightarrow> ('w, 'c) Queue \<Rightarrow> ('w, 'c) Queue" where
  "finish_job jc now ctxDone removeFails out job err q =
     (let q1 = q\<lparr>q_inflight := q_inflight q - {groupKey job}\<rparr> in
      case err of
        None \<Rightarrow> q1\<lparr>q_jobs := AList.delete (job_ID job) (q_jobs q),
                  q_spool := remove_job removeFails job (q_spool q)\<rparr>
      | Some e \<Rightarrow>
          if ctxDone then q1
          else
            (let job' = failed_job (q_maxBackoff q) now e job in
             q1\<lparr>q_jobs := AList.map_entry (job_ID job) (\<lambda>_. job') (q_jobs q),
                q_spool := snd (persist jc out job' (q_spool q))\<rparr>))"

section \<open>The admin operations\<close>

definition retry_job :: "int \<Rightarrow> Job \<Rightarrow> Job" where
  "retry_job now j = (if now < job_NextTry j then j\<lparr>job_NextTry := now\<rparr> else j)"

definition RetryNow :: "int \<Rightarrow> ('w, 'c) Queue \<Rightarrow> nat \<times> ('w, 'c) Queue" where
  "RetryNow now q =
     (length (filter (\<lambda>(_, j). now < job_NextTry j) (q_jobs q)),
      q\<lparr>q_jobs := map (\<lambda>(i, j). (i, retry_job now j)) (q_jobs q), q_wake := True\<rparr>)"

definition Snapshot :: "Job list \<Rightarrow> Job list" where
  "Snapshot js = sort_key job_CreatedAt js"

definition Depth :: "('w, 'c) Queue \<Rightarrow> nat" where
  "Depth q = length (q_jobs q)"

section \<open>Running a job\<close>

datatype run_error =
  UnknownSource string | UnknownTarget string | BadRepo id_error | DeletingRepo backend_error
| ReadingManifest string backend_error | OpeningBlob string backend_error
| CopyingBlob string backend_error | WritingManifest string backend_error | UnknownAction string

definition copyBlob ::
  "'w Backend \<Rightarrow> 'w Backend \<Rightarrow> repo_kind \<Rightarrow> repo_id \<Rightarrow> FileEntry \<Rightarrow> 'w \<Rightarrow> (run_error, unit) res \<times> 'w" where
  "copyBlob src dst kind repo f w =
     (case bk_OpenBlob src kind repo (fe_Digest f) w of
        Err e \<Rightarrow> (Err (OpeningBlob (fe_Path f) e), w)
      | Panic \<Rightarrow> (Panic, w)
      | Ok content \<Rightarrow>
          (case bk_PutBlob dst kind repo (fe_Digest f) content (fe_Size f) w of
             (Ok u, w') \<Rightarrow> (Ok u, w')
           | (Err e, w') \<Rightarrow> (Err (CopyingBlob (fe_Path f) e), w')
           | (Panic, w') \<Rightarrow> (Panic, w')))"

fun copy_files ::
  "'w Backend \<Rightarrow> 'w Backend \<Rightarrow> repo_kind \<Rightarrow> repo_id \<Rightarrow> FileEntry list \<Rightarrow> 'w
   \<Rightarrow> (run_error, unit) res \<times> 'w" where
  "copy_files src dst kind repo [] w = (Ok (), w)"
| "copy_files src dst kind repo (f # fs) w =
     (if Digest_IsZero (fe_Digest f) then copy_files src dst kind repo fs w
      else case bk_StatBlob dst kind repo (fe_Digest f) w of
             Ok i \<Rightarrow> copy_files src dst kind repo fs w
           | Panic \<Rightarrow> (Panic, w)
           | Err e \<Rightarrow>
               (case copyBlob src dst kind repo f w of
                  (Ok u, w') \<Rightarrow> copy_files src dst kind repo fs w'
                | (Err e, w') \<Rightarrow> (Err e, w')
                | (Panic, w') \<Rightarrow> (Panic, w')))"

definition run_commit ::
  "'w Backend \<Rightarrow> 'w Backend \<Rightarrow> Job \<Rightarrow> repo_id \<Rightarrow> 'w \<Rightarrow> (run_error, unit) res \<times> 'w" where
  "run_commit src dst job repo w =
     (case bk_GetManifest src (job_Kind job) repo (job_CommitSHA job) w of
        Err e \<Rightarrow> (Err (ReadingManifest (job_Source job) e), w)
      | Panic \<Rightarrow> (Panic, w)
      | Ok m \<Rightarrow>
          (case copy_files src dst (job_Kind job) repo (mf_Files m) w of
             (Ok u, w') \<Rightarrow>
               (case bk_PutManifest dst m (job_Refs job) w' of
                  (Ok u, w'') \<Rightarrow> (Ok u, w'')
                | (Err e, w'') \<Rightarrow> (Err (WritingManifest (job_Target job) e), w'')
                | (Panic, w'') \<Rightarrow> (Panic, w''))
           | (Err e, w') \<Rightarrow> (Err e, w')
           | (Panic, w') \<Rightarrow> (Panic, w')))"

definition runJob :: "(string \<Rightarrow> 'w Backend option) \<Rightarrow> Job \<Rightarrow> 'w \<Rightarrow> (run_error, unit) res \<times> 'w" where
  "runJob backends job w =
     (case backends (job_Source job) of
        None \<Rightarrow> (Err (UnknownSource (job_Source job)), w)
      | Some src \<Rightarrow>
          (case backends (job_Target job) of
             None \<Rightarrow> (Err (UnknownTarget (job_Target job)), w)
           | Some dst \<Rightarrow>
               (case ParseRepoID (job_Repo job) of
                  Err e \<Rightarrow> (Err (BadRepo e), w)
                | Panic \<Rightarrow> (Panic, w)
                | Ok repo \<Rightarrow>
                    if job_Action job = ActionDeleteRepo then
                      (case bk_DeleteRepo dst (job_Kind job) repo w of
                         (Ok u, w') \<Rightarrow> (Ok u, w')
                       | (Err e, w') \<Rightarrow>
                           (if e = ErrRepoNotFound then (Ok (), w') else (Err (DeletingRepo e), w'))
                       | (Panic, w') \<Rightarrow> (Panic, w'))
                    else if job_Action job = ActionCommit then run_commit src dst job repo w
                    else (Err (UnknownAction (job_Action job)), w))))"

section \<open>What claiming picks\<close>

lemma older_of_group_sorted:
  "\<forall>c \<in> set cs. job_CreatedAt job \<le> job_CreatedAt c \<Longrightarrow> older_of_group job cs = job"
  by (induction cs) auto

text \<open>The loop over \<open>candidates[1:]\<close> never changes the choice.\<close>

lemma claimDue_alt:
  "claimDue js now q =
     (case sort_key job_CreatedAt (claim_candidates js now q) of
        [] \<Rightarrow> (None, q)
      | job # rest \<Rightarrow> (Some job, q\<lparr>q_inflight := insert (groupKey job) (q_inflight q)\<rparr>))"
proof (cases "sort_key job_CreatedAt (claim_candidates js now q)")
  case Nil
  then show ?thesis by (simp add: claimDue_def)
next
  case (Cons job rest)
  have "sorted (map job_CreatedAt (job # rest))"
    using sorted_sort_key [of job_CreatedAt] Cons by metis
  then have "older_of_group job rest = job"
    by (intro older_of_group_sorted) auto
  with Cons show ?thesis by (simp add: claimDue_def)
qed

lemma claim_candidates_iff:
  "j \<in> set (claim_candidates js now q) \<longleftrightarrow>
     j \<in> set js \<and> job_NextTry j \<le> now \<and> groupKey j \<notin> q_inflight q"
  by (auto simp: claim_candidates_def)

lemma claimDue_Some:
  assumes "claimDue js now q = (Some job, q')"
  shows "job \<in> set (claim_candidates js now q)"
    and "\<forall>c \<in> set (claim_candidates js now q). job_CreatedAt job \<le> job_CreatedAt c"
    and "q' = q\<lparr>q_inflight := insert (groupKey job) (q_inflight q)\<rparr>"
proof -
  let ?s = "sort_key job_CreatedAt (claim_candidates js now q)"
  obtain rest where s: "?s = job # rest" and q': "q' = q\<lparr>q_inflight := insert (groupKey job) (q_inflight q)\<rparr>"
    using assms by (auto simp: claimDue_alt split: list.splits)
  have set: "set ?s = set (claim_candidates js now q)" by simp
  then show "job \<in> set (claim_candidates js now q)" using s by (metis list.set_intros(1))
  have "sorted (map job_CreatedAt ?s)" by (rule sorted_sort_key)
  then show "\<forall>c \<in> set (claim_candidates js now q). job_CreatedAt job \<le> job_CreatedAt c"
    unfolding set [symmetric] s by auto
  show "q' = q\<lparr>q_inflight := insert (groupKey job) (q_inflight q)\<rparr>" by (rule q')
qed

lemma sort_key_Nil_iff: "sort_key f xs = [] \<longleftrightarrow> xs = []"
  by (metis set_empty set_sort)

lemma claimDue_None_iff: "fst (claimDue js now q) = None \<longleftrightarrow> claim_candidates js now q = []"
proof (cases "sort_key job_CreatedAt (claim_candidates js now q)")
  case Nil
  then show ?thesis by (simp add: claimDue_alt sort_key_Nil_iff)
next
  case (Cons job rest)
  then have "claim_candidates js now q \<noteq> []" by auto
  with Cons show ?thesis by (simp add: claimDue_alt)
qed

section \<open>Backoff and wake-up times\<close>

lemma backoff_of_pos: "0 < maxBackoff \<Longrightarrow> 0 < backoff_of maxBackoff n"
  by (simp add: backoff_of_def second_def)

lemma backoff_of_mono:
  assumes "m \<le> n"
  shows "backoff_of maxBackoff m \<le> backoff_of maxBackoff n"
proof -
  have "(2::int) ^ min m 16 \<le> 2 ^ min n 16" using assms by (intro power_increasing) auto
  then show ?thesis unfolding backoff_of_def second_def by (intro min.mono) auto
qed

lemma next_delay_loop_min:
  assumes "10000000 \<le> delay"
  shows "next_delay_loop busy now js delay =
    Min (set (delay # map (\<lambda>j. max (job_NextTry j - now) 10000000)
                        (filter (\<lambda>j. groupKey j \<notin> busy) js)))"
  unfolding Min.set_eq_fold using assms
proof (induction js arbitrary: delay)
  case Nil
  then show ?case by simp
next
  case (Cons j js)
  let ?d = "job_NextTry j - now"
  have "(if ?d < delay then max ?d 10000000 else delay) = min (max ?d 10000000) delay"
    using Cons.prems by auto
  with Cons show ?case by (auto simp: Let_def min_def)
qed

text \<open>
  C37. The wake-up time of \<open>Run\<close> is right: the loop sleeps between ten
  milliseconds and a minute, no idle job stays due for longer than ten
  milliseconds because of the sleep, and when the sleep is shorter than the
  minute the queue has something to claim at its end.
\<close>

theorem nextDelay_wakes:
  "10000000 \<le> nextDelay js now q \<and> nextDelay js now q \<le> 60 * second \<and>
   (\<forall>j \<in> set js. groupKey j \<notin> q_inflight q \<longrightarrow>
      now + nextDelay js now q \<le> max (job_NextTry j) (now + 10000000)) \<and>
   (nextDelay js now q < 60 * second \<longrightarrow> fst (claimDue js (now + nextDelay js now q) q) \<noteq> None)"
proof -
  let ?idle = "filter (\<lambda>j. groupKey j \<notin> q_inflight q) js"
  let ?S = "set (60 * second # map (\<lambda>j. max (job_NextTry j - now) 10000000) ?idle)"
  have d: "nextDelay js now q = Min ?S"
    unfolding nextDelay_def by (rule next_delay_loop_min) (simp add: second_def)
  have lower: "10000000 \<le> nextDelay js now q"
    unfolding d by (subst Min_ge_iff) (auto simp: second_def)
  have le: "nextDelay js now q \<le> x" if "x \<in> ?S" for x
    unfolding d using that by (intro Min_le) auto
  have upper: "now + nextDelay js now q \<le> max (job_NextTry j) (now + 10000000)"
    if "j \<in> set js" "groupKey j \<notin> q_inflight q" for j
    using le [of "max (job_NextTry j - now) 10000000"] that by auto
  have "Min ?S \<in> ?S" by (intro Min_in) auto
  then have wake: "fst (claimDue js (now + nextDelay js now q) q) \<noteq> None"
    if "nextDelay js now q < 60 * second"
  proof -
    from \<open>Min ?S \<in> ?S\<close> that obtain j where j: "j \<in> set js" "groupKey j \<notin> q_inflight q"
      "nextDelay js now q = max (job_NextTry j - now) 10000000"
      unfolding d by auto
    then have "j \<in> set (claim_candidates js (now + nextDelay js now q) q)"
      by (auto simp: claim_candidates_iff)
    then show ?thesis by (auto simp: claimDue_None_iff)
  qed
  show ?thesis using lower upper wake le [of "60 * second"] by auto
qed

definition demo_job :: "string \<Rightarrow> int \<Rightarrow> int \<Rightarrow> Job" where
  "demo_job i created nxt =
     \<lparr>job_ID = i, job_Action = ActionCommit, job_Kind = RepoKindModel, job_Repo = ''org/m'',
      job_CommitSHA = i, job_Refs = [(''main'', i)], job_Source = ''a'', job_Target = ''b'',
      job_CreatedAt = created, job_Attempts = 0, job_LastError = [], job_NextTry = nxt\<rparr>"

lemma groupKey_demo_job [simp]: "groupKey (demo_job i c n) = ''b|model|org/m''"
  by (simp add: demo_job_def groupKey_def)

lemma demo_job_fields [simp]:
  "job_ID (demo_job i c n) = i" "job_CreatedAt (demo_job i c n) = c"
  "job_NextTry (demo_job i c n) = n" "job_Attempts (demo_job i c n) = 0"
  by (simp_all add: demo_job_def)

definition demo_queue :: "(string \<times> Job) list \<Rightarrow> (unit, Job option) Queue" where
  "demo_queue jobs =
     \<lparr>q_backends = (\<lambda>_. None), q_workers = 4, q_maxBackoff = 300 * second, q_jobs = jobs,
      q_inflight = {}, q_spool = [], q_wake = False\<rparr>"

theorem nextDelay_wakes_witness:
  "5000000000 + nextDelay [demo_job ''x'' 1 7000000000] 5000000000 (demo_queue []) \<le> 7000000000"
  using nextDelay_wakes [of "[demo_job ''x'' 1 7000000000]" 5000000000 "demo_queue []"]
  by (simp add: demo_queue_def)

text \<open>
  The retry backoff of a failed job is positive, never above the configured
  maximum, never shorter after a further failure, doubles from two seconds until
  it saturates after 16 attempts, and the duration computed on the way stays
  far below the range of \<open>time.Duration\<close>.
\<close>

theorem backoff_bounds:
  assumes "0 < maxBackoff"
  shows "0 < backoff_of maxBackoff n \<and> backoff_of maxBackoff n \<le> maxBackoff \<and>
         backoff_of maxBackoff n \<le> backoff_of maxBackoff (Suc n) \<and>
         (n < 16 \<and> 2 ^ Suc n * second \<le> maxBackoff \<longrightarrow>
            backoff_of maxBackoff (Suc n) = 2 * backoff_of maxBackoff n) \<and>
         2 ^ min n 16 * second < 2 ^ 63"
proof -
  have "(2::int) ^ min n 16 \<le> 2 ^ 16" by (intro power_increasing) auto
  then have "2 ^ min n 16 * second < 2 ^ 63" by (simp add: second_def)
  moreover have "backoff_of maxBackoff (Suc n) = 2 * backoff_of maxBackoff n"
    if "n < 16" "2 ^ Suc n * second \<le> maxBackoff"
  proof -
    have "2 ^ n * second \<le> 2 ^ Suc n * second" by (simp add: second_def)
    then have "2 ^ n * second \<le> maxBackoff" using that(2) by linarith
    with that show ?thesis by (simp add: backoff_of_def second_def)
  qed
  ultimately show ?thesis
    using backoff_of_pos [OF assms] backoff_of_mono [of n "Suc n" maxBackoff]
    by (simp add: backoff_of_def)
qed

theorem backoff_bounds_witness:
  "backoff_of (300 * second) 8 = 256 * second \<and> backoff_of (300 * second) 9 = 300 * second \<and>
   backoff_of (300 * second) 9 \<le> backoff_of (300 * second) 10"
  using backoff_bounds [of "300 * second" 9]
  by (simp add: backoff_of_def second_def)

section \<open>What a finished commit job leaves on its target\<close>

text \<open>
  The client side of the backend contract: copying keeps what the target has,
  and after it every digest of the manifest is served.
\<close>

context backend_contract
begin

lemma copyBlob_props:
  assumes "copyBlob src b kind repo f s = (r, s')" "good s" "digestPattern (fe_Digest f)"
  shows "good s'"
    and "digestPattern d \<Longrightarrow> bk_OpenBlob b kind repo d s = Ok c \<Longrightarrow> bk_OpenBlob b kind repo d s' = Ok c"
    and "r = Ok () \<Longrightarrow> \<exists>c. bk_OpenBlob b kind repo (fe_Digest f) s' = Ok c"
  using assms
  by (auto simp: copyBlob_def split: res.splits prod.splits
      intro: put_blob_good put_blob_keeps put_blob_stored)

lemma copy_files_props:
  assumes "copy_files src b kind repo fs s = (r, s')" "good s"
    and "\<forall>f \<in> set fs. fe_Digest f = [] \<or> digestPattern (fe_Digest f)"
  shows "good s'"
    and "digestPattern d \<Longrightarrow> bk_OpenBlob b kind repo d s = Ok c \<Longrightarrow> bk_OpenBlob b kind repo d s' = Ok c"
    and "r = Ok () \<Longrightarrow> f \<in> set fs \<Longrightarrow> fe_Digest f \<noteq> [] \<Longrightarrow>
           \<exists>c. bk_OpenBlob b kind repo (fe_Digest f) s' = Ok c"
proof -
  have "good s' \<and> (\<forall>d c. digestPattern d \<longrightarrow> bk_OpenBlob b kind repo d s = Ok c \<longrightarrow>
          bk_OpenBlob b kind repo d s' = Ok c) \<and>
        (r = Ok () \<longrightarrow> (\<forall>f \<in> set fs. fe_Digest f \<noteq> [] \<longrightarrow>
          (\<exists>c. bk_OpenBlob b kind repo (fe_Digest f) s' = Ok c)))"
    using assms
  proof (induction fs arbitrary: s)
    case Nil
    then show ?case by simp
  next
    case (Cons g fs)
    show ?case
    proof (cases "fe_Digest g = []")
      case True
      with Cons show ?thesis by (auto simp: Digest_IsZero_def)
    next
      case False
      then have g: "digestPattern (fe_Digest g)" "\<not> Digest_IsZero (fe_Digest g)"
        using Cons.prems(3) by (auto simp: Digest_IsZero_def)
      show ?thesis
      proof (cases "bk_StatBlob b kind repo (fe_Digest g) s")
        case (Ok i)
        then obtain c where "bk_OpenBlob b kind repo (fe_Digest g) s = Ok c"
          using stat_iff_open [OF Cons.prems(2) g(1)] by blast
        with Ok Cons.IH [of s] Cons.prems g show ?thesis by fastforce
      next
        case (Err e)
        obtain r1 s1 where cb: "copyBlob src b kind repo g s = (r1, s1)" by fastforce
        note p = copyBlob_props [OF cb Cons.prems(2) g(1)]
        show ?thesis
        proof (cases "r1 = Ok ()")
          case True
          with Err cb g Cons.prems(1) have rest: "copy_files src b kind repo fs s1 = (r, s')" by simp
          have IH: "good s'"
            "\<And>d c. digestPattern d \<Longrightarrow> bk_OpenBlob b kind repo d s1 = Ok c \<Longrightarrow>
               bk_OpenBlob b kind repo d s' = Ok c"
            "r = Ok () \<Longrightarrow> \<forall>f \<in> set fs. fe_Digest f \<noteq> [] \<longrightarrow>
               (\<exists>c. bk_OpenBlob b kind repo (fe_Digest f) s' = Ok c)"
            using Cons.IH [OF rest p(1)] Cons.prems(3) by auto
          obtain c where "bk_OpenBlob b kind repo (fe_Digest g) s' = Ok c"
            using p(3) [OF True] IH(2) [OF g(1)] by blast
          with IH p(2) show ?thesis by auto
        next
          case False
          with Err cb g Cons.prems(1) have "s' = s1" "r \<noteq> Ok ()"
            by (cases r1; simp)+
          with p show ?thesis by auto
        qed
      next
        case Panic
        with Cons.prems g show ?thesis by auto
      qed
    qed
  qed
  then show "good s'"
    and "digestPattern d \<Longrightarrow> bk_OpenBlob b kind repo d s = Ok c \<Longrightarrow> bk_OpenBlob b kind repo d s' = Ok c"
    and "r = Ok () \<Longrightarrow> f \<in> set fs \<Longrightarrow> fe_Digest f \<noteq> [] \<Longrightarrow>
           \<exists>c. bk_OpenBlob b kind repo (fe_Digest f) s' = Ok c"
    by auto
qed

lemma run_commit_replicates:
  assumes "run_commit src b job repo s = (Ok (), s')" "good s" "job_Kind job = kind"
    and "bk_GetManifest src kind repo (job_CommitSHA job) s = Ok m"
    and "manifest_ok kind repo m" "distinct (map fst (job_Refs job))"
    and "\<forall>f \<in> set (mf_Files m). fe_Digest f = [] \<or> digestPattern (fe_Digest f)"
  shows "good s'" and "fits m \<Longrightarrow> bk_GetManifest b kind repo (mf_CommitSHA m) s' = Ok m"
    and "(ref, sha) \<in> set (job_Refs job) \<Longrightarrow> \<not> IsCommitSHA ref \<Longrightarrow>
           bk_ResolveRef b kind repo ref s' = Ok sha"
    and "f \<in> set (mf_Files m) \<Longrightarrow> fe_Digest f \<noteq> [] \<Longrightarrow>
           \<exists>c. bk_OpenBlob b kind repo (fe_Digest f) s' = Ok c \<and> content_ok (fe_Digest f) c"
proof -
  obtain s1 where c: "copy_files src b kind repo (mf_Files m) s = (Ok (), s1)"
    and p: "bk_PutManifest b m (job_Refs job) s1 = (Ok (), s')"
    using assms(1,3,4) by (auto simp: run_commit_def split: res.splits prod.splits)
  note cp = copy_files_props [OF c assms(2,7)]
  show g: "good s'" by (rule put_manifest_good [OF cp(1) assms(5,6) p])
  show "fits m \<Longrightarrow> bk_GetManifest b kind repo (mf_CommitSHA m) s' = Ok m"
    by (rule put_manifest_stored [OF cp(1) assms(5,6) p])
  show "(ref, sha) \<in> set (job_Refs job) \<Longrightarrow> \<not> IsCommitSHA ref \<Longrightarrow>
          bk_ResolveRef b kind repo ref s' = Ok sha"
    by (rule put_manifest_refs [OF cp(1) assms(5,6) p])
  show "\<exists>c. bk_OpenBlob b kind repo (fe_Digest f) s' = Ok c \<and> content_ok (fe_Digest f) c"
    if f: "f \<in> set (mf_Files m)" "fe_Digest f \<noteq> []"
  proof -
    have dp: "digestPattern (fe_Digest f)" using assms(7) f by auto
    obtain c where "bk_OpenBlob b kind repo (fe_Digest f) s1 = Ok c"
      using cp(3) [OF _ f] by auto
    then have "bk_OpenBlob b kind repo (fe_Digest f) s' = Ok c"
      by (rule put_manifest_blobs [OF cp(1) assms(5,6) p dp])
    with open_content [OF g dp] show ?thesis by blast
  qed
qed

end

end
