(* ===== verification/Replication_Steps.thy ===== *)
theory Replication_Steps
  imports Replication
begin

text \<open>
  The replication queue as a running process: the loop of \<open>Run\<close> (claim, wait
  for a worker slot, start), the workers finishing in any order with any
  outcome, concurrent enqueues, the admin retry, cancellation, and crashes
  followed by a restart on the same spool directory. Invariants of every
  reachable state, the durability of acknowledged jobs, and the order in which
  jobs of one group run.
\<close>

section \<open>States and steps\<close>

text \<open>
  \<open>s_used\<close> are the ids drawn so far, \<open>s_acked\<close> those whose enqueue returned nil,
  \<open>s_done\<close> the jobs that succeeded, in their order: the history the properties
  speak about.
\<close>

datatype run_state = RunIdle | RunHolding string | RunStopped

record ('w, 'c) sys =
  s_q :: "('w, 'c) Queue"
  s_run :: run_state
  s_exec :: "string list"
  s_used :: "string set"
  s_acked :: "string set"
  s_done :: "string list"

definition drawn_ids :: "(string \<times> string \<times> 'c persist_outcome) list \<Rightarrow> string list" where
  "drawn_ids ts = map (\<lambda>(t, i, out). i) ts"

lemma drawn_ids_Nil [simp]: "drawn_ids [] = []"
  by (simp add: drawn_ids_def)

definition queue_fill :: "(Job \<Rightarrow> Job) \<Rightarrow> bool" where
  "queue_fill fill \<longleftrightarrow> fill = fill_delete \<or> (\<exists>sha refs. fill = fill_commit sha refs)"

inductive q_step :: "'c job_codec \<Rightarrow> ('w, 'c) sys \<Rightarrow> ('w, 'c) sys \<Rightarrow> bool" for jc where
  enqueue:
    "q_step jc s (s\<lparr>s_q := q', s_used := s_used s \<union> set (drawn_ids ts),
                   s_acked := (if r = Ok () then s_acked s \<union> set (drawn_ids ts) else s_acked s)\<rparr>)"
    if "queue_fill fill" "distinct (drawn_ids ts)" "set (drawn_ids ts) \<inter> s_used s = {}"
      "enqueue jc kind repo source fill now ts (s_q s) = (r, q')"
| claim:
    "q_step jc s (s\<lparr>s_q := q', s_run := RunHolding (job_ID job)\<rparr>)"
    if "s_run s = RunIdle" "mset js = mset (map snd (q_jobs (s_q s)))"
      "claimDue js now (s_q s) = (Some job, q')"
| start:
    "q_step jc s (s\<lparr>s_run := RunIdle, s_exec := i # s_exec s\<rparr>)"
    if "s_run s = RunHolding i" "length (s_exec s) < q_workers (s_q s)"
| stop_idle:
    "q_step jc s (s\<lparr>s_run := RunStopped\<rparr>)"
    if "s_run s = RunIdle"
| stop_holding:
    "q_step jc s (s\<lparr>s_q := unclaim job (s_q s), s_run := RunStopped\<rparr>)"
    if "s_run s = RunHolding i" "map_of (q_jobs (s_q s)) i = Some job"
| finish:
    "q_step jc s (s\<lparr>s_q := finish_job jc now ctxDone removeFails out job err (s_q s),
                   s_exec := remove1 i (s_exec s),
                   s_done := (if err = None then s_done s @ [i] else s_done s)\<rparr>)"
    if "i \<in> set (s_exec s)" "map_of (q_jobs (s_q s)) i = Some job"
| retry:
    "q_step jc s (s\<lparr>s_q := snd (RetryNow now (s_q s))\<rparr>)"
| crash:
    "q_step jc s (s\<lparr>s_q := q', s_run := RunIdle, s_exec := []\<rparr>)"
    if "Queue_New jc (\<lambda>_. True) now dir backends workers maxBackoff (q_spool (s_q s)) = Ok q'"

definition sys_init :: "('w, 'c) sys \<Rightarrow> bool" where
  "sys_init s \<longleftrightarrow>
     q_jobs (s_q s) = [] \<and> q_spool (s_q s) = [] \<and> q_inflight (s_q s) = {} \<and>
     0 < q_workers (s_q s) \<and> s_run s = RunIdle \<and> s_exec s = [] \<and>
     s_used s = {} \<and> s_acked s = {} \<and> s_done s = []"

section \<open>The spool mirrors the job map\<close>

definition spool_job :: "'c job_codec \<Rightarrow> 'c spool \<Rightarrow> string \<Rightarrow> Job option" where
  "spool_job jc sp i =
     (case map_of sp (job_file i) of Some (SpoolFile c) \<Rightarrow> dec_job jc c | _ \<Rightarrow> None)"

definition spool_ok :: "'c job_codec \<Rightarrow> string set \<Rightarrow> 'c spool \<Rightarrow> bool" where
  "spool_ok jc used sp \<longleftrightarrow> distinct (map fst sp) \<and>
     (\<forall>n c. map_of sp n = Some (SpoolFile c) \<longrightarrow> filepath_Ext n = ''.json'' \<longrightarrow>
        (\<exists>j. dec_job jc c = Some j \<and> n = job_file (job_ID j) \<and> job_ID j \<in> used))"

definition mirrored :: "'c job_codec \<Rightarrow> (string \<times> Job) list \<Rightarrow> 'c spool \<Rightarrow> bool" where
  "mirrored jc jobs sp \<longleftrightarrow> distinct (map fst jobs) \<and>
     (\<forall>i j. map_of jobs i = Some j \<longrightarrow> job_ID j = i \<and>
        (\<exists>j'. spool_job jc sp i = Some j' \<and> job_work j' = job_work j))"

definition queue_ok :: "'c job_codec \<Rightarrow> string set \<Rightarrow> ('w, 'c) Queue \<Rightarrow> bool" where
  "queue_ok jc used q \<longleftrightarrow> job_codec_ok jc \<and> spool_ok jc used (q_spool q) \<and>
     mirrored jc (q_jobs q) (q_spool q) \<and> 0 < q_workers q"

lemma filepath_Ext_job_file [simp]: "filepath_Ext (job_file i) = ''.json''"
  by (simp add: filepath_Ext_def job_file_def)

lemma filepath_Ext_tmp [simp]: "filepath_Ext (job_file i @ ''.tmp'') = ''.tmp''"
  by (simp add: filepath_Ext_def)

lemma job_file_inject [simp]: "job_file i = job_file i' \<longleftrightarrow> i = i'"
  by (simp add: job_file_def)

lemma job_file_not_tmp [simp]: "job_file i \<noteq> job_file i' @ ''.tmp''"
proof
  assume "job_file i = job_file i' @ ''.tmp''"
  then have "filepath_Ext (job_file i) = filepath_Ext (job_file i' @ ''.tmp'')" by (rule arg_cong)
  then show False by simp
qed

text \<open>The association lists are read through \<open>map_of\<close> only.\<close>

declare map_of_eq_Some_iff [simp del]

lemma persist_simps [simp]:
  "persist jc PersistOK job sp =
     (Ok (), AList.update (job_file (job_ID job)) (SpoolFile (enc_job jc job))
               (AList.delete (job_file (job_ID job) @ ''.tmp'') sp))"
  "persist jc (WriteFails None) job sp = (Err SpoolingJob, sp)"
  "persist jc (WriteFails (Some c)) job sp =
     (Err SpoolingJob, AList.update (job_file (job_ID job) @ ''.tmp'') (SpoolFile c) sp)"
  "persist jc RenameFails job sp =
     (Err RenamingJob, AList.update (job_file (job_ID job) @ ''.tmp'') (SpoolFile (enc_job jc job)) sp)"
  by (simp_all add: persist_def Let_def)

lemma spool_job_update_tmp [simp]:
  "spool_job jc (AList.update (job_file k @ ''.tmp'') e sp) i = spool_job jc sp i"
  by (simp add: spool_job_def AList.update_conv')

lemma spool_ok_update_tmp:
  "spool_ok jc used sp \<Longrightarrow> spool_ok jc used (AList.update (job_file k @ ''.tmp'') e sp)"
  by (auto simp: spool_ok_def AList.update_conv' AList.distinct_update split: if_splits)

lemma spool_ok_delete: "spool_ok jc used sp \<Longrightarrow> spool_ok jc used (AList.delete k sp)"
  by (auto simp: spool_ok_def AList.delete_conv' AList.distinct_delete split: if_splits)

lemma spool_ok_mono: "spool_ok jc used sp \<Longrightarrow> used \<subseteq> used' \<Longrightarrow> spool_ok jc used' sp"
  unfolding spool_ok_def by blast

lemma persist_spool_ok:
  assumes "spool_ok jc used sp" "job_codec_ok jc" "job_ID job \<in> used"
  shows "spool_ok jc used (snd (persist jc out job sp))"
proof (cases out)
  case PersistOK
  have "spool_ok jc used (AList.delete (job_file (job_ID job) @ ''.tmp'') sp)"
    by (rule spool_ok_delete [OF assms(1)])
  with PersistOK assms(2,3) show ?thesis
    by (auto simp: spool_ok_def job_codec_ok_def AList.update_conv'
        AList.distinct_update split: if_splits)
next
  case (WriteFails co)
  with spool_ok_update_tmp [OF assms(1)] assms(1) show ?thesis
    by (cases co) simp_all
next
  case RenameFails
  with spool_ok_update_tmp [OF assms(1)] show ?thesis by simp
qed

lemma spool_job_persist:
  assumes "job_codec_ok jc"
  shows "spool_job jc (snd (persist jc out job sp)) i =
    (if out = PersistOK \<and> i = job_ID job then Some job else spool_job jc sp i)"
proof (cases out)
  case PersistOK
  with assms show ?thesis
    by (auto simp: spool_job_def job_codec_ok_def AList.update_conv' AList.delete_conv')
next
  case (WriteFails co)
  then show ?thesis by (cases co) simp_all
next
  case RenameFails
  then show ?thesis by simp
qed

lemma persist_fst: "fst (persist jc out job sp) = Ok u \<longleftrightarrow> out = PersistOK"
  by (cases out rule: persist_outcome.exhaust) (auto, case_tac x2, auto)

lemma persist_not_panic: "fst (persist jc out job sp) \<noteq> Panic"
  by (auto simp: persist_def Let_def split: persist_outcome.splits option.splits)

lemma mirroredD:
  assumes "mirrored jc jobs sp" "map_of jobs i = Some j"
  shows "job_ID j = i" and "\<exists>j'. spool_job jc sp i = Some j' \<and> job_work j' = job_work j"
  using assms by (auto simp: mirrored_def)

section \<open>Every operation keeps the mirror\<close>

text \<open>A new job, persisted and entered; and a job rewritten without changing its work.\<close>

lemma mirrored_insert:
  assumes "mirrored jc jobs sp" "job_codec_ok jc"
  shows "mirrored jc (AList.update (job_ID job) job jobs) (snd (persist jc PersistOK job sp))"
  using assms(1)
  by (auto simp: mirrored_def spool_job_persist [OF assms(2)] AList.update_conv'
      AList.distinct_update simp del: persist_simps split: if_splits)

lemma map_of_map_entry:
  "map_of (AList.map_entry k f al) i =
     (if i = k then map_option f (map_of al k) else map_of al i)"
  by (induction al) auto

lemma fst_map_entry [simp]: "map fst (AList.map_entry k f al) = map fst al"
  by (induction al) auto

lemma mirrored_rewrite:
  assumes "mirrored jc jobs sp" "job_codec_ok jc"
    and "map_of jobs i = Some job" "job_work job' = job_work job"
  shows "mirrored jc (AList.map_entry i (\<lambda>_. job') jobs) (snd (persist jc out job' sp))"
proof -
  have "job_ID job' = i"
    using job_work_eqD [OF assms(4)] mirroredD(1) [OF assms(1,3)] by simp
  with assms(1,3,4) mirroredD(2) [OF assms(1,3)] show ?thesis
    by (auto simp: mirrored_def spool_job_persist [OF assms(2)] map_of_map_entry
        simp del: persist_simps split: if_splits)
qed

lemma mirrored_delete:
  assumes "mirrored jc jobs sp" "job_ID job = i"
  shows "mirrored jc (AList.delete i jobs) (remove_job fails job sp)"
  using assms
  by (auto simp: mirrored_def remove_job_def spool_job_def AList.delete_conv' AList.distinct_delete
      split: if_splits)

lemma mirrored_map:
  assumes "mirrored jc jobs sp" "\<And>j. job_work (f j) = job_work j"
  shows "mirrored jc (map (\<lambda>(i, j). (i, f j)) jobs) sp"
proof -
  have m: "map_of (map (\<lambda>(i, j). (i, f j)) jobs) i = map_option f (map_of jobs i)" for i
    by (simp add: map_of_map)
  have id: "job_ID (f j) = job_ID j" for j
    using job_work_eqD [OF assms(2)] by blast
  have f: "map fst (map (\<lambda>(i, j). (i, f j)) jobs) = map fst jobs"
    by (simp add: case_prod_beta comp_def)
  show ?thesis unfolding mirrored_def f m using assms(1) by (auto simp: mirrored_def id assms(2))
qed

lemma fill_ID: "queue_fill fill \<Longrightarrow> job_ID (fill j) = job_ID j"
  by (auto simp: queue_fill_def fill_delete_def fill_commit_def)

lemma enqueue_loop_ok:
  assumes "queue_ok jc used q" "queue_fill fill" "distinct (drawn_ids ts)"
    and "set (drawn_ids ts) \<inter> fst ` set (q_jobs q) = {}"
    and "enqueue_loop jc kind repo source fill now ts q = (r, q')"
  shows "queue_ok jc (used \<union> set (drawn_ids ts)) q' \<and>
         (\<forall>i j. map_of (q_jobs q) i = Some j \<longrightarrow> map_of (q_jobs q') i = Some j) \<and>
         (r = Ok () \<longrightarrow> set (drawn_ids ts) \<subseteq> fst ` set (q_jobs q')) \<and>
         q_inflight q' = q_inflight q \<and> q_workers q' = q_workers q \<and>
         q_maxBackoff q' = q_maxBackoff q"
  using assms
proof (induction ts arbitrary: used q)
  case Nil
  then show ?case by (simp add: drawn_ids_def)
next
  case (Cons t ts)
  obtain target i out where t: "t = (target, i, out)" by (cases t)
  let ?job = "fill \<lparr>job_ID = i, job_Action = [], job_Kind = kind, job_Repo = repo_string repo,
                      job_CommitSHA = [], job_Refs = [], job_Source = source, job_Target = target,
                      job_CreatedAt = now, job_Attempts = 0, job_LastError = [], job_NextTry = now\<rparr>"
  have id: "job_ID ?job = i" using Cons.prems(2) by (simp add: fill_ID)
  have codec: "job_codec_ok jc" and sp: "spool_ok jc used (q_spool q)"
    and mir: "mirrored jc (q_jobs q) (q_spool q)" and w: "0 < q_workers q"
    using Cons.prems(1) by (auto simp: queue_ok_def)
  let ?sp = "snd (persist jc out ?job (q_spool q))"
  have sp': "spool_ok jc (used \<union> {i}) ?sp"
    using persist_spool_ok [OF spool_ok_mono [OF sp] codec, of "used \<union> {i}" ?job out] id by auto
  have fresh: "map_of (q_jobs q) i = None"
    using Cons.prems(4) by (auto simp: t drawn_ids_def map_of_eq_None_iff)
  show ?case
  proof (cases "out = PersistOK")
    case True
    let ?q1 = "q\<lparr>q_spool := ?sp, q_jobs := AList.update i ?job (q_jobs q)\<rparr>"
    have "mirrored jc (q_jobs ?q1) (q_spool ?q1)"
      using mirrored_insert [OF mir codec, of ?job] True id by simp
    then have ok: "queue_ok jc (used \<union> {i}) ?q1"
      using codec sp' w by (simp add: queue_ok_def)
    have run: "enqueue_loop jc kind repo source fill now ts ?q1 = (r, q')"
      using Cons.prems(5) True id by (simp add: t Let_def)
    have "set (drawn_ids ts) \<inter> fst ` set (q_jobs ?q1) = {}"
      using Cons.prems(3,4) by (auto simp: t drawn_ids_def AList.dom_update)
    from Cons.IH [OF ok Cons.prems(2) _ this run] Cons.prems(3)
    have IH: "queue_ok jc (used \<union> {i} \<union> set (drawn_ids ts)) q'"
      "\<forall>k j. map_of (q_jobs ?q1) k = Some j \<longrightarrow> map_of (q_jobs q') k = Some j"
      "r = Ok () \<longrightarrow> set (drawn_ids ts) \<subseteq> fst ` set (q_jobs q')"
      "q_inflight q' = q_inflight q" "q_workers q' = q_workers q" "q_maxBackoff q' = q_maxBackoff q"
      by (auto simp: t drawn_ids_def)
    have "map_of (q_jobs q') k = Some j" if "map_of (q_jobs q) k = Some j" for k j
    proof -
      have "k \<noteq> i" using that fresh by auto
      with that IH(2) show ?thesis by (simp add: AList.update_conv')
    qed
    then have keep: "\<forall>k j. map_of (q_jobs q) k = Some j \<longrightarrow> map_of (q_jobs q') k = Some j" by blast
    have "map_of (q_jobs q') i = Some ?job"
      using IH(2) by (simp add: AList.update_conv')
    then have "i \<in> fst ` set (q_jobs q')"
      by (metis domI dom_map_of_conv_image_fst)
    with IH keep show ?thesis by (auto simp: t drawn_ids_def)
  next
    case False
    then obtain e where "fst (persist jc out ?job (q_spool q)) = Err e"
      by (cases "fst (persist jc out ?job (q_spool q))") (auto simp: persist_fst persist_not_panic)
    then obtain sp1 where sp1: "persist jc out ?job (q_spool q) = (Err e, sp1)"
      by (metis prod.collapse)
    then have "q' = q\<lparr>q_spool := sp1\<rparr>" "r = Err e"
      using Cons.prems(5) by (simp_all add: t Let_def)
    with sp1 have q': "q' = q\<lparr>q_spool := ?sp\<rparr>" "r = Err e" by simp_all
    have "mirrored jc (q_jobs q) ?sp"
      using mir False by (auto simp: mirrored_def spool_job_persist [OF codec])
    moreover have "spool_ok jc (used \<union> set (drawn_ids (t # ts))) ?sp"
      by (rule spool_ok_mono [OF sp']) (auto simp: t drawn_ids_def)
    ultimately show ?thesis using codec w q' by (simp add: queue_ok_def)
  qed
qed

lemma enqueue_ok:
  assumes "queue_ok jc used q" "queue_fill fill" "distinct (drawn_ids ts)"
    and "set (drawn_ids ts) \<inter> fst ` set (q_jobs q) = {}"
    and "enqueue jc kind repo source fill now ts q = (r, q')"
  shows "queue_ok jc (used \<union> set (drawn_ids ts)) q'"
    and "map_of (q_jobs q) i = Some j \<Longrightarrow> map_of (q_jobs q') i = Some j"
    and "r = Ok () \<Longrightarrow> set (drawn_ids ts) \<subseteq> fst ` set (q_jobs q')"
    and "q_inflight q' = q_inflight q" and "q_workers q' = q_workers q"
proof -
  obtain r1 q1 where l: "enqueue_loop jc kind repo source fill now ts q = (r1, q1)" by fastforce
  note p = enqueue_loop_ok [OF assms(1-4) l]
  have "(ts = [] \<and> r = Ok () \<and> q' = q) \<or> (ts \<noteq> [] \<and> r = r1 \<and> (q' = q1 \<or> q' = q1\<lparr>q_wake := True\<rparr>))"
    using assms(5) l by (auto simp: enqueue_def split: if_splits res.splits)
  then show "queue_ok jc (used \<union> set (drawn_ids ts)) q'"
    and "map_of (q_jobs q) i = Some j \<Longrightarrow> map_of (q_jobs q') i = Some j"
    and "r = Ok () \<Longrightarrow> set (drawn_ids ts) \<subseteq> fst ` set (q_jobs q')"
    and "q_inflight q' = q_inflight q" and "q_workers q' = q_workers q"
    using p assms(1) by (auto simp: queue_ok_def)
qed

section \<open>Restarting from the spool\<close>

lemma spool_ok_tail: "spool_ok jc used (e # es) \<Longrightarrow> spool_ok jc used es"
proof (cases e)
  case (Pair n x)
  assume ok: "spool_ok jc used (e # es)"
  have "map_of es n = None" using ok by (auto simp: spool_ok_def Pair map_of_eq_None_iff)
  then have "m \<noteq> n" if "map_of es m = Some y" for m y
    using that by auto
  with ok show ?thesis by (fastforce simp: spool_ok_def Pair)
qed

lemma load_entries_map:
  assumes "spool_ok jc used es"
  shows "map_of (load_entries jc (\<lambda>_. True) now es jobs) i =
           (case spool_job jc es i of Some j \<Rightarrow> Some (j\<lparr>job_NextTry := now\<rparr>) | None \<Rightarrow> map_of jobs i)"
  using assms
proof (induction es arbitrary: jobs)
  case Nil
  then show ?case by (simp add: spool_job_def)
next
  case (Cons x es)
  obtain n e where x: "x = (n, e)" by (cases x)
  note IH = Cons.IH [OF spool_ok_tail [OF Cons.prems]]
  have new: "map_of es n = None"
    using Cons.prems by (auto simp: spool_ok_def x map_of_eq_None_iff)
  show ?case
  proof (cases e)
    case SpoolDir
    with IH new show ?thesis by (auto simp: x spool_job_def split: option.splits)
  next
    case (SpoolFile c)
    show ?thesis
    proof (cases "filepath_Ext n = ''.json''")
      case False
      then have "n \<noteq> job_file i" by auto
      with False SpoolFile IH show ?thesis by (simp add: x spool_job_def)
    next
      case True
      have "map_of (x # es) n = Some (SpoolFile c)" by (simp add: x SpoolFile)
      with Cons.prems True obtain j where j: "dec_job jc c = Some j" "n = job_file (job_ID j)"
        unfolding spool_ok_def by blast
      have "spool_job jc es (job_ID j) = None" using new j(2) by (simp add: spool_job_def)
      moreover have "spool_job jc (x # es) i = (if i = job_ID j then Some j else spool_job jc es i)"
        using j SpoolFile by (simp add: x spool_job_def)
      ultimately show ?thesis
        using IH True SpoolFile j by (auto simp: x AList.update_conv' split: option.splits)
    qed
  qed
qed

lemma load_entries_distinct:
  "distinct (map fst jobs) \<Longrightarrow> distinct (map fst (load_entries jc readable now es jobs))"
  by (induction es arbitrary: jobs)
     (auto split: spool_entry.splits option.splits simp: AList.distinct_update)

lemma map_of_sort_key:
  assumes "distinct (map fst xs)"
  shows "map_of (sort_key f xs) = map_of xs"
proof -
  have "mset (map fst (sort_key f xs)) = mset (map fst xs)" by simp
  then have "distinct (map fst (sort_key f xs))" using assms by (metis mset_eq_imp_distinct_iff)
  with assms show ?thesis by (subst map_of_inject_set) simp_all
qed

lemma spool_ok_sort_key: "spool_ok jc used sp \<Longrightarrow> spool_ok jc used (sort_key f sp)"
proof -
  assume ok: "spool_ok jc used sp"
  then have d: "distinct (map fst sp)" by (simp add: spool_ok_def)
  have "mset (map fst (sort_key f sp)) = mset (map fst sp)" by simp
  then have "distinct (map fst (sort_key f sp))" using d by (metis mset_eq_imp_distinct_iff)
  with ok map_of_sort_key [OF d, of f] show ?thesis by (simp add: spool_ok_def)
qed

lemma Queue_New_ok:
  assumes "spool_ok jc used sp" "job_codec_ok jc"
    and "Queue_New jc (\<lambda>_. True) now dir backends workers maxBackoff sp = Ok q"
  shows "queue_ok jc used q" and "q_inflight q = {}" and "q_spool q = sp"
    and "map_of (q_jobs q) i = map_option (\<lambda>j. j\<lparr>job_NextTry := now\<rparr>) (spool_job jc sp i)"
proof -
  let ?js = "load_entries jc (\<lambda>_. True) now (sort_key fst sp) []"
  have d: "distinct (map fst sp)" using assms(1) by (simp add: spool_ok_def)
  have q: "q_jobs q = ?js" "q_spool q = sp" "q_inflight q = {}" "0 < q_workers q"
    using assms(3) by (auto simp: Queue_New_def loadSpool_def split: if_splits)
  have m: "map_of ?js i = map_option (\<lambda>j. j\<lparr>job_NextTry := now\<rparr>) (spool_job jc sp i)" for i
    using load_entries_map [OF spool_ok_sort_key [OF assms(1), of fst], of now "[]" i]
      map_of_sort_key [OF d, of fst]
    by (simp add: spool_job_def split: option.splits)
  have "job_ID j = i" if "spool_job jc sp i = Some j" for i j
  proof -
    from that obtain c where "map_of sp (job_file i) = Some (SpoolFile c)" "dec_job jc c = Some j"
      by (auto simp: spool_job_def split: option.splits spool_entry.splits)
    with assms(1) show ?thesis unfolding spool_ok_def by fastforce
  qed
  then have "mirrored jc ?js sp"
    using load_entries_distinct [of "[]"] by (auto simp: mirrored_def m)
  then show "queue_ok jc used q" using assms(1,2) q by (simp add: queue_ok_def)
  show "map_of (q_jobs q) i = map_option (\<lambda>j. j\<lparr>job_NextTry := now\<rparr>) (spool_job jc sp i)"
    using m q(1) by simp
qed (use assms(3) in \<open>auto simp: Queue_New_def loadSpool_def split: if_splits\<close>)

section \<open>The invariant of the running system\<close>

definition held :: "('w, 'c) sys \<Rightarrow> string list" where
  "held s = (case s_run s of RunHolding i \<Rightarrow> [i] | _ \<Rightarrow> []) @ s_exec s"

definition group_of :: "(string \<times> Job) list \<Rightarrow> string \<Rightarrow> string" where
  "group_of jobs i = (case map_of jobs i of Some j \<Rightarrow> groupKey j | None \<Rightarrow> [])"

definition run_ok :: "('w, 'c) sys \<Rightarrow> bool" where
  "run_ok s \<longleftrightarrow>
     distinct (map (group_of (q_jobs (s_q s))) (held s)) \<and>
     set (held s) \<subseteq> fst ` set (q_jobs (s_q s)) \<and>
     q_inflight (s_q s) = group_of (q_jobs (s_q s)) ` set (held s) \<and>
     length (s_exec s) \<le> q_workers (s_q s)"

definition sys_inv :: "'c job_codec \<Rightarrow> ('w, 'c) sys \<Rightarrow> bool" where
  "sys_inv jc s \<longleftrightarrow> queue_ok jc (s_used s) (s_q s) \<and> run_ok s \<and>
     s_acked s - set (s_done s) \<subseteq> fst ` set (q_jobs (s_q s))"

lemma sys_init_inv: "sys_init s \<Longrightarrow> job_codec_ok jc \<Longrightarrow> sys_inv jc s"
  by (auto simp: sys_init_def sys_inv_def queue_ok_def spool_ok_def mirrored_def run_ok_def held_def)

lemma in_keys_iff: "i \<in> fst ` set al \<longleftrightarrow> (\<exists>j. map_of al i = Some j)"
  by (metis domD domI dom_map_of_conv_image_fst)

lemma queue_ok_keys_used: "queue_ok jc used q \<Longrightarrow> fst ` set (q_jobs q) \<subseteq> used"
proof
  fix i
  assume ok: "queue_ok jc used q" and "i \<in> fst ` set (q_jobs q)"
  then obtain j where "map_of (q_jobs q) i = Some j" by (auto simp: in_keys_iff)
  with ok obtain j' where "spool_job jc (q_spool q) i = Some j'"
    by (auto simp: queue_ok_def mirrored_def)
  then obtain c where "map_of (q_spool q) (job_file i) = Some (SpoolFile c)"
    by (auto simp: spool_job_def split: option.splits spool_entry.splits)
  with ok show "i \<in> used" unfolding queue_ok_def spool_ok_def by fastforce
qed

text \<open>The run state only depends on which jobs there are and on their groups.\<close>

lemma run_ok_jobs:
  assumes "run_ok s" "held s' = held s" "s_exec s' = s_exec s"
    and "q_inflight (s_q s') = q_inflight (s_q s)" "q_workers (s_q s') = q_workers (s_q s)"
    and "\<And>i j. map_of (q_jobs (s_q s)) i = Some j \<Longrightarrow>
           \<exists>j'. map_of (q_jobs (s_q s')) i = Some j' \<and> groupKey j' = groupKey j"
  shows "run_ok s'"
proof -
  have g: "group_of (q_jobs (s_q s')) i = group_of (q_jobs (s_q s)) i \<and> i \<in> fst ` set (q_jobs (s_q s'))"
    if "i \<in> set (held s)" for i
  proof -
    have "i \<in> fst ` set (q_jobs (s_q s))" using that assms(1) unfolding run_ok_def by blast
    then obtain j where j: "map_of (q_jobs (s_q s)) i = Some j" unfolding in_keys_iff by blast
    from assms(6) [OF j] obtain j' where
      "map_of (q_jobs (s_q s')) i = Some j'" "groupKey j' = groupKey j" by blast
    with j show ?thesis unfolding in_keys_iff by (simp add: group_of_def)
  qed
  have m: "map (group_of (q_jobs (s_q s'))) (held s) = map (group_of (q_jobs (s_q s))) (held s)"
    by (rule map_cong [OF refl]) (simp add: g)
  have i: "group_of (q_jobs (s_q s')) ` set (held s) = group_of (q_jobs (s_q s)) ` set (held s)"
    by (rule image_cong [OF refl]) (simp add: g)
  have k: "set (held s) \<subseteq> fst ` set (q_jobs (s_q s'))" by (rule subsetI) (simp add: g)
  show ?thesis
    using assms(1) k unfolding run_ok_def assms(2-5) m i by simp
qed

lemma sys_inv_retry: "sys_inv jc s \<Longrightarrow> sys_inv jc (s\<lparr>s_q := snd (RetryNow now (s_q s))\<rparr>)"
proof -
  assume inv: "sys_inv jc s"
  let ?s = "s\<lparr>s_q := snd (RetryNow now (s_q s))\<rparr>"
  have w: "job_work (retry_job now j) = job_work j" for j by (simp add: retry_job_def)
  have jobs: "q_jobs (s_q ?s) = map (\<lambda>(i, j). (i, retry_job now j)) (q_jobs (s_q s))"
    by (simp add: RetryNow_def)
  have m: "map_of (q_jobs (s_q ?s)) i = map_option (retry_job now) (map_of (q_jobs (s_q s)) i)" for i
    unfolding jobs by (simp add: map_of_map)
  have "run_ok ?s"
  proof (rule run_ok_jobs)
    show "run_ok s" using inv by (simp add: sys_inv_def)
    show "\<exists>j'. map_of (q_jobs (s_q ?s)) i = Some j' \<and> groupKey j' = groupKey j"
      if "map_of (q_jobs (s_q s)) i = Some j" for i j
      using that m job_work_eqD [OF w [of j]] by auto
  qed (simp_all add: held_def RetryNow_def)
  moreover have "mirrored jc (q_jobs (s_q ?s)) (q_spool (s_q s))"
    unfolding jobs using inv w by (intro mirrored_map) (auto simp: sys_inv_def queue_ok_def)
  moreover have "fst ` set (q_jobs (s_q ?s)) = fst ` set (q_jobs (s_q s))"
    unfolding set_eq_iff in_keys_iff m by auto
  ultimately show ?thesis using inv by (simp add: sys_inv_def queue_ok_def RetryNow_def)
qed

lemma sys_inv_enqueue:
  assumes "sys_inv jc s" "queue_fill fill" "distinct (drawn_ids ts)"
    and "set (drawn_ids ts) \<inter> s_used s = {}"
    and "enqueue jc kind repo source fill now ts (s_q s) = (r, q')"
  shows "sys_inv jc (s\<lparr>s_q := q', s_used := s_used s \<union> set (drawn_ids ts),
           s_acked := (if r = Ok () then s_acked s \<union> set (drawn_ids ts) else s_acked s)\<rparr>)"
proof -
  let ?s = "s\<lparr>s_q := q', s_used := s_used s \<union> set (drawn_ids ts),
           s_acked := (if r = Ok () then s_acked s \<union> set (drawn_ids ts) else s_acked s)\<rparr>"
  have ok: "queue_ok jc (s_used s) (s_q s)" using assms(1) by (simp add: sys_inv_def)
  have "set (drawn_ids ts) \<inter> fst ` set (q_jobs (s_q s)) = {}"
    using queue_ok_keys_used [OF ok] assms(4) by blast
  note p = enqueue_ok [OF ok assms(2,3) this assms(5)]
  have "run_ok ?s"
  proof (rule run_ok_jobs)
    show "run_ok s" using assms(1) by (simp add: sys_inv_def)
    show "\<exists>j'. map_of (q_jobs (s_q ?s)) i = Some j' \<and> groupKey j' = groupKey j"
      if "map_of (q_jobs (s_q s)) i = Some j" for i j
      using p(2) [OF that] by simp
  qed (simp_all add: held_def p(4,5))
  moreover have "fst ` set (q_jobs (s_q s)) \<subseteq> fst ` set (q_jobs q')"
    unfolding subset_iff in_keys_iff using p(2) by blast
  ultimately show ?thesis
    using assms(1) p(1,3) by (auto simp: sys_inv_def)
qed

lemma sys_inv_claim:
  assumes "sys_inv jc s" "s_run s = RunIdle" "mset js = mset (map snd (q_jobs (s_q s)))"
    and "claimDue js now (s_q s) = (Some job, q')"
  shows "sys_inv jc (s\<lparr>s_q := q', s_run := RunHolding (job_ID job)\<rparr>)"
proof -
  note c = claimDue_Some [OF assms(4)]
  have "set js = snd ` set (q_jobs (s_q s))"
    using assms(3) by (metis set_mset_mset set_map)
  then obtain i where "(i, job) \<in> set (q_jobs (s_q s))"
    using c(1) by (auto simp: claim_candidates_iff)
  moreover have mir: "mirrored jc (q_jobs (s_q s)) (q_spool (s_q s))"
    using assms(1) by (simp add: sys_inv_def queue_ok_def)
  ultimately have m: "map_of (q_jobs (s_q s)) i = Some job"
    by (auto simp: mirrored_def intro: map_of_is_SomeI)
  have id: "job_ID job = i" by (rule mirroredD(1) [OF mir m])
  have g: "groupKey job \<notin> q_inflight (s_q s)" "group_of (q_jobs (s_q s)) i = groupKey job"
    using c(1) m by (auto simp: claim_candidates_iff group_of_def)
  have h: "held s = s_exec s" "held (s\<lparr>s_q := q', s_run := RunHolding (job_ID job)\<rparr>) = i # s_exec s"
    using assms(2) id by (simp_all add: held_def)
  show ?thesis
    using assms(1) c(3) g h m by (auto simp: sys_inv_def queue_ok_def run_ok_def in_keys_iff)
qed

lemma inflight_minus:
  assumes "distinct (map f (i # is))"
  shows "f ` set (i # is) - {f i} = f ` set is"
  using assms by auto

lemma inflight_remove1:
  assumes "distinct (map f is)" "i \<in> set is"
  shows "f ` set is - {f i} = f ` set (remove1 i is)"
  using assms by (induction "is") auto

lemma map_remove1_distinct: "distinct (map f xs) \<Longrightarrow> distinct (map f (remove1 x xs))"
  by (induction xs) (auto dest: notin_set_remove1 set_remove1_subset [THEN subsetD])

lemma sys_inv_stop_holding:
  assumes "sys_inv jc s" "s_run s = RunHolding i" "map_of (q_jobs (s_q s)) i = Some job"
  shows "sys_inv jc (s\<lparr>s_q := unclaim job (s_q s), s_run := RunStopped\<rparr>)"
proof -
  let ?f = "group_of (q_jobs (s_q s))"
  have h: "held s = i # s_exec s" using assms(2) by (simp add: held_def)
  have r: "run_ok s" using assms(1) by (simp add: sys_inv_def)
  have "?f i = groupKey job" using assms(3) by (simp add: group_of_def)
  moreover have "?f ` set (held s) - {?f i} = ?f ` set (s_exec s)"
    using r unfolding run_ok_def h by (intro inflight_minus) simp
  ultimately have "run_ok (s\<lparr>s_q := unclaim job (s_q s), s_run := RunStopped\<rparr>)"
    using r h by (auto simp: run_ok_def unclaim_def held_def)
  with assms(1) show ?thesis by (simp add: sys_inv_def queue_ok_def unclaim_def)
qed

lemma run_ok_finish:
  assumes "run_ok s" "i \<in> set (s_exec s)" "map_of (q_jobs (s_q s)) i = Some job"
    and "s_run s' = s_run s" "s_exec s' = remove1 i (s_exec s)"
    and "q_inflight (s_q s') = q_inflight (s_q s) - {groupKey job}"
    and "q_workers (s_q s') = q_workers (s_q s)"
    and "\<And>k. k \<noteq> i \<Longrightarrow> group_of (q_jobs (s_q s')) k = group_of (q_jobs (s_q s)) k"
    and "\<And>k. k \<noteq> i \<Longrightarrow> k \<in> fst ` set (q_jobs (s_q s)) \<Longrightarrow> k \<in> fst ` set (q_jobs (s_q s'))"
  shows "run_ok s'"
proof -
  let ?f = "group_of (q_jobs (s_q s))" and ?f' = "group_of (q_jobs (s_q s'))"
  have d: "distinct (map ?f (held s))" using assms(1) by (simp add: run_ok_def)
  then have dh: "distinct (held s)" by (simp only: distinct_map)
  have ih: "i \<in> set (held s)" using assms(2) by (simp add: held_def)
  have h: "held s' = remove1 i (held s)"
  proof (cases "s_run s")
    case (RunHolding k)
    then have "k \<noteq> i" using dh assms(2) by (auto simp: held_def)
    with RunHolding assms(4,5) show ?thesis by (simp add: held_def)
  qed (use assms(4,5) in \<open>simp_all add: held_def\<close>)
  have ni: "k \<noteq> i" if "k \<in> set (held s')" for k
    using that dh unfolding h by auto
  have sub: "set (held s') \<subseteq> set (held s)" unfolding h by (rule set_remove1_subset)
  have m: "map ?f' (held s') = map ?f (held s')"
    by (rule map_cong [OF refl]) (simp add: ni assms(8))
  have im: "?f' ` set (held s') = ?f ` set (held s')"
    by (rule image_cong [OF refl]) (simp add: ni assms(8))
  have "distinct (map ?f (held s'))" unfolding h by (rule map_remove1_distinct [OF d])
  moreover have "set (held s') \<subseteq> fst ` set (q_jobs (s_q s'))"
  proof
    fix k assume k: "k \<in> set (held s')"
    then have "k \<in> fst ` set (q_jobs (s_q s))" using sub assms(1) unfolding run_ok_def by blast
    with assms(9) ni [OF k] show "k \<in> fst ` set (q_jobs (s_q s'))" by blast
  qed
  moreover have "q_inflight (s_q s') = ?f ` set (held s')"
  proof -
    have "?f i = groupKey job" using assms(3) by (simp add: group_of_def)
    then show ?thesis
      using inflight_remove1 [OF d ih] assms(1,6) h by (simp add: run_ok_def)
  qed
  moreover have "length (s_exec s') \<le> q_workers (s_q s')"
  proof -
    have "length (remove1 i (s_exec s)) \<le> length (s_exec s)" by (simp add: length_remove1)
    with assms(1,5,7) show ?thesis unfolding run_ok_def by simp
  qed
  ultimately show ?thesis unfolding run_ok_def m im by simp
qed

lemma sys_inv_finish:
  assumes "sys_inv jc s" "i \<in> set (s_exec s)" "map_of (q_jobs (s_q s)) i = Some job"
  shows "sys_inv jc (s\<lparr>s_q := finish_job jc now ctxDone removeFails out job err (s_q s),
           s_exec := remove1 i (s_exec s),
           s_done := (if err = None then s_done s @ [i] else s_done s)\<rparr>)"
    (is "sys_inv jc ?s")
proof -
  have codec: "job_codec_ok jc" and sp: "spool_ok jc (s_used s) (q_spool (s_q s))"
    and mir: "mirrored jc (q_jobs (s_q s)) (q_spool (s_q s))" and w: "0 < q_workers (s_q s)"
    and run: "run_ok s" and ack: "s_acked s - set (s_done s) \<subseteq> fst ` set (q_jobs (s_q s))"
    using assms(1) by (auto simp: sys_inv_def queue_ok_def)
  have id: "job_ID job = i" by (rule mirroredD(1) [OF mir assms(3)])
  have used: "i \<in> s_used s"
    using queue_ok_keys_used [of jc "s_used s" "s_q s"] assms(1,3)
    by (auto simp: sys_inv_def in_keys_iff subset_iff)
  let ?job' = "failed_job (q_maxBackoff (s_q s)) now (the err) job"
  have work: "job_work ?job' = job_work job" by (simp add: failed_job_def Let_def job_work_def)
  have jobs: "map_of (q_jobs (s_q ?s)) k =
      (if err = None then (if k = i then None else map_of (q_jobs (s_q s)) k)
       else if ctxDone \<or> k \<noteq> i then map_of (q_jobs (s_q s)) k else Some ?job')" for k
    using assms(3) id
    by (cases err) (auto simp: finish_job_def Let_def AList.delete_conv' map_of_map_entry)
  have keys: "err \<noteq> None \<Longrightarrow> fst ` set (q_jobs (s_q ?s)) = fst ` set (q_jobs (s_q s))"
    "k \<noteq> i \<Longrightarrow> k \<in> fst ` set (q_jobs (s_q s)) \<Longrightarrow> k \<in> fst ` set (q_jobs (s_q ?s))" for k
    unfolding set_eq_iff in_keys_iff jobs using assms(3) by (auto simp: subset_iff in_keys_iff)
  have "run_ok ?s"
  proof (rule run_ok_finish [OF run assms(2,3)])
    show "group_of (q_jobs (s_q ?s)) k = group_of (q_jobs (s_q s)) k" if "k \<noteq> i" for k
      using that unfolding group_of_def jobs by simp
    show "k \<in> fst ` set (q_jobs (s_q ?s))"
      if "k \<noteq> i" "k \<in> fst ` set (q_jobs (s_q s))" for k
      using keys(2) that by blast
  qed (auto simp: finish_job_def Let_def split: option.splits)
  moreover have "queue_ok jc (s_used s) (s_q ?s)"
  proof (cases err)
    case None
    then show ?thesis
      using codec w mirrored_delete [OF mir id] spool_ok_delete [OF sp] sp
      by (simp add: queue_ok_def finish_job_def Let_def id remove_job_def)
  next
    case (Some e)
    have "spool_ok jc (s_used s) (snd (persist jc out ?job' (q_spool (s_q s))))"
      by (rule persist_spool_ok [OF sp codec]) (simp add: failed_job_def Let_def id used)
    with Some show ?thesis
      using codec w sp mir mirrored_rewrite [OF mir codec assms(3) work, of out]
      by (auto simp: queue_ok_def finish_job_def Let_def id)
  qed
  moreover have "s_acked ?s - set (s_done ?s) \<subseteq> fst ` set (q_jobs (s_q ?s))"
  proof
    fix k assume k: "k \<in> s_acked ?s - set (s_done ?s)"
    then have "k \<in> fst ` set (q_jobs (s_q s))" using ack by (auto split: if_splits)
    with k keys show "k \<in> fst ` set (q_jobs (s_q ?s))" by (cases "err = None") auto
  qed
  ultimately show ?thesis by (simp add: sys_inv_def)
qed

lemma sys_inv_crash:
  assumes "sys_inv jc s"
    and "Queue_New jc (\<lambda>_. True) now dir backends workers maxBackoff (q_spool (s_q s)) = Ok q'"
  shows "sys_inv jc (s\<lparr>s_q := q', s_run := RunIdle, s_exec := []\<rparr>)"
proof -
  have sp: "spool_ok jc (s_used s) (q_spool (s_q s))" and codec: "job_codec_ok jc"
    and mir: "mirrored jc (q_jobs (s_q s)) (q_spool (s_q s))"
    using assms(1) by (auto simp: sys_inv_def queue_ok_def)
  note n = Queue_New_ok [OF sp codec assms(2)]
  have "fst ` set (q_jobs (s_q s)) \<subseteq> fst ` set (q_jobs q')"
    unfolding subset_iff in_keys_iff n(4) using mirroredD(2) [OF mir] by fastforce
  with n(1,2) assms(1) show ?thesis by (auto simp: sys_inv_def run_ok_def held_def)
qed

lemma q_step_inv: "q_step jc s s' \<Longrightarrow> sys_inv jc s \<Longrightarrow> sys_inv jc s'"
proof (induction rule: q_step.induct)
  case (enqueue fill ts s kind repo source now r q')
  from enqueue(5) show ?case by (rule sys_inv_enqueue [OF _ enqueue(1-4)])
next
  case (claim s js now job q')
  from claim(4) show ?case by (rule sys_inv_claim [OF _ claim(1-3)])
next
  case (start s i)
  then show ?case by (auto simp: sys_inv_def run_ok_def held_def queue_ok_def)
next
  case (stop_idle s)
  then show ?case by (auto simp: sys_inv_def run_ok_def held_def)
next
  case (stop_holding s i job)
  from stop_holding(3) show ?case by (rule sys_inv_stop_holding [OF _ stop_holding(1,2)])
next
  case (finish i s job now ctxDone removeFails out err)
  from finish(3) show ?case by (rule sys_inv_finish [OF _ finish(1,2)])
next
  case (retry s now)
  then show ?case by (rule sys_inv_retry)
next
  case (crash now dir backends workers maxBackoff s q')
  from crash(2) show ?case by (rule sys_inv_crash [OF _ crash(1)])
qed

lemma q_reach_inv:
  assumes "(q_step jc)\<^sup>*\<^sup>* s0 s" "sys_init s0" "job_codec_ok jc"
  shows "sys_inv jc s"
  using assms(1)
  by (induction rule: rtranclp_induct) (auto intro: q_step_inv sys_init_inv [OF assms(2,3)])

section \<open>Properties\<close>

definition unary_job_codec :: "Job option job_codec" where
  "unary_job_codec = \<lparr>enc_job = Some, dec_job = (\<lambda>c. c)\<rparr>"

lemma unary_job_codec_ok [simp]: "job_codec_ok unary_job_codec"
  by (simp add: job_codec_ok_def unary_job_codec_def)

text \<open>
  What the queue runs next: nothing exactly when no job is due in an idle
  group; otherwise a due job of an idle group that no due job of an idle group
  precedes in creation time, and its group is busy afterwards.
\<close>

theorem claimDue_picks_oldest_due:
  "(fst (claimDue js now q) = None \<longleftrightarrow>
      (\<nexists>j. j \<in> set js \<and> job_NextTry j \<le> now \<and> groupKey j \<notin> q_inflight q)) \<and>
   (\<forall>job q'. claimDue js now q = (Some job, q') \<longrightarrow>
      job \<in> set js \<and> job_NextTry job \<le> now \<and> groupKey job \<notin> q_inflight q \<and>
      q_inflight q' = insert (groupKey job) (q_inflight q) \<and>
      (\<forall>c \<in> set js. job_NextTry c \<le> now \<longrightarrow> groupKey c \<notin> q_inflight q \<longrightarrow>
         job_CreatedAt job \<le> job_CreatedAt c))"
proof -
  have "claim_candidates js now q = [] \<longleftrightarrow>
      (\<nexists>j. j \<in> set js \<and> job_NextTry j \<le> now \<and> groupKey j \<notin> q_inflight q)"
    by (metis claim_candidates_iff all_not_in_conv set_empty)
  moreover have "job \<in> set js \<and> job_NextTry job \<le> now \<and> groupKey job \<notin> q_inflight q \<and>
      q_inflight q' = insert (groupKey job) (q_inflight q) \<and>
      (\<forall>c \<in> set js. job_NextTry c \<le> now \<longrightarrow> groupKey c \<notin> q_inflight q \<longrightarrow>
         job_CreatedAt job \<le> job_CreatedAt c)"
    if "claimDue js now q = (Some job, q')" for job q'
    using claimDue_Some [OF that] by (simp add: claim_candidates_iff)
  ultimately show ?thesis unfolding claimDue_None_iff by blast
qed

theorem claimDue_picks_oldest_due_witness:
  "fst (claimDue [demo_job ''b'' 2 0, demo_job ''a'' 1 0] 5 (demo_queue [])) = Some (demo_job ''a'' 1 0) \<and>
   job_CreatedAt (demo_job ''a'' 1 0) \<le> job_CreatedAt (demo_job ''b'' 2 0)"
proof -
  let ?js = "[demo_job ''b'' 2 0, demo_job ''a'' 1 0]"
  have "claimDue ?js 5 (demo_queue []) =
    (Some (demo_job ''a'' 1 0), (demo_queue [])\<lparr>q_inflight := {''b|model|org/m''}\<rparr>)"
    by (simp add: claimDue_alt claim_candidates_def demo_queue_def)
  with claimDue_picks_oldest_due [of ?js 5 "demo_queue []"] show ?thesis by auto
qed

text \<open>
  C11. In every reachable state (concurrent enqueues, any worker outcomes, spool
  failures, retries, cancellation, crashes and restarts included) the running
  jobs belong to pairwise different groups, there are never more than the
  configured number of them, and each is still in the queue's map.
\<close>

theorem running_jobs_exclusive:
  assumes "(q_step jc)\<^sup>*\<^sup>* s0 s" and "sys_init s0" and "job_codec_ok jc"
  shows "distinct (map (group_of (q_jobs (s_q s))) (s_exec s)) \<and>
         length (s_exec s) \<le> q_workers (s_q s) \<and>
         set (s_exec s) \<subseteq> fst ` set (q_jobs (s_q s))"
  using q_reach_inv [OF assms] by (auto simp: sys_inv_def run_ok_def held_def)

text \<open>
  C3. No acknowledged job is lost: once \<open>enqueue\<close> has returned nil for it, in
  every reachable state a job that has not succeeded is in the map, and a
  process that starts on the spool as it is at that moment has the same work in
  its map, due at once.
\<close>

theorem acknowledged_jobs_survive:
  assumes "(q_step jc)\<^sup>*\<^sup>* s0 s" and "sys_init s0" and "job_codec_ok jc"
    and "i \<in> s_acked s" and "i \<notin> set (s_done s)"
    and "Queue_New jc (\<lambda>_. True) now dir backends workers maxBackoff (q_spool (s_q s)) = Ok q'"
  shows "\<exists>j j'. map_of (q_jobs (s_q s)) i = Some j \<and> map_of (q_jobs q') i = Some j' \<and>
           job_work j' = job_work j \<and> job_NextTry j' = now"
proof -
  have inv: "sys_inv jc s" by (rule q_reach_inv [OF assms(1-3)])
  then have "i \<in> fst ` set (q_jobs (s_q s))" using assms(4,5) by (auto simp: sys_inv_def)
  then obtain j where j: "map_of (q_jobs (s_q s)) i = Some j" by (auto simp: in_keys_iff)
  have sp: "spool_ok jc (s_used s) (q_spool (s_q s))"
    and mir: "mirrored jc (q_jobs (s_q s)) (q_spool (s_q s))"
    using inv by (auto simp: sys_inv_def queue_ok_def)
  from mirroredD(2) [OF mir j] obtain j' where
    "spool_job jc (q_spool (s_q s)) i = Some j'" "job_work j' = job_work j" by blast
  with j Queue_New_ok(4) [OF sp assms(3,6), of i] show ?thesis by auto
qed

text \<open>
  The concrete run behind the witnesses and the ordering property: a commit job
  \<open>a\<close> fails once, the newer commit job \<open>b\<close> of the same group arrives while \<open>a\<close>
  waits for its backoff, succeeds, and then \<open>a\<close> runs again.
\<close>

abbreviation (input) "demo_group \<equiv> ''b|model|org/m''"

definition demo_failed :: Job where
  "demo_failed = (demo_job ''a'' 1 1)\<lparr>job_Attempts := 1, job_LastError := ''boom'',
                                      job_NextTry := 2000000001\<rparr>"

definition demo_sys ::
  "(string \<times> Job) list \<Rightarrow> string set \<Rightarrow> Job option spool \<Rightarrow> run_state \<Rightarrow> string list \<Rightarrow> string set
   \<Rightarrow> string list \<Rightarrow> (unit, Job option) sys" where
  "demo_sys jobs busy sp run exec ids fin =
     \<lparr>s_q = (demo_queue jobs)\<lparr>q_inflight := busy, q_spool := sp, q_wake := (ids \<noteq> {})\<rparr>, s_run = run,
      s_exec = exec, s_used = ids, s_acked = ids, s_done = fin\<rparr>"

lemma demo_sys_init: "sys_init (demo_sys [] {} [] RunIdle [] {} [])"
  by (simp add: sys_init_def demo_sys_def demo_queue_def)

lemma groupKey_demo_failed [simp]: "groupKey demo_failed = demo_group"
  by (simp add: demo_failed_def groupKey_def demo_job_def)

lemma demo_failed_fields [simp]:
  "job_ID demo_failed = ''a''" "job_CreatedAt demo_failed = 1" "job_NextTry demo_failed = 2000000001"
  by (simp_all add: demo_failed_def)

abbreviation (input) "spool_a \<equiv> [(''a.json'', SpoolFile (Some (demo_job ''a'' 1 1)))]"
abbreviation (input) "spool_fail \<equiv> [(''a.json'', SpoolFile (Some demo_failed))]"
abbreviation (input) "spool_ab \<equiv> [(''a.json'', SpoolFile (Some demo_failed)),
                                    (''b.json'', SpoolFile (Some (demo_job ''b'' 2 2)))]"
abbreviation (input) "jobs_ab \<equiv> [(''a'', demo_failed), (''b'', demo_job ''b'' 2 2)]"

lemma demo_enqueue:
  "enqueue unary_job_codec RepoKindModel \<lparr>Owner = ''org'', Name = ''m''\<rparr> ''a''
     (fill_commit i [(''main'', i)]) now [(''b'', i, PersistOK)] q =
   (Ok (), q\<lparr>q_spool := AList.update (job_file i) (SpoolFile (Some (demo_job i now now)))
                          (AList.delete (job_file i @ ''.tmp'') (q_spool q)),
             q_jobs := AList.update i (demo_job i now now) (q_jobs q), q_wake := True\<rparr>)"
  by (simp add: enqueue_def Let_def fill_commit_def demo_job_def unary_job_codec_def repo_string_def)

lemma demo_step_enqueue_a:
  "q_step unary_job_codec (demo_sys [] {} [] RunIdle [] {} [])
     (demo_sys [(''a'', demo_job ''a'' 1 1)] {} spool_a RunIdle [] {''a''} [])"
  using q_step.enqueue [OF _ _ _ demo_enqueue [of "''a''" 1], of "demo_sys [] {} [] RunIdle [] {} []"]
  by (simp add: demo_sys_def demo_queue_def drawn_ids_def queue_fill_def job_file_def) blast

lemma demo_step_claim:
  assumes "claimDue (map snd jobs) now (demo_queue jobs) =
             (Some job, (demo_queue jobs)\<lparr>q_inflight := {groupKey job}\<rparr>)"
  shows "q_step unary_job_codec (demo_sys jobs {} sp RunIdle [] ids fin)
           (demo_sys jobs {groupKey job} sp (RunHolding (job_ID job)) [] ids fin)"
proof -
  have "claimDue (map snd jobs) now (s_q (demo_sys jobs {} sp RunIdle [] ids fin)) =
    (Some job, s_q (demo_sys jobs {groupKey job} sp (RunHolding (job_ID job)) [] ids fin))"
    using assms by (simp add: demo_sys_def demo_queue_def claimDue_alt claim_candidates_def split: list.splits)
  from q_step.claim [OF _ _ this, of unary_job_codec] show ?thesis
    by (simp add: demo_sys_def demo_queue_def)
qed

lemma demo_step_start:
  "q_step unary_job_codec (demo_sys jobs busy sp (RunHolding i) [] ids fin)
     (demo_sys jobs busy sp RunIdle [i] ids fin)"
  using q_step.start [of "demo_sys jobs busy sp (RunHolding i) [] ids fin" i]
  by (simp add: demo_sys_def demo_queue_def)

lemma demo_run_a_fails:
  "(q_step unary_job_codec)\<^sup>*\<^sup>* (demo_sys [] {} [] RunIdle [] {} [])
     (demo_sys [(''a'', demo_failed)] {} spool_fail RunIdle [] {''a''} [])"
proof -
  let ?A = "demo_job ''a'' 1 1"
  have claim: "claimDue (map snd [(''a'', ?A)]) 1 (demo_queue [(''a'', ?A)]) =
      (Some ?A, (demo_queue [(''a'', ?A)])\<lparr>q_inflight := {groupKey ?A}\<rparr>)"
    by (simp add: claimDue_alt claim_candidates_def demo_queue_def)
  have fail: "failed_job (300 * second) 1 ''boom'' ?A = demo_failed"
    by (simp add: failed_job_def demo_failed_def backoff_of_def second_def)
  have "q_step unary_job_codec (demo_sys [(''a'', ?A)] {demo_group} spool_a RunIdle [''a''] {''a''} [])
      (demo_sys [(''a'', demo_failed)] {} spool_fail RunIdle [] {''a''} [])"
    using q_step.finish [where i = "''a''" and job = ?A and jc = unary_job_codec and now = 1
        and s = "demo_sys [(''a'', ?A)] {demo_group} spool_a RunIdle [''a''] {''a''} []"
        and ctxDone = False and removeFails = False and out = PersistOK and err = "Some ''boom''"]
    by (simp add: demo_sys_def demo_queue_def finish_job_def Let_def fail unary_job_codec_def job_file_def)
  with demo_step_enqueue_a demo_step_claim [OF claim, of spool_a "{''a''}" "[]"]
    demo_step_start [of "[(''a'', ?A)]" "{demo_group}" spool_a "''a''" "{''a''}" "[]"]
  show ?thesis by (simp add: rtranclp.rtrancl_into_rtrancl [OF rtranclp.rtrancl_into_rtrancl])
qed

lemma demo_step_finish:
  assumes "map_of jobs i = Some job" "groupKey job = demo_group" "job_ID job = i"
  shows "q_step unary_job_codec (demo_sys jobs {demo_group} sp RunIdle [i] ids fin)
           (demo_sys (AList.delete i jobs) {} (AList.delete (job_file i) sp) RunIdle [] ids (fin @ [i]))"
  using assms q_step.finish [where i = i and job = job and jc = unary_job_codec
      and s = "demo_sys jobs {demo_group} sp RunIdle [i] ids fin"
      and ctxDone = False and removeFails = False and out = PersistOK and err = None]
  by (simp add: demo_sys_def demo_queue_def finish_job_def remove_job_def)

text \<open>Claiming a job of the demo group, running it and finishing it, in one go.\<close>

lemma demo_run_job:
  assumes "claimDue (map snd jobs) now (demo_queue jobs) =
             (Some job, (demo_queue jobs)\<lparr>q_inflight := {groupKey job}\<rparr>)"
    and "groupKey job = demo_group" "map_of jobs (job_ID job) = Some job"
  shows "(q_step unary_job_codec)\<^sup>*\<^sup>* (demo_sys jobs {} sp RunIdle [] ids fin)
           (demo_sys (AList.delete (job_ID job) jobs) {} (AList.delete (job_file (job_ID job)) sp)
              RunIdle [] ids (fin @ [job_ID job]))"
  using demo_step_claim [OF assms(1), of sp ids fin]
    demo_step_start [of jobs "{groupKey job}" sp "job_ID job" ids fin]
    demo_step_finish [OF assms(3,2) refl, of sp ids fin] assms(2)
  by (metis (no_types, lifting) rtranclp.simps)

lemma demo_step_enqueue_b:
  "q_step unary_job_codec (demo_sys [(''a'', demo_failed)] {} spool_fail RunIdle [] {''a''} [])
     (demo_sys jobs_ab {} spool_ab RunIdle [] {''a'', ''b''} [])"
proof -
  have "queue_fill (fill_commit ''b'' [(''main'', ''b'')])" by (auto simp: queue_fill_def)
  from q_step.enqueue [OF this _ _ demo_enqueue [of "''b''" 2],
      of "demo_sys [(''a'', demo_failed)] {} spool_fail RunIdle [] {''a''} []"]
  show ?thesis by (simp add: demo_sys_def demo_queue_def drawn_ids_def job_file_def insert_commute)
qed

lemma demo_run_ab:
  "(q_step unary_job_codec)\<^sup>*\<^sup>* (demo_sys [] {} [] RunIdle [] {} [])
     (demo_sys jobs_ab {} spool_ab RunIdle [] {''a'', ''b''} [])"
  using demo_run_a_fails demo_step_enqueue_b by (rule rtranclp.rtrancl_into_rtrancl)

lemma demo_run_ba:
  "(q_step unary_job_codec)\<^sup>*\<^sup>* (demo_sys jobs_ab {} spool_ab RunIdle [] {''a'', ''b''} [])
     (demo_sys [] {} [] RunIdle [] {''a'', ''b''} [''b'', ''a''])"
proof -
  have b: "claimDue (map snd jobs_ab) 2 (demo_queue jobs_ab) =
      (Some (demo_job ''b'' 2 2), (demo_queue jobs_ab)\<lparr>q_inflight := {groupKey (demo_job ''b'' 2 2)}\<rparr>)"
    by (simp add: claimDue_alt claim_candidates_def demo_queue_def)
  have a: "claimDue (map snd [(''a'', demo_failed)]) 3000000000 (demo_queue [(''a'', demo_failed)]) =
      (Some demo_failed, (demo_queue [(''a'', demo_failed)])\<lparr>q_inflight := {groupKey demo_failed}\<rparr>)"
    by (simp add: claimDue_alt claim_candidates_def demo_queue_def)
  have "(q_step unary_job_codec)\<^sup>*\<^sup>* (demo_sys jobs_ab {} spool_ab RunIdle [] {''a'', ''b''} [])
     (demo_sys [(''a'', demo_failed)] {} spool_fail RunIdle [] {''a'', ''b''} [''b''])"
    using demo_run_job [OF b, of spool_ab "{''a'', ''b''}" "[]"] by (simp add: job_file_def)
  moreover have "(q_step unary_job_codec)\<^sup>*\<^sup>*
     (demo_sys [(''a'', demo_failed)] {} spool_fail RunIdle [] {''a'', ''b''} [''b''])
     (demo_sys [] {} [] RunIdle [] {''a'', ''b''} [''b'', ''a''])"
    using demo_run_job [OF a, of spool_fail "{''a'', ''b''}" "[''b'']"] by (simp add: job_file_def)
  ultimately show ?thesis by (rule rtranclp_trans)
qed

theorem running_jobs_exclusive_witness:
  "length (s_exec (demo_sys jobs_ab {} spool_ab RunIdle [] {''a'', ''b''} [])) \<le>
     q_workers (s_q (demo_sys jobs_ab {} spool_ab RunIdle [] {''a'', ''b''} []))"
  using running_jobs_exclusive [OF demo_run_ab demo_sys_init unary_job_codec_ok] by blast

theorem acknowledged_jobs_survive_witness:
  "\<exists>q' j'. Queue_New unary_job_codec (\<lambda>_. True) 7 ''/spool'' (\<lambda>_. None) 4 0 spool_ab = Ok q' \<and>
     map_of (q_jobs (q' :: (unit, Job option) Queue)) ''a'' = Some j' \<and> job_CommitSHA j' = ''a'' \<and>
     job_NextTry j' = 7"
proof -
  let ?s = "demo_sys jobs_ab {} spool_ab RunIdle [] {''a'', ''b''} []"
  obtain q' :: "(unit, Job option) Queue" where q':
    "Queue_New unary_job_codec (\<lambda>_. True) 7 ''/spool'' (\<lambda>_. None) 4 0 (q_spool (s_q ?s)) = Ok q'"
    by (simp add: Queue_New_def)
  have "''a'' \<in> s_acked ?s" "''a'' \<notin> set (s_done ?s)" by (simp_all add: demo_sys_def)
  from acknowledged_jobs_survive [OF demo_run_ab demo_sys_init unary_job_codec_ok this q']
  obtain j j' where "map_of (q_jobs (s_q ?s)) ''a'' = Some j" "map_of (q_jobs q') ''a'' = Some j'"
    "job_work j' = job_work j" "job_NextTry j' = 7" by blast
  moreover from this have "job_CommitSHA j' = ''a''"
    using job_work_eqD [of j' j] by (auto simp: demo_sys_def demo_queue_def demo_failed_def demo_job_def)
  ultimately show ?thesis using q' by (auto simp: demo_sys_def)
qed

text \<open>
  C36. A newer commit can be overtaken by an older one: there is a run in which
  two acknowledged commit jobs of one group, the first created earlier, finish
  in the opposite order. The first failed once and waits for its backoff;
  \<open>claimDue\<close> only compares jobs that are due, so the second one runs, and the
  retry of the first then re-points the reference to the older commit.
\<close>

theorem older_commit_overtakes:
  "\<exists>(s0 :: (unit, Job option) sys) s1 s2 a b ja jb.
     sys_init s0 \<and> (q_step unary_job_codec)\<^sup>*\<^sup>* s0 s1 \<and> a \<in> s_acked s1 \<and> b \<in> s_acked s1 \<and>
     map_of (q_jobs (s_q s1)) a = Some ja \<and> map_of (q_jobs (s_q s1)) b = Some jb \<and>
     groupKey ja = groupKey jb \<and> job_CreatedAt ja < job_CreatedAt jb \<and>
     job_Action ja = ActionCommit \<and> job_Action jb = ActionCommit \<and>
     (q_step unary_job_codec)\<^sup>*\<^sup>* s1 s2 \<and> s_done s1 = [] \<and> s_done s2 = [b, a]"
proof -
  have "job_Action demo_failed = ActionCommit" "job_Action (demo_job ''b'' 2 2) = ActionCommit"
    by (simp_all add: demo_failed_def demo_job_def)
  then show ?thesis
    using demo_sys_init demo_run_ab demo_run_ba
    by (intro exI [of _ "demo_sys [] {} [] RunIdle [] {} []"]
        exI [of _ "demo_sys jobs_ab {} spool_ab RunIdle [] {''a'', ''b''} []"]
        exI [of _ "demo_sys [] {} [] RunIdle [] {''a'', ''b''} [''b'', ''a'']"]
        exI [of _ "''a''"] exI [of _ "''b''"] exI [of _ demo_failed]
        exI [of _ "demo_job ''b'' 2 2"] conjI)
      (simp_all add: demo_sys_def demo_queue_def)
qed

end
