(* ===== verification/Fsbackend.thy ===== *)
theory Fsbackend
  imports Backend "HOL-Library.AList"
begin

text \<open>
  Package internal/backend/fsbackend: the filesystem backend in the Hugging Face
  cache layout (fsbackend.go, verify.go) on a model of the part of the file
  system it uses. A path is the list of its segments below "/", the tree an
  association list from paths to nodes. Which paths can be written, and whether
  symbolic and hard links work, are an environment argument (\<open>fs_env\<close>), as are
  the hash functions of crypto/sha1 and crypto/sha256 and the JSON codec.
  Temporary files live only inside one call and are not part of the tree.
\<close>

section \<open>Paths (path/filepath)\<close>

type_synonym path = "string list"

text \<open>\<open>filepath.Clean\<close> on the segments of a path: empty and "." segments vanish, ".." pops.\<close>

definition path_step :: "bool \<Rightarrow> path \<Rightarrow> string \<Rightarrow> path" where
  "path_step rooted acc seg =
     (if seg = [] \<or> seg = ''.'' then acc
      else if seg = ''..'' then
        (if acc \<noteq> [] \<and> last acc \<noteq> ''..'' then butlast acc
         else if rooted then acc else acc @ [''..''])
      else acc @ [seg])"

definition walk :: "path \<Rightarrow> string list \<Rightarrow> path" where
  "walk base segs = foldl (path_step True) base segs"

text \<open>\<open>filepath.Join(base, s)\<close> for an absolute clean base.\<close>

definition join_clean :: "path \<Rightarrow> string \<Rightarrow> path" where
  "join_clean base s = walk base (split_on CHR ''/'' s)"

text \<open>\<open>filepath.Clean\<close> of a relative path, as a string.\<close>

definition clean_rel :: "string \<Rightarrow> string" where
  "clean_rel s =
     (let segs = foldl (path_step False) [] (split_on CHR ''/'' s) in
      if segs = [] then ''.'' else join_on ''/'' segs)"

definition validRelPath :: "string \<Rightarrow> bool" where
  "validRelPath p \<longleftrightarrow>
     \<not> (p = [] \<or> has_prefix ''/'' p \<or> CHR 0x5C \<in> set p) \<and>
     (let clean = clean_rel p in
      clean = p \<and> list_all (\<lambda>seg. \<not> (seg = [] \<or> seg = ''.'' \<or> seg = ''..'')) (split_on CHR ''/'' clean))"

definition safeJoin :: "path \<Rightarrow> string \<Rightarrow> path option" where
  "safeJoin base rel = (if validRelPath rel then Some (join_clean base rel) else None)"

fun drop_common :: "path \<Rightarrow> path \<Rightarrow> path \<times> path" where
  "drop_common (x # xs) (y # ys) = (if x = y then drop_common xs ys else (x # xs, y # ys))"
| "drop_common xs ys = (xs, ys)"

text \<open>\<open>filepath.Rel(from, to)\<close> for absolute clean paths.\<close>

definition rel_path :: "path \<Rightarrow> path \<Rightarrow> string list" where
  "rel_path frm tgt =
     (let (a, b) = drop_common frm tgt in
      if a = [] \<and> b = [] then [''.''] else replicate (length a) ''..'' @ b)"

section \<open>The file system\<close>

text \<open>A directory, a regular file, or a symbolic link with a relative target.\<close>

datatype fnode = FDir | FFile "byte list" | FLink "string list"

type_synonym tree = "(path \<times> fnode) list"

record fs_env =
  io_ok :: "path \<Rightarrow> bool"
  io_symlink :: "path \<Rightarrow> bool"
  io_hardlink :: "path \<Rightarrow> bool"
  dir_size :: int
  sha1hex :: "byte list \<Rightarrow> string"
  sha256hex :: "byte list \<Rightarrow> string"
  enc_manifest :: "Manifest \<Rightarrow> byte list"
  dec_manifest :: "byte list \<Rightarrow> Manifest option"

definition lookup :: "tree \<Rightarrow> path \<Rightarrow> fnode option" where
  "lookup t p = (if p = [] then Some FDir else map_of t p)"

text \<open>What a path names once a link at its end is followed; links point to files.\<close>

definition follow :: "tree \<Rightarrow> path \<Rightarrow> fnode option" where
  "follow t p =
     (case lookup t p of
        Some (FLink tgt) \<Rightarrow>
          (case lookup t (walk (butlast p) tgt) of Some (FFile c) \<Rightarrow> Some (FFile c) | _ \<Rightarrow> None)
      | x \<Rightarrow> x)"

definition os_Stat :: "tree \<Rightarrow> path \<Rightarrow> bool" where
  "os_Stat t p \<longleftrightarrow> follow t p \<noteq> None"

text \<open>
  \<open>os.ReadFile\<close>: the content, a "not exist" error, or another error (a
  directory, or a regular file where the path needs a directory).
\<close>

datatype read_result = ReadData "byte list" | ReadNotExist | ReadFails

definition below_file :: "tree \<Rightarrow> path \<Rightarrow> bool" where
  "below_file t p \<longleftrightarrow>
     list_ex (\<lambda>n. case lookup t (take n p) of Some (FFile _) \<Rightarrow> True | _ \<Rightarrow> False) [0..<length p]"

definition os_ReadFile :: "tree \<Rightarrow> path \<Rightarrow> read_result" where
  "os_ReadFile t p =
     (case follow t p of
        Some (FFile c) \<Rightarrow> ReadData c
      | Some _ \<Rightarrow> ReadFails
      | None \<Rightarrow> if below_file t p then ReadFails else ReadNotExist)"

text \<open>\<open>os.MkdirAll\<close>: \<open>False\<close> is an error, the tree what was created until then.\<close>

fun mkdir_from :: "fs_env \<Rightarrow> path \<Rightarrow> path \<Rightarrow> tree \<Rightarrow> bool \<times> tree" where
  "mkdir_from env base [] t = (True, t)"
| "mkdir_from env base (s # ss) t =
     (let p = base @ [s] in
      case lookup t p of
        Some FDir \<Rightarrow> mkdir_from env p ss t
      | Some _ \<Rightarrow> (False, t)
      | None \<Rightarrow> if io_ok env p then mkdir_from env p ss (AList.update p FDir t) else (False, t))"

definition os_MkdirAll :: "fs_env \<Rightarrow> path \<Rightarrow> tree \<Rightarrow> bool \<times> tree" where
  "os_MkdirAll env p t = mkdir_from env [] p t"

definition path_prefix :: "path \<Rightarrow> path \<Rightarrow> bool" where
  "path_prefix p q \<longleftrightarrow> take (length p) q = p"

text \<open>\<open>os.RemoveAll\<close>: what cannot be removed stays, with the directories above it.\<close>

definition os_RemoveAll :: "fs_env \<Rightarrow> path \<Rightarrow> tree \<Rightarrow> bool \<times> tree" where
  "os_RemoveAll env dir t =
     (let stays = (\<lambda>p. list_ex (\<lambda>(q, _). path_prefix dir q \<and> path_prefix p q \<and> \<not> io_ok env q) t);
          t' = filter (\<lambda>(p, _). path_prefix dir p \<longrightarrow> stays p) t
      in (\<not> list_ex (\<lambda>(p, _). path_prefix dir p) t', t'))"

text \<open>\<open>os.Remove\<close>: a file, a link or an empty directory; \<open>True\<close> also when nothing is there.\<close>

definition os_Remove :: "fs_env \<Rightarrow> path \<Rightarrow> tree \<Rightarrow> bool \<times> tree" where
  "os_Remove env p t =
     (case lookup t p of
        None \<Rightarrow> (\<not> below_file t p, t)
      | Some FDir \<Rightarrow>
          if p \<noteq> [] \<and> io_ok env p \<and> \<not> list_ex (\<lambda>(q, _). path_prefix p q \<and> q \<noteq> p) t
          then (True, AList.delete p t) else (False, t)
      | Some _ \<Rightarrow> if io_ok env p then (True, AList.delete p t) else (False, t))"

definition dir_names :: "tree \<Rightarrow> path \<Rightarrow> string list" where
  "dir_names t dir =
     sort (map last (filter (\<lambda>p. p \<noteq> [] \<and> butlast p = dir) (map fst t)))"

section \<open>The backend\<close>

record fs_backend =
  fb_name :: string
  fb_root :: path
  fb_env :: fs_env

definition fs_fault :: "string \<Rightarrow> backend_error" where
  "fs_fault what = BackendFault (''fsbackend: '' @ what)"

definition replace_slash :: "string \<Rightarrow> string" where
  "replace_slash s = concat (map (\<lambda>c. if c = CHR ''/'' then ''--'' else [c]) s)"

definition repoDirName :: "repo_kind \<Rightarrow> repo_id \<Rightarrow> string" where
  "repoDirName kind repo = APIPrefix kind @ ''--'' @ replace_slash (repo_string repo)"

definition repoDir :: "fs_backend \<Rightarrow> repo_kind \<Rightarrow> repo_id \<Rightarrow> path" where
  "repoDir b kind repo = fb_root b @ [repoDirName kind repo]"

definition metaDir :: "fs_backend \<Rightarrow> repo_kind \<Rightarrow> repo_id \<Rightarrow> path" where
  "metaDir b kind repo = fb_root b @ [''.shpiel'', repoDirName kind repo]"

definition manifestPath :: "fs_backend \<Rightarrow> repo_kind \<Rightarrow> repo_id \<Rightarrow> string \<Rightarrow> path" where
  "manifestPath b kind repo sha = join_clean (metaDir b kind repo @ [''manifests'']) (sha @ ''.json'')"

definition blobPath :: "fs_backend \<Rightarrow> repo_kind \<Rightarrow> repo_id \<Rightarrow> digest \<Rightarrow> path" where
  "blobPath b kind repo d = join_clean (repoDir b kind repo @ [''blobs'']) (Digest_Hex d)"

definition fs_New :: "string \<Rightarrow> path option \<Rightarrow> fs_env \<Rightarrow> tree \<Rightarrow> (backend_error, fs_backend) res \<times> tree" where
  "fs_New name root env t =
     (case root of
        None \<Rightarrow> (Err (fs_fault ''root path is required''), t)
      | Some r \<Rightarrow>
          (case os_MkdirAll env r t of
             (True, t') \<Rightarrow> (Ok \<lparr>fb_name = name, fb_root = r, fb_env = env\<rparr>, t')
           | (False, t') \<Rightarrow> (Err (fs_fault ''creating root''), t')))"

definition fs_CreateRepo ::
  "fs_backend \<Rightarrow> repo_kind \<Rightarrow> repo_id \<Rightarrow> tree \<Rightarrow> (backend_error, unit) res \<times> tree" where
  "fs_CreateRepo b kind repo t =
     (if os_Stat t (repoDir b kind repo) then (Err ErrRepoExists, t)
      else case os_MkdirAll (fb_env b) (repoDir b kind repo @ [''refs'']) t of
             (True, t') \<Rightarrow> (Ok (), t')
           | (False, t') \<Rightarrow> (Err (fs_fault ''creating repo''), t'))"

definition fs_DeleteRepo ::
  "fs_backend \<Rightarrow> repo_kind \<Rightarrow> repo_id \<Rightarrow> tree \<Rightarrow> (backend_error, unit) res \<times> tree" where
  "fs_DeleteRepo b kind repo t =
     (if \<not> os_Stat t (repoDir b kind repo) then (Err ErrRepoNotFound, t)
      else case os_RemoveAll (fb_env b) (repoDir b kind repo) t of
             (False, t') \<Rightarrow> (Err (fs_fault ''deleting repo''), t')
           | (True, t') \<Rightarrow>
               (case os_RemoveAll (fb_env b) (metaDir b kind repo) t' of
                  (False, t'') \<Rightarrow> (Err (fs_fault ''deleting repo metadata''), t'')
                | (True, t'') \<Rightarrow> (Ok (), t'')))"

definition fs_ResolveRef ::
  "fs_backend \<Rightarrow> repo_kind \<Rightarrow> repo_id \<Rightarrow> string \<Rightarrow> tree \<Rightarrow> (backend_error, string) res" where
  "fs_ResolveRef b kind repo ref t =
     (if \<not> os_Stat t (repoDir b kind repo) then Err ErrRepoNotFound
      else if IsCommitSHA ref then
        (if os_Stat t (manifestPath b kind repo ref) then Ok ref else Err ErrRevisionNotFound)
      else
        (case safeJoin (repoDir b kind repo @ [''refs'']) ref of
           None \<Rightarrow> Err ErrRevisionNotFound
         | Some refPath \<Rightarrow>
             (case os_ReadFile t refPath of
                ReadData content \<Rightarrow>
                  (let sha = trim_space (of_bytes content) in
                   if IsCommitSHA sha then Ok sha else Err (fs_fault ''ref contains invalid commit''))
              | _ \<Rightarrow> Err ErrRevisionNotFound)))"

definition fs_GetManifest ::
  "fs_backend \<Rightarrow> repo_kind \<Rightarrow> repo_id \<Rightarrow> string \<Rightarrow> tree \<Rightarrow> (backend_error, Manifest) res" where
  "fs_GetManifest b kind repo sha t =
     (case os_ReadFile t (manifestPath b kind repo sha) of
        ReadNotExist \<Rightarrow>
          if os_Stat t (repoDir b kind repo) then Err ErrRevisionNotFound else Err ErrRepoNotFound
      | ReadFails \<Rightarrow> Err (fs_fault ''reading manifest'')
      | ReadData content \<Rightarrow>
          (case dec_manifest (fb_env b) content of
             None \<Rightarrow> Err (fs_fault ''decoding manifest'')
           | Some m \<Rightarrow> Ok m))"

text \<open>\<open>writeFileAtomic\<close>: a temporary file, then a rename over the path.\<close>

definition writeFileAtomic ::
  "fs_env \<Rightarrow> path \<Rightarrow> byte list \<Rightarrow> tree \<Rightarrow> (backend_error, unit) res \<times> tree" where
  "writeFileAtomic env p content t =
     (case os_MkdirAll env (butlast p) t of
        (False, t') \<Rightarrow> (Err (fs_fault ''creating dir''), t')
      | (True, t') \<Rightarrow>
          if \<not> io_ok env p then (Err (fs_fault ''writing temp file''), t')
          else if lookup t' p = Some FDir then (Err (fs_fault ''renaming into place''), t')
          else (Ok (), AList.update p (FFile content) t'))"

definition copyFile :: "fs_env \<Rightarrow> path \<Rightarrow> path \<Rightarrow> tree \<Rightarrow> (backend_error, unit) res \<times> tree" where
  "copyFile env src dst t =
     (case follow t src of
        Some (FFile c) \<Rightarrow>
          if io_ok env dst then (Ok (), AList.update dst (FFile c) t)
          else (Err (fs_fault ''creating copy''), t)
      | _ \<Rightarrow> (Err (fs_fault ''opening blob''), t))"

text \<open>\<open>linkSnapshotFile\<close>: a symbolic link, else a hard link, else a copy.\<close>

definition link_at :: "fs_env \<Rightarrow> path \<Rightarrow> path \<Rightarrow> tree \<Rightarrow> (backend_error, unit) res \<times> tree" where
  "link_at env linkPath blob t =
     (if io_symlink env linkPath
      then (Ok (), AList.update linkPath (FLink (rel_path (butlast linkPath) blob)) t)
      else case lookup t blob of
             Some (FFile c) \<Rightarrow>
               if io_hardlink env linkPath then (Ok (), AList.update linkPath (FFile c) t)
               else copyFile env blob linkPath t
           | _ \<Rightarrow> copyFile env blob linkPath t)"

definition linkSnapshotFile ::
  "fs_backend \<Rightarrow> repo_kind \<Rightarrow> repo_id \<Rightarrow> string \<Rightarrow> string \<Rightarrow> digest \<Rightarrow> tree
   \<Rightarrow> (backend_error, unit) res \<times> tree" where
  "linkSnapshotFile b kind repo sha p d t =
     (case safeJoin (join_clean (repoDir b kind repo @ [''snapshots'']) sha) p of
        None \<Rightarrow> (Err (fs_fault ''unsafe snapshot path''), t)
      | Some linkPath \<Rightarrow>
          (case os_MkdirAll (fb_env b) (butlast linkPath) t of
             (False, t1) \<Rightarrow> (Err (fs_fault ''creating snapshot dir''), t1)
           | (True, t1) \<Rightarrow>
               (case os_Remove (fb_env b) linkPath t1 of
                  (False, t2) \<Rightarrow> (Err (fs_fault ''replacing snapshot link''), t2)
                | (True, t2) \<Rightarrow> link_at (fb_env b) linkPath (blobPath b kind repo d) t2)))"

fun link_files ::
  "fs_backend \<Rightarrow> repo_kind \<Rightarrow> repo_id \<Rightarrow> string \<Rightarrow> FileEntry list \<Rightarrow> tree
   \<Rightarrow> (backend_error, unit) res \<times> tree" where
  "link_files b kind repo sha [] t = (Ok (), t)"
| "link_files b kind repo sha (f # fs) t =
     (if Digest_IsZero (fe_Digest f) then link_files b kind repo sha fs t
      else if os_Stat t (blobPath b kind repo (fe_Digest f)) then
        (case linkSnapshotFile b kind repo sha (fe_Path f) (fe_Digest f) t of
           (Ok u, t') \<Rightarrow> link_files b kind repo sha fs t'
         | (Err e, t') \<Rightarrow> (Err e, t')
         | (Panic, t') \<Rightarrow> (Panic, t'))
      else link_files b kind repo sha fs t)"

fun put_refs ::
  "fs_backend \<Rightarrow> repo_kind \<Rightarrow> repo_id \<Rightarrow> (string \<times> string) list \<Rightarrow> tree
   \<Rightarrow> (backend_error, unit) res \<times> tree" where
  "put_refs b kind repo [] t = (Ok (), t)"
| "put_refs b kind repo ((ref, sha) # refs) t =
     (if \<not> IsCommitSHA sha then (Err (fs_fault ''ref points at invalid commit''), t)
      else case safeJoin (repoDir b kind repo @ [''refs'']) ref of
             None \<Rightarrow> (Err (fs_fault ''invalid ref name''), t)
           | Some refPath \<Rightarrow>
               (case writeFileAtomic (fb_env b) refPath (to_bytes sha) t of
                  (Ok u, t') \<Rightarrow> put_refs b kind repo refs t'
                | (Err e, t') \<Rightarrow> (Err e, t')
                | (Panic, t') \<Rightarrow> (Panic, t')))"

definition fs_PutManifest ::
  "fs_backend \<Rightarrow> Manifest \<Rightarrow> (string \<times> string) list \<Rightarrow> tree \<Rightarrow> (backend_error, unit) res \<times> tree" where
  "fs_PutManifest b m refs t =
     (if repo_is_zero (mf_Repo m) \<or> mf_CommitSHA m = [] \<or> \<not> IsCommitSHA (mf_CommitSHA m) then
        (Err (fs_fault ''manifest requires repo and a valid commit SHA''), t)
      else
        let kind = (if mf_Kind m = RepoKindNone then RepoKindModel else mf_Kind m) in
        if \<not> list_all (\<lambda>f. validRelPath (fe_Path f)) (mf_Files m) then
          (Err (fs_fault ''manifest file path is not a safe relative path''), t)
        else
          case writeFileAtomic (fb_env b) (manifestPath b kind (mf_Repo m) (mf_CommitSHA m))
                 (enc_manifest (fb_env b) m) t of
            (Ok u, t1) \<Rightarrow>
              (case link_files b kind (mf_Repo m) (mf_CommitSHA m) (mf_Files m) t1 of
                 (Ok u, t2) \<Rightarrow> put_refs b kind (mf_Repo m) refs t2
               | (Err e, t2) \<Rightarrow> (Err e, t2)
               | (Panic, t2) \<Rightarrow> (Panic, t2))
          | (Err e, t1) \<Rightarrow> (Err e, t1)
          | (Panic, t1) \<Rightarrow> (Panic, t1))"

text \<open>
  \<open>os.Stat\<close> and \<open>os.Open\<close> also succeed on a directory; its size is the file
  system's, and reading from it yields no bytes.
\<close>

definition fs_StatBlob ::
  "fs_backend \<Rightarrow> repo_kind \<Rightarrow> repo_id \<Rightarrow> digest \<Rightarrow> tree \<Rightarrow> (backend_error, BlobInfo) res" where
  "fs_StatBlob b kind repo d t =
     (case follow t (blobPath b kind repo d) of
        None \<Rightarrow> Err ErrBlobNotFound
      | Some (FFile c) \<Rightarrow> Ok \<lparr>bi_Digest = d, bi_Size = int (length c)\<rparr>
      | Some _ \<Rightarrow> Ok \<lparr>bi_Digest = d, bi_Size = dir_size (fb_env b)\<rparr>)"

definition fs_OpenBlob ::
  "fs_backend \<Rightarrow> repo_kind \<Rightarrow> repo_id \<Rightarrow> digest \<Rightarrow> tree \<Rightarrow> (backend_error, byte list) res" where
  "fs_OpenBlob b kind repo d t =
     (case follow t (blobPath b kind repo d) of
        None \<Rightarrow> Err ErrBlobNotFound
      | Some (FFile c) \<Rightarrow> Ok c
      | Some _ \<Rightarrow> Ok [])"

section \<open>Verified writes (verify.go)\<close>

text \<open>\<open>gitBlobHasher\<close>: the git object header, then the content.\<close>

definition git_header :: "int \<Rightarrow> byte list" where
  "git_header sz = to_bytes (''blob '' @ format_int sz) @ [0]"

text \<open>
  \<open>writeAndVerify\<close>: the number of bytes written and the outcome. With an
  unknown size the git hash is computed over the file afterwards.
\<close>

definition writeAndVerify ::
  "fs_env \<Rightarrow> byte list \<Rightarrow> digest \<Rightarrow> int \<Rightarrow> int \<times> (backend_error, unit) res" where
  "writeAndVerify env content d sz =
     (let written = int (length content); algo = Digest_Algo d in
      if algo = ''sha256'' then
        (written, if sha256hex env content \<noteq> Digest_Hex d then Err ErrDigestMismatch else Ok ())
      else if algo = ''sha1'' then
        (if 0 \<le> sz then
           (written, if sha1hex env (git_header sz @ content) \<noteq> Digest_Hex d
                     then Err ErrDigestMismatch else Ok ())
         else
           (written, if sha1hex env (git_header written @ content) \<noteq> Digest_Hex d
                     then Err ErrDigestMismatch else Ok ()))
      else (written, Ok ()))"

text \<open>\<open>linkBlobIntoSnapshots\<close>: every manifest of the repository that names the digest.\<close>

fun link_entries ::
  "fs_backend \<Rightarrow> repo_kind \<Rightarrow> repo_id \<Rightarrow> string \<Rightarrow> digest \<Rightarrow> FileEntry list \<Rightarrow> tree
   \<Rightarrow> (backend_error, unit) res \<times> tree" where
  "link_entries b kind repo sha d [] t = (Ok (), t)"
| "link_entries b kind repo sha d (f # fs) t =
     (if fe_Digest f = d then
        (case linkSnapshotFile b kind repo sha (fe_Path f) d t of
           (Ok u, t') \<Rightarrow> link_entries b kind repo sha d fs t'
         | (Err e, t') \<Rightarrow> (Err e, t')
         | (Panic, t') \<Rightarrow> (Panic, t'))
      else link_entries b kind repo sha d fs t)"

fun link_manifests ::
  "fs_backend \<Rightarrow> repo_kind \<Rightarrow> repo_id \<Rightarrow> digest \<Rightarrow> string list \<Rightarrow> tree
   \<Rightarrow> (backend_error, unit) res \<times> tree" where
  "link_manifests b kind repo d [] t = (Ok (), t)"
| "link_manifests b kind repo d (name # names) t =
     (let sha = trim_suffix ''.json'' name in
      if \<not> IsCommitSHA sha then link_manifests b kind repo d names t
      else case fs_GetManifest b kind repo sha t of
             Ok m \<Rightarrow>
               (case link_entries b kind repo sha d (mf_Files m) t of
                  (Ok u, t') \<Rightarrow> link_manifests b kind repo d names t'
                | (Err e, t') \<Rightarrow> (Err e, t')
                | (Panic, t') \<Rightarrow> (Panic, t'))
           | _ \<Rightarrow> link_manifests b kind repo d names t)"

definition linkBlobIntoSnapshots ::
  "fs_backend \<Rightarrow> repo_kind \<Rightarrow> repo_id \<Rightarrow> digest \<Rightarrow> tree \<Rightarrow> (backend_error, unit) res \<times> tree" where
  "linkBlobIntoSnapshots b kind repo d t =
     (let dir = metaDir b kind repo @ [''manifests''] in
      case follow t dir of
        None \<Rightarrow> if below_file t dir then (Err (fs_fault ''scanning manifests''), t) else (Ok (), t)
      | Some FDir \<Rightarrow> link_manifests b kind repo d (dir_names t dir) t
      | Some _ \<Rightarrow> (Err (fs_fault ''scanning manifests''), t))"

definition fs_PutBlob ::
  "fs_backend \<Rightarrow> repo_kind \<Rightarrow> repo_id \<Rightarrow> digest \<Rightarrow> byte list \<Rightarrow> int \<Rightarrow> tree
   \<Rightarrow> (backend_error, unit) res \<times> tree" where
  "fs_PutBlob b kind repo d content sz t =
     (let target = blobPath b kind repo d; env = fb_env b in
      if os_Stat t target then (Ok (), t)
      else case os_MkdirAll env (butlast target) t of
        (False, t1) \<Rightarrow> (Err (fs_fault ''creating blobs dir''), t1)
      | (True, t1) \<Rightarrow>
          if CHR ''/'' \<in> set (take (min 12 (length (Digest_Hex d))) (Digest_Hex d)) \<or> \<not> io_ok env target then
            (Err (fs_fault ''creating temp blob''), t1)
          else
            (case writeAndVerify env content d sz of
               (written, Err e) \<Rightarrow> (Err e, t1)
             | (written, Panic) \<Rightarrow> (Panic, t1)
             | (written, Ok u) \<Rightarrow>
                 if 0 \<le> sz \<and> written \<noteq> sz then (Err (fs_fault ''short write''), t1)
                 else if lookup t1 target = Some FDir then (Err (fs_fault ''committing blob''), t1)
                 else linkBlobIntoSnapshots b kind repo d (AList.update target (FFile content) t1)))"

definition fs_Ping :: "fs_backend \<Rightarrow> tree \<Rightarrow> (backend_error, unit) res" where
  "fs_Ping b t =
     (if io_ok (fb_env b) (fb_root b) \<and> lookup t (fb_root b) = Some FDir then Ok ()
      else Err (fs_fault ''root not writable''))"

definition Fsbackend :: "fs_backend \<Rightarrow> tree Backend" where
  "Fsbackend b =
     \<lparr>bk_Name = fb_name b, bk_CreateRepo = fs_CreateRepo b, bk_DeleteRepo = fs_DeleteRepo b,
      bk_ResolveRef = fs_ResolveRef b, bk_GetManifest = fs_GetManifest b,
      bk_PutManifest = fs_PutManifest b, bk_StatBlob = fs_StatBlob b, bk_OpenBlob = fs_OpenBlob b,
      bk_PutBlob = fs_PutBlob b, bk_Ping = fs_Ping b\<rparr>"

end
