(* ===== verification/Fsbackend_Contract.thy ===== *)
theory Fsbackend_Contract
  imports Fsbackend "HOL-Library.Countable"
begin

text \<open>
  Properties of the filesystem backend: the path functions are safe, every
  operation changes only its own part of the tree, and for each repository the
  backend keeps the laws of the interface (\<open>backend_contract\<close>), with the
  verified content of every blob; snapshot links resolve to their blobs; and
  which repositories share a directory.
\<close>

section \<open>Paths\<close>

definition plain_seg :: "string \<Rightarrow> bool" where
  "plain_seg s \<longleftrightarrow> s \<noteq> [] \<and> s \<noteq> ''.'' \<and> s \<noteq> ''..''"

lemma path_step_plain: "plain_seg s \<Longrightarrow> path_step r acc s = acc @ [s]"
  by (simp add: path_step_def plain_seg_def)

lemma foldl_plain: "list_all plain_seg ss \<Longrightarrow> foldl (path_step r) acc ss = acc @ ss"
  by (induction ss arbitrary: acc) (auto simp: path_step_plain)

lemma walk_plain [simp]: "list_all plain_seg ss \<Longrightarrow> walk base ss = base @ ss"
  by (simp add: walk_def foldl_plain)

lemma join_clean_plain: "plain_seg s \<Longrightarrow> CHR ''/'' \<notin> set s \<Longrightarrow> join_clean base s = base @ [s]"
  by (simp add: join_clean_def split_on_free)

lemma validRelPath_iff:
  "validRelPath p \<longleftrightarrow> CHR 0x5C \<notin> set p \<and> list_all plain_seg (split_on CHR ''/'' p)"
proof
  assume v: "validRelPath p"
  then have "clean_rel p = p" by (simp add: validRelPath_def Let_def)
  with v show "CHR 0x5C \<notin> set p \<and> list_all plain_seg (split_on CHR ''/'' p)"
    by (simp add: validRelPath_def Let_def plain_seg_def [abs_def])
next
  assume p: "CHR 0x5C \<notin> set p \<and> list_all plain_seg (split_on CHR ''/'' p)"
  then have "clean_rel p = join_on ''/'' (split_on CHR ''/'' p)"
    by (simp add: clean_rel_def foldl_plain Let_def)
  then have "clean_rel p = p" by simp
  moreover have "p \<noteq> []" using p by (auto simp: plain_seg_def)
  moreover have "\<not> has_prefix ''/'' p"
    using p by (auto simp: has_prefix_iff plain_seg_def)
  ultimately show "validRelPath p"
    using p by (simp add: validRelPath_def Let_def plain_seg_def [abs_def])
qed

lemma safeJoin_Some_iff:
  "safeJoin base rel = Some q \<longleftrightarrow> validRelPath rel \<and> q = base @ split_on CHR ''/'' rel"
  by (auto simp: safeJoin_def join_clean_def validRelPath_iff)

lemma safeJoin_None_iff: "safeJoin base rel = None \<longleftrightarrow> \<not> validRelPath rel"
  by (simp add: safeJoin_def)

lemma split_on_inject: "split_on c s = split_on c t \<longleftrightarrow> s = t"
  by (metis join_split)

lemma drop_common_append:
  "\<exists>c. xs = c @ fst (drop_common xs ys) \<and> ys = c @ snd (drop_common xs ys)"
proof (induction xs ys rule: drop_common.induct)
  case (1 x xs y ys)
  show ?case
  proof (cases "x = y")
    case True
    with 1 obtain c where "xs = c @ fst (drop_common xs ys)" "ys = c @ snd (drop_common xs ys)" by auto
    with True show ?thesis by (intro exI [of _ "x # c"]) simp
  qed (intro exI [of _ "[]"], simp)
qed (intro exI [of _ "[]"], simp)+

lemma walk_up:
  "''..'' \<notin> set xs \<Longrightarrow> walk (base @ xs) (replicate (length xs) ''..'' @ ys) = walk base ys"
proof (induction xs arbitrary: ys rule: rev_induct)
  case Nil
  then show ?case by simp
next
  case (snoc x xs)
  have "replicate (length (xs @ [x])) ''..'' @ ys = ''..'' # (replicate (length xs) ''..'' @ ys)" by simp
  moreover have "path_step True (base @ xs @ [x]) ''..'' = base @ xs"
    using snoc.prems by (auto simp: path_step_def butlast_append)
  ultimately show ?case using snoc by (simp add: walk_def)
qed

lemma walk_rel_path:
  assumes "''..'' \<notin> set frm" "list_all plain_seg tgt"
  shows "walk frm (rel_path frm tgt) = tgt"
proof -
  obtain c where c: "frm = c @ fst (drop_common frm tgt)" "tgt = c @ snd (drop_common frm tgt)"
    using drop_common_append by blast
  obtain a b where ab: "drop_common frm tgt = (a, b)" by fastforce
  have ft: "frm = c @ a" "tgt = c @ b" using c ab by auto
  show ?thesis
  proof (cases "a = [] \<and> b = []")
    case True
    then show ?thesis using ft ab by (simp add: rel_path_def walk_def path_step_def)
  next
    case False
    have "rel_path frm tgt = replicate (length a) ''..'' @ b"
      using False ab by (auto simp: rel_path_def)
    then have "walk frm (rel_path frm tgt) = walk c b"
      using ft assms(1) walk_up [of a c b] by simp
    then show ?thesis using ft assms(2) by simp
  qed
qed

section \<open>Which part of the tree an operation changes\<close>

lemma lookup_update [simp]: "p \<noteq> [] \<Longrightarrow> lookup (AList.update p n t) q = (if q = p then Some n else lookup t q)"
  by (auto simp: lookup_def AList.update_conv')

lemma lookup_delete [simp]: "p \<noteq> [] \<Longrightarrow> lookup (AList.delete p t) q = (if q = p then None else lookup t q)"
  by (auto simp: lookup_def AList.delete_conv')

lemma path_prefix_append [simp]: "path_prefix p (p @ q)"
  by (simp add: path_prefix_def)

lemma path_prefix_iff: "path_prefix p q \<longleftrightarrow> (\<exists>r. q = p @ r)"
  by (metis append_take_drop_id path_prefix_append path_prefix_def)

lemma path_prefix_trans: "path_prefix p q \<Longrightarrow> path_prefix q r \<Longrightarrow> path_prefix p r"
  by (auto simp: path_prefix_iff)

text \<open>
  \<open>touches base t t'\<close>: outside \<open>base\<close> nothing changes, except that directories
  above \<open>base\<close> may appear.
\<close>

definition touches :: "path \<Rightarrow> tree \<Rightarrow> tree \<Rightarrow> bool" where
  "touches base t t' \<longleftrightarrow>
     (\<forall>q. lookup t' q = lookup t q \<or> path_prefix base q \<or>
        (path_prefix q base \<and> lookup t q = None \<and> lookup t' q = Some FDir))"

lemma touches_refl [simp]: "touches base t t"
  by (simp add: touches_def)

lemma touches_trans: "touches base t t' \<Longrightarrow> touches base t' t'' \<Longrightarrow> touches base t t''"
  unfolding touches_def by (metis option.distinct(1))

lemma touches_lookup:
  "touches base t t' \<Longrightarrow> \<not> path_prefix base q \<Longrightarrow> \<not> path_prefix q base \<Longrightarrow> lookup t' q = lookup t q"
  by (auto simp: touches_def)

lemma touches_keeps:
  "touches base t t' \<Longrightarrow> \<not> path_prefix base q \<Longrightarrow> lookup t q = Some n \<Longrightarrow> lookup t' q = Some n"
  unfolding touches_def by (metis option.distinct(1))

lemma touches_link:
  "touches base t t' \<Longrightarrow> \<not> path_prefix base q \<Longrightarrow> lookup t' q = Some (FLink x) \<Longrightarrow> lookup t q = Some (FLink x)"
  unfolding touches_def by (metis fnode.distinct(3) option.inject)

lemma mkdir_from_props:
  "mkdir_from env base ss t = (ok, t') \<Longrightarrow>
     (\<forall>q. lookup t' q = lookup t q \<or>
        (path_prefix q (base @ ss) \<and> lookup t q = None \<and> lookup t' q = Some FDir)) \<and>
     (ok \<longrightarrow> (\<forall>n. 0 < n \<longrightarrow> n \<le> length ss \<longrightarrow> lookup t' (base @ take n ss) = Some FDir))"
proof (induction env base ss t rule: mkdir_from.induct)
  case (1 env base t)
  then show ?case by simp
next
  case (2 env base s ss t)
  let ?p = "base @ [s]"
  have step: "lookup t' (base @ take n (s # ss)) = Some FDir"
    if "\<forall>n. 0 < n \<longrightarrow> n \<le> length ss \<longrightarrow> lookup t' (?p @ take n ss) = Some FDir"
      "lookup t' ?p = Some FDir" "0 < n" "n \<le> length (s # ss)" for n
    using that by (cases n; cases "n - 1") auto
  show ?case
  proof (cases "lookup t ?p")
    case None
    show ?thesis
    proof (cases "io_ok env ?p")
      case True
      with None 2(3) have r: "mkdir_from env ?p ss (AList.update ?p FDir t) = (ok, t')"
        by (simp add: Let_def)
      note IH = 2(1) [OF refl None True r]
      have "lookup t' ?p = Some FDir" using IH by (metis append_is_Nil_conv lookup_update not_Cons_self2 option.distinct(1))
      moreover have "path_prefix ?p (base @ s # ss)" by (auto simp: path_prefix_iff)
      ultimately show ?thesis using IH None step by (auto split: if_splits) metis+
    next
      case False
      with None 2(3) show ?thesis by (auto simp: Let_def)
    qed
  next
    case (Some x)
    show ?thesis
    proof (cases "x = FDir")
      case True
      with Some 2(3) have r: "mkdir_from env ?p ss t = (ok, t')" by (simp add: Let_def)
      note IH = 2(2) [OF refl Some True r]
      have "lookup t' ?p = Some FDir" using IH Some True by (metis option.distinct(1))
      then show ?thesis using IH step by auto
    next
      case False
      with Some 2(3) show ?thesis by (cases x) (auto simp: Let_def)
    qed
  qed
qed

lemma mkdir_touches:
  assumes "os_MkdirAll env p t = (ok, t')" "path_prefix p base \<or> path_prefix base p"
  shows "touches base t t'"
  unfolding touches_def
proof
  fix q
  have "lookup t' q = lookup t q \<or> (path_prefix q p \<and> lookup t q = None \<and> lookup t' q = Some FDir)"
    using mkdir_from_props [of env "[]" p t ok t'] assms(1) by (auto simp: os_MkdirAll_def)
  moreover have "path_prefix q p \<Longrightarrow> path_prefix q base \<or> path_prefix base q"
    using assms(2) unfolding path_prefix_iff by (metis append_eq_append_conv2)
  ultimately show "lookup t' q = lookup t q \<or> path_prefix base q \<or>
      (path_prefix q base \<and> lookup t q = None \<and> lookup t' q = Some FDir)" by blast
qed

lemma mkdir_change:
  "os_MkdirAll env p t = (ok, t') \<Longrightarrow>
     lookup t' q = lookup t q \<or> (lookup t q = None \<and> lookup t' q = Some FDir)"
  using mkdir_from_props [of env "[]" p t ok t'] unfolding os_MkdirAll_def by blast

lemma mkdir_keeps: "os_MkdirAll env p t = (ok, t') \<Longrightarrow> lookup t q = Some n \<Longrightarrow> lookup t' q = Some n"
  by (drule mkdir_change [where q = q]) auto

lemma mkdir_only_dirs:
  "os_MkdirAll env p t = (ok, t') \<Longrightarrow> lookup t' q = Some n \<Longrightarrow> n \<noteq> FDir \<Longrightarrow> lookup t q = Some n"
  by (drule mkdir_change [where q = q]) auto

lemma mkdir_done:
  assumes "os_MkdirAll env p t = (True, t')" "path_prefix q p"
  shows "lookup t' q = Some FDir"
proof (cases "q = []")
  case True
  then show ?thesis by (simp add: lookup_def)
next
  case False
  obtain r where r: "p = q @ r" using assms(2) by (auto simp: path_prefix_iff)
  then have "0 < length q" "length q \<le> length p" "take (length q) p = q" using False by auto
  with mkdir_from_props [of env "[]" p t True t'] assms(1) show ?thesis
    by (metis append_Nil os_MkdirAll_def)
qed

text \<open>What a successful or failed write leaves behind.\<close>

lemma writeFileAtomic_props:
  assumes "writeFileAtomic env p c t = (r, t')" "p \<noteq> []" "path_prefix base p" "p \<noteq> base"
  shows "touches base t t'"
    and "lookup t q = Some n \<Longrightarrow> q \<noteq> p \<Longrightarrow> lookup t' q = Some n"
    and "lookup t' q = Some (FLink x) \<Longrightarrow> lookup t q = Some (FLink x)"
    and "r = Ok () \<Longrightarrow> lookup t' p = Some (FFile c)"
    and "r = Ok () \<Longrightarrow> path_prefix q (butlast p) \<Longrightarrow> lookup t' q = Some FDir"
proof -
  obtain ok t1 where mk: "os_MkdirAll env (butlast p) t = (ok, t1)" by fastforce
  have "path_prefix base (butlast p)"
    using assms(3,4) by (auto simp: path_prefix_iff butlast_append)
  then have t1: "touches base t t1" by (intro mkdir_touches [OF mk]) simp
  have t': "t' = t1 \<or> (ok \<and> t' = AList.update p (FFile c) t1)"
    and r: "r = Ok () \<Longrightarrow> ok \<and> t' = AList.update p (FFile c) t1"
    using assms(1) mk by (auto simp: writeFileAtomic_def split: bool.splits if_splits)
  have "touches base t1 (AList.update p (FFile c) t1)"
    using assms(2,3) by (auto simp: touches_def)
  then show "touches base t t'" using t' touches_trans [OF t1] t1 by blast
  show "lookup t q = Some n \<Longrightarrow> q \<noteq> p \<Longrightarrow> lookup t' q = Some n"
    using t' mkdir_keeps [OF mk] assms(2) by auto
  show "lookup t' q = Some (FLink x) \<Longrightarrow> lookup t q = Some (FLink x)"
    using t' mkdir_only_dirs [OF mk] assms(2) by (auto split: if_splits)
  show "r = Ok () \<Longrightarrow> lookup t' p = Some (FFile c)" using r assms(2) by simp
  show "lookup t' q = Some FDir" if ok: "r = Ok ()" and q: "path_prefix q (butlast p)"
  proof -
    have "os_MkdirAll env (butlast p) t = (True, t1)" using mk r [OF ok] by simp
    from mkdir_done [OF this q] have "lookup t1 q = Some FDir" .
    moreover have "q \<noteq> p"
    proof
      assume "q = p"
      with q have "length p \<le> length (butlast p)" by (metis path_prefix_def length_take min.cobounded1)
      moreover have "0 < length p" using assms(2) by simp
      ultimately show False unfolding length_butlast by arith
    qed
    ultimately show ?thesis using r [OF ok] assms(2) by simp
  qed
qed

lemma os_Remove_props:
  assumes "os_Remove env p t = (ok, t')"
  shows "q \<noteq> p \<Longrightarrow> lookup t' q = lookup t q" and "ok \<Longrightarrow> p \<noteq> [] \<Longrightarrow> lookup t' p = None"
    and "lookup t' q = Some n \<Longrightarrow> lookup t q = Some n"
  using assms
  by (auto simp: os_Remove_def lookup_def AList.delete_conv' split: option.splits fnode.splits if_splits)

lemma link_at_props:
  assumes "link_at env p blob t = (r, t')" "p \<noteq> []"
  shows "q \<noteq> p \<Longrightarrow> lookup t' q = lookup t q"
    and "r = Ok () \<Longrightarrow> lookup t' p = Some (FLink (rel_path (butlast p) blob)) \<or>
           (\<exists>c. follow t blob = Some (FFile c) \<and> lookup t' p = Some (FFile c))"
  using assms
  by (auto simp: link_at_def copyFile_def follow_def split: option.splits fnode.splits if_splits)

section \<open>The layout of one repository\<close>

lemma is_lower_hex_not: "is_lower_hex c \<Longrightarrow> c \<noteq> CHR ''/'' \<and> c \<noteq> CHR ''.'' \<and> c \<noteq> CHR ''-''"
  by (auto simp: is_lower_hex_iff)

lemma lower_hex_seg:
  assumes "list_all is_lower_hex s" "s \<noteq> []"
  shows "CHR ''/'' \<notin> set s" and "plain_seg s" and "CHR ''.'' \<notin> set s"
proof -
  show "CHR ''/'' \<notin> set s" "CHR ''.'' \<notin> set s"
    using assms(1) is_lower_hex_not by (auto simp: list_all_iff)
  then show "plain_seg s" using assms(2) by (auto simp: plain_seg_def)
qed

lemma IsCommitSHA_seg:
  assumes "IsCommitSHA sha"
  shows "CHR ''/'' \<notin> set sha" and "plain_seg sha" and "plain_seg (sha @ ''.json'')"
proof -
  have "sha \<noteq> []" "list_all is_lower_hex sha" using assms by (auto simp: IsCommitSHA_def)
  then show "CHR ''/'' \<notin> set sha" "plain_seg sha" by (auto dest: lower_hex_seg)
  show "plain_seg (sha @ ''.json'')" using \<open>sha \<noteq> []\<close> by (cases sha) (auto simp: plain_seg_def)
qed

lemma digest_hex_seg:
  assumes "digestPattern d"
  shows "CHR ''/'' \<notin> set (Digest_Hex d)" and "plain_seg (Digest_Hex d)"
proof -
  obtain a hx where "d = a @ '':'' @ hx" "a = ''sha1'' \<or> a = ''sha256''" "6 \<le> length hx"
    "list_all is_lower_hex hx"
    using assms unfolding digestPattern_iff by auto
  moreover from this have "Digest_Hex d = hx" by (auto simp: Digest_Hex_def)
  moreover have "hx \<noteq> []" using calculation by auto
  ultimately show "CHR ''/'' \<notin> set (Digest_Hex d)" "plain_seg (Digest_Hex d)"
    by (auto dest: lower_hex_seg)
qed

lemma digestPattern_nonempty: "digestPattern d \<Longrightarrow> d \<noteq> []"
  by (auto simp: digestPattern_def)

lemma manifestPath_commit:
  "IsCommitSHA sha \<Longrightarrow> manifestPath b kind repo sha = metaDir b kind repo @ [''manifests'', sha @ ''.json'']"
  using IsCommitSHA_seg [of sha] by (simp add: manifestPath_def join_clean_plain)

lemma blobPath_digest:
  "digestPattern d \<Longrightarrow> blobPath b kind repo d = repoDir b kind repo @ [''blobs'', Digest_Hex d]"
  using digest_hex_seg [of d] by (simp add: blobPath_def join_clean_plain)

lemma APIPrefix_hd: "APIPrefix k \<noteq> [] \<and> hd (APIPrefix k) \<noteq> CHR ''.''"
  by (cases k) (simp_all add: APIPrefix_def)

lemma repoDirName_not_meta [simp]: "repoDirName kind repo \<noteq> ''.shpiel''" "''.shpiel'' \<noteq> repoDirName kind repo"
proof -
  have "hd (repoDirName kind repo) \<noteq> CHR ''.''"
    using APIPrefix_hd [of kind] by (simp add: repoDirName_def)
  then show "repoDirName kind repo \<noteq> ''.shpiel''" by auto
  then show "''.shpiel'' \<noteq> repoDirName kind repo" by simp
qed

lemma plain_repoDirName [simp]: "plain_seg (repoDirName kind repo)"
proof -
  have "3 \<le> length (repoDirName kind repo)"
    by (cases kind) (simp_all add: repoDirName_def APIPrefix_def)
  then show ?thesis by (auto simp: plain_seg_def)
qed

lemma plain_dirs [simp]:
  "plain_seg ''refs''" "plain_seg ''blobs''" "plain_seg ''snapshots''" "plain_seg ''manifests''"
  "plain_seg ''.shpiel''"
  by (simp_all add: plain_seg_def)

lemma plain_no_dotdot: "list_all plain_seg p \<Longrightarrow> ''..'' \<notin> set p"
  by (auto simp: list_all_iff plain_seg_def)

text \<open>A snapshot entry that reads as the blob: a copy of it, or a link that resolves to it.\<close>

definition linked :: "tree \<Rightarrow> path \<Rightarrow> path \<Rightarrow> byte list \<Rightarrow> bool" where
  "linked t q blob c \<longleftrightarrow> lookup t blob = Some (FFile c) \<and>
     (lookup t q = Some (FFile c) \<or> (\<exists>rel. lookup t q = Some (FLink rel) \<and> walk (butlast q) rel = blob))"

lemma linked_follow: "linked t q blob c \<Longrightarrow> follow t q = Some (FFile c)"
  by (auto simp: linked_def follow_def)

lemma linked_keeps:
  "linked t q blob c \<Longrightarrow> (\<And>n. lookup t q = Some n \<Longrightarrow> lookup t' q = Some n) \<Longrightarrow>
     (\<And>n. lookup t blob = Some n \<Longrightarrow> lookup t' blob = Some n) \<Longrightarrow> linked t' q blob c"
  unfolding linked_def by metis

lemma linkSnapshotFile_props:
  assumes "linkSnapshotFile b kind repo sha p d t = (r, t')" "IsCommitSHA sha"
  shows "touches (repoDir b kind repo @ [''snapshots'']) t t'"
    and "lookup t q = Some n \<Longrightarrow> q \<noteq> repoDir b kind repo @ [''snapshots'', sha] @ split_on CHR ''/'' p \<Longrightarrow>
           lookup t' q = Some n"
    and "r = Ok () \<Longrightarrow> list_all plain_seg (fb_root b) \<Longrightarrow> digestPattern d \<Longrightarrow>
           lookup t (blobPath b kind repo d) = Some (FFile c) \<Longrightarrow>
           linked t' (repoDir b kind repo @ [''snapshots'', sha] @ split_on CHR ''/'' p) (blobPath b kind repo d) c"
proof -
  let ?base = "repoDir b kind repo @ [''snapshots'']"
  let ?l = "repoDir b kind repo @ [''snapshots'', sha] @ split_on CHR ''/'' p"
  have snap: "join_clean ?base sha = repoDir b kind repo @ [''snapshots'', sha]"
    using IsCommitSHA_seg [OF assms(2)] by (simp add: join_clean_plain)
  have ne: "?l \<noteq> []" by simp
  have under: "path_prefix ?base ?l" "path_prefix ?base (butlast ?l)"
    by (auto simp: path_prefix_iff butlast_append)
  consider (invalid) "\<not> validRelPath p" "t' = t" "r \<noteq> Ok ()"
    | (valid) "validRelPath p" "safeJoin (join_clean ?base sha) p = Some ?l"
    using assms(1) snap
    by (cases "validRelPath p") (auto simp: linkSnapshotFile_def safeJoin_Some_iff safeJoin_None_iff
        split: option.splits)
  note cases = this
  obtain ok1 t1 where mk: "os_MkdirAll (fb_env b) (butlast ?l) t = (ok1, t1)" by fastforce
  obtain ok2 t2 where rm: "os_Remove (fb_env b) ?l t1 = (ok2, t2)" by fastforce
  obtain r3 t3 where lk: "link_at (fb_env b) ?l (blobPath b kind repo d) t2 = (r3, t3)" by fastforce
  have res: "(\<not> ok1 \<and> t' = t1 \<and> r \<noteq> Ok ()) \<or> (ok1 \<and> \<not> ok2 \<and> t' = t2 \<and> r \<noteq> Ok ()) \<or>
      (ok1 \<and> ok2 \<and> t' = t3 \<and> r = r3)" if "safeJoin (join_clean ?base sha) p = Some ?l"
    using assms(1) that mk rm lk
    by (auto simp: linkSnapshotFile_def split: bool.splits)
  have k1: "lookup t q = Some n \<Longrightarrow> lookup t1 q = Some n" for q n by (rule mkdir_keeps [OF mk])
  have k2: "q \<noteq> ?l \<Longrightarrow> lookup t2 q = lookup t1 q" for q by (rule os_Remove_props(1) [OF rm])
  have k3: "q \<noteq> ?l \<Longrightarrow> lookup t3 q = lookup t2 q" for q by (rule link_at_props(1) [OF lk ne])
  have tt: "touches ?base t t1" using under by (intro mkdir_touches [OF mk]) simp
  have touch: "touches ?base t t2" "touches ?base t t3"
    using tt k2 k3 under(1) unfolding touches_def by metis+
  show "touches ?base t t'"
    using cases res tt touch by (cases rule: cases) auto
  show "lookup t' q = Some n" if "lookup t q = Some n" "q \<noteq> ?l" for q n
    using cases res that k1 k2 k3 by (cases rule: cases) auto
  show "linked t' ?l (blobPath b kind repo d) c" if ok: "r = Ok ()" "list_all plain_seg (fb_root b)"
    "digestPattern d" "lookup t (blobPath b kind repo d) = Some (FFile c)"
  proof -
    have bp: "blobPath b kind repo d = repoDir b kind repo @ [''blobs'', Digest_Hex d]"
      by (rule blobPath_digest [OF ok(3)])
    have nb: "blobPath b kind repo d \<noteq> ?l" unfolding bp by simp
    have v: "validRelPath p" "t' = t3" "r3 = Ok ()"
      using cases res ok(1) by (cases rule: cases, auto)+
    have b2: "lookup t2 (blobPath b kind repo d) = Some (FFile c)"
      and b3: "lookup t3 (blobPath b kind repo d) = Some (FFile c)"
      using k1 [OF ok(4)] k2 [OF nb] k3 [OF nb] by simp_all
    have plain: "list_all plain_seg (butlast ?l)" "list_all plain_seg (blobPath b kind repo d)"
      using ok(2) v(1) IsCommitSHA_seg(2) [OF assms(2)] digest_hex_seg(2) [OF ok(3)]
      by (auto simp: bp repoDir_def validRelPath_iff butlast_append list_all_iff dest: in_set_butlastD)
    have "walk (butlast ?l) (rel_path (butlast ?l) (blobPath b kind repo d)) = blobPath b kind repo d"
      by (rule walk_rel_path [OF plain_no_dotdot [OF plain(1)] plain(2)])
    with link_at_props(2) [OF lk ne v(3)] b2 b3 v(2) show ?thesis
      by (auto simp: linked_def follow_def)
  qed
qed

text \<open>The loops over entries and manifests only touch the snapshots.\<close>

lemma link_files_touches:
  "link_files b kind repo sha fs t = (r, t') \<Longrightarrow> IsCommitSHA sha \<Longrightarrow>
     touches (repoDir b kind repo @ [''snapshots'']) t t'"
proof (induction fs arbitrary: t)
  case Nil
  then show ?case by simp
next
  case (Cons f fs)
  then show ?case
    by (auto split: if_splits prod.splits res.splits
        dest: linkSnapshotFile_props(1) intro: touches_trans)
qed

lemma link_entries_touches:
  "link_entries b kind repo sha d fs t = (r, t') \<Longrightarrow> IsCommitSHA sha \<Longrightarrow>
     touches (repoDir b kind repo @ [''snapshots'']) t t'"
proof (induction fs arbitrary: t)
  case Nil
  then show ?case by simp
next
  case (Cons f fs)
  then show ?case
    by (auto split: if_splits prod.splits res.splits
        dest: linkSnapshotFile_props(1) intro: touches_trans)
qed

lemma link_manifests_touches:
  "link_manifests b kind repo d names t = (r, t') \<Longrightarrow>
     touches (repoDir b kind repo @ [''snapshots'']) t t'"
proof (induction names arbitrary: t)
  case Nil
  then show ?case by simp
next
  case (Cons name names)
  then show ?case
    by (auto simp: Let_def split: if_splits prod.splits res.splits
        dest: link_entries_touches intro: touches_trans)
qed

lemma linkBlobIntoSnapshots_touches:
  "linkBlobIntoSnapshots b kind repo d t = (r, t') \<Longrightarrow>
     touches (repoDir b kind repo @ [''snapshots'']) t t'"
  by (auto simp: linkBlobIntoSnapshots_def Let_def split: option.splits fnode.splits if_splits
      dest: link_manifests_touches)

lemma refs_under:
  "path_prefix (repoDir b kind repo @ [''refs'']) (repoDir b kind repo @ [''refs''] @ ss)"
  by (auto simp: path_prefix_iff)

lemma put_refs_props:
  assumes "put_refs b kind repo refs t = (r, t')"
  shows "touches (repoDir b kind repo @ [''refs'']) t t'"
    and "lookup t q = Some n \<Longrightarrow>
           \<forall>ref \<in> fst ` set refs. q \<noteq> (repoDir b kind repo @ [''refs'']) @ split_on CHR ''/'' ref \<Longrightarrow>
           lookup t' q = Some n"
    and "lookup t' q = Some (FLink x) \<Longrightarrow> lookup t q = Some (FLink x)"
    and "r = Ok () \<Longrightarrow> distinct (map fst refs) \<Longrightarrow> (ref, sha) \<in> set refs \<Longrightarrow>
           IsCommitSHA sha \<and> validRelPath ref \<and> lookup t' (repoDir b kind repo) = Some FDir \<and>
           lookup t' ((repoDir b kind repo @ [''refs'']) @ split_on CHR ''/'' ref) = Some (FFile (to_bytes sha))"
proof -
  let ?base = "repoDir b kind repo @ [''refs'']"
  have "touches ?base t t' \<and>
    (\<forall>q n. lookup t q = Some n \<longrightarrow>
       (\<forall>ref \<in> fst ` set refs. q \<noteq> ?base @ split_on CHR ''/'' ref) \<longrightarrow> lookup t' q = Some n) \<and>
    (\<forall>q x. lookup t' q = Some (FLink x) \<longrightarrow> lookup t q = Some (FLink x)) \<and>
    (r = Ok () \<longrightarrow> distinct (map fst refs) \<longrightarrow> (\<forall>(ref, sha) \<in> set refs.
       IsCommitSHA sha \<and> validRelPath ref \<and> lookup t' (repoDir b kind repo) = Some FDir \<and>
       lookup t' (?base @ split_on CHR ''/'' ref) = Some (FFile (to_bytes sha))))"
    using assms
  proof (induction refs arbitrary: t)
    case Nil
    then show ?case by simp
  next
    case (Cons x refs)
    obtain ref sha where x: "x = (ref, sha)" by (cases x)
    let ?p = "?base @ split_on CHR ''/'' ref"
    show ?case
    proof (cases "IsCommitSHA sha \<and> validRelPath ref")
      case False
      with Cons.prems show ?thesis
        by (auto simp: x safeJoin_None_iff split: if_splits option.splits simp: safeJoin_Some_iff)
    next
      case True
      then have sj: "safeJoin ?base ref = Some ?p" by (simp add: safeJoin_Some_iff)
      obtain r1 t1 where w: "writeFileAtomic (fb_env b) ?p (to_bytes sha) t = (r1, t1)" by fastforce
      have "?p \<noteq> []" "path_prefix ?base ?p" "?p \<noteq> ?base" by (auto simp: path_prefix_iff)
      note p = writeFileAtomic_props [OF w this]
      show ?thesis
      proof (cases "r1 = Ok ()")
        case False
        with Cons.prems True sj w have t': "t' = t1" and nok: "r \<noteq> Ok ()"
          by (cases r1; auto simp: x)+
        have "lookup t1 q = Some n" if "lookup t q = Some n"
          "\<forall>ref \<in> fst ` set (x # refs). q \<noteq> ?base @ split_on CHR ''/'' ref" for q n
          using p(2) [OF that(1)] that(2) by (simp add: x)
        then show ?thesis unfolding t' using p(1,3) nok by blast
      next
        case ok: True
        with Cons.prems True sj w have rest: "put_refs b kind repo refs t1 = (r, t')"
          by (simp add: x)
        note IH = Cons.IH [OF rest]
        have dir: "lookup t1 (repoDir b kind repo) = Some FDir"
          by (rule p(5) [OF ok]) (auto simp: path_prefix_iff butlast_append)
        have dir': "lookup t' (repoDir b kind repo) = Some FDir"
        proof (rule IH [THEN conjunct2, THEN conjunct1, rule_format, OF dir])
          show "repoDir b kind repo \<noteq> ?base @ split_on CHR ''/'' r" for r by simp
        qed
        have keep: "lookup t' q = Some n" if "lookup t q = Some n"
          "\<forall>ref \<in> fst ` set (x # refs). q \<noteq> ?base @ split_on CHR ''/'' ref" for q n
        proof -
          have "lookup t1 q = Some n" using p(2) [OF that(1)] that(2) by (simp add: x)
          moreover have "\<forall>ref \<in> fst ` set refs. q \<noteq> ?base @ split_on CHR ''/'' ref"
            using that(2) by (simp add: x)
          ultimately show ?thesis using IH by blast
        qed
        have all: "IsCommitSHA s \<and> validRelPath rf \<and> lookup t' (repoDir b kind repo) = Some FDir \<and>
            lookup t' (?base @ split_on CHR ''/'' rf) = Some (FFile (to_bytes s))"
          if "r = Ok ()" "distinct (map fst (x # refs))" "(rf, s) \<in> set (x # refs)" for rf s
        proof (cases "(rf, s) \<in> set refs")
          case True
          have "distinct (map fst refs)" using that(2) by simp
          with IH that(1) True show ?thesis by blast
        next
          case False
          then have rs: "rf = ref" "s = sha" using that(3) by (auto simp: x)
          have "\<forall>r \<in> fst ` set refs. ?p \<noteq> ?base @ split_on CHR ''/'' r"
            using that(2) by (auto simp: x split_on_inject)
          then have "lookup t' ?p = Some (FFile (to_bytes sha))" using IH p(4) [OF ok] by blast
          with rs True dir' show ?thesis by blast
        qed
        have "touches ?base t t'" using p(1) IH by (blast intro: touches_trans)
        moreover have "lookup t q = Some (FLink l)" if "lookup t' q = Some (FLink l)" for q l
          using IH p(3) that by blast
        ultimately show ?thesis using keep all by blast
      qed
    qed
  qed
  then show "touches ?base t t'"
    and "lookup t q = Some n \<Longrightarrow> \<forall>ref \<in> fst ` set refs. q \<noteq> ?base @ split_on CHR ''/'' ref \<Longrightarrow>
           lookup t' q = Some n"
    and "lookup t' q = Some (FLink x) \<Longrightarrow> lookup t q = Some (FLink x)"
    and "r = Ok () \<Longrightarrow> distinct (map fst refs) \<Longrightarrow> (ref, sha) \<in> set refs \<Longrightarrow>
           IsCommitSHA sha \<and> validRelPath ref \<and> lookup t' (repoDir b kind repo) = Some FDir \<and>
           lookup t' (?base @ split_on CHR ''/'' ref) = Some (FFile (to_bytes sha))"
    by blast+
qed

section \<open>The invariant of a repository\<close>

definition blob_ok :: "fs_env \<Rightarrow> string \<Rightarrow> byte list \<Rightarrow> bool" where
  "blob_ok env h c \<longleftrightarrow>
     (length h = 64 \<longrightarrow> sha256hex env c = h) \<and>
     (length h = 40 \<longrightarrow> sha1hex env (git_header (int (length c)) @ c) = h)"

text \<open>What the environment is assumed to be: the codec round-trips and the hashes have their lengths.\<close>

definition env_law :: "fs_env \<Rightarrow> bool" where
  "env_law env \<longleftrightarrow>
     (\<forall>m. dec_manifest env (enc_manifest env m) = Some m) \<and>
     (\<forall>c. length (sha256hex env c) = 64 \<and> length (sha1hex env c) = 40)"

definition links_ok :: "fs_backend \<Rightarrow> repo_kind \<Rightarrow> repo_id \<Rightarrow> tree \<Rightarrow> bool" where
  "links_ok b kind repo t \<longleftrightarrow>
     (\<forall>q x. lookup t q = Some (FLink x) \<longrightarrow>
        path_prefix (repoDir b kind repo) q \<or> path_prefix (metaDir b kind repo) q \<longrightarrow>
        path_prefix (repoDir b kind repo @ [''snapshots'']) q)"

definition blobs_ok :: "fs_backend \<Rightarrow> repo_kind \<Rightarrow> repo_id \<Rightarrow> tree \<Rightarrow> bool" where
  "blobs_ok b kind repo t \<longleftrightarrow>
     (\<forall>h n. lookup t (repoDir b kind repo @ [''blobs'', h]) = Some n \<longrightarrow>
        (\<exists>c. n = FFile c \<and> blob_ok (fb_env b) h c))"

definition fs_good :: "fs_backend \<Rightarrow> repo_kind \<Rightarrow> repo_id \<Rightarrow> tree \<Rightarrow> bool" where
  "fs_good b kind repo t \<longleftrightarrow>
     env_law (fb_env b) \<and> list_all plain_seg (fb_root b) \<and> Name repo \<noteq> [] \<and> kind \<noteq> RepoKindNone \<and>
     links_ok b kind repo t \<and> blobs_ok b kind repo t"

lemma sub_prefix: "path_prefix (p @ q) (p @ r) \<longleftrightarrow> path_prefix q r"
  by (auto simp: path_prefix_iff)

lemma prefix_Cons [simp]: "path_prefix (x # p) (y # q) \<longleftrightarrow> x = y \<and> path_prefix p q"
  "path_prefix [] q" "path_prefix (x # p) [] \<longleftrightarrow> False"
  by (auto simp: path_prefix_iff)

text \<open>The parts of the tree are apart.\<close>

lemma apart [simp]:
  "\<not> path_prefix (repoDir b k r @ x) (metaDir b k r @ y)"
  "\<not> path_prefix (metaDir b k r @ x) (repoDir b k r @ y)"
  "\<not> path_prefix (repoDir b k r) (metaDir b k r @ y)"
  "\<not> path_prefix (metaDir b k r) (repoDir b k r @ y)"
  "\<not> path_prefix (metaDir b k r @ x) (repoDir b k r)"
  "path_prefix (repoDir b k r @ x) (repoDir b k r @ y) \<longleftrightarrow> path_prefix x y"
  "path_prefix (metaDir b k r @ x) (metaDir b k r @ y) \<longleftrightarrow> path_prefix x y"
  by (simp_all add: repoDir_def metaDir_def sub_prefix)

lemma apart_nil [simp]: "\<not> path_prefix (repoDir b k r @ x # xs) (repoDir b k r)"
  using sub_prefix [of "repoDir b k r" "x # xs" "[]"] by simp

text \<open>Changes that add no link and stay outside the blobs keep the invariant, and so do the snapshots.\<close>

lemma links_ok_snapshots:
  assumes "links_ok b kind repo t" "touches (repoDir b kind repo @ [''snapshots'']) t t'"
  shows "links_ok b kind repo t'"
  unfolding links_ok_def
proof (intro allI impI)
  fix q x
  assume l: "lookup t' q = Some (FLink x)"
    and u: "path_prefix (repoDir b kind repo) q \<or> path_prefix (metaDir b kind repo) q"
  show "path_prefix (repoDir b kind repo @ [''snapshots'']) q"
  proof (rule ccontr)
    assume n: "\<not> path_prefix (repoDir b kind repo @ [''snapshots'']) q"
    from touches_link [OF assms(2) n l] assms(1) u n show False unfolding links_ok_def by blast
  qed
qed

lemma links_ok_no_new:
  "links_ok b kind repo t \<Longrightarrow> (\<And>q x. lookup t' q = Some (FLink x) \<Longrightarrow> lookup t q = Some (FLink x)) \<Longrightarrow>
     links_ok b kind repo t'"
  unfolding links_ok_def by blast

lemma blobs_ok_touches:
  assumes "blobs_ok b kind repo t" "touches base t t'"
    and "\<And>h. \<not> path_prefix base (repoDir b kind repo @ [''blobs'', h])"
    and "\<And>h. \<not> path_prefix (repoDir b kind repo @ [''blobs'', h]) base"
  shows "blobs_ok b kind repo t'"
  using assms(1) touches_lookup [OF assms(2-4)] by (simp add: blobs_ok_def)

lemma fs_good_snapshots:
  assumes "fs_good b kind repo t" "touches (repoDir b kind repo @ [''snapshots'']) t t'"
  shows "fs_good b kind repo t'"
  using assms links_ok_snapshots [OF _ assms(2)] blobs_ok_touches [OF _ assms(2)]
  by (simp add: fs_good_def)

lemma follow_not_link: "(\<And>x. lookup t p \<noteq> Some (FLink x)) \<Longrightarrow> follow t p = lookup t p"
  by (auto simp: follow_def split: option.splits fnode.splits)

lemma fs_good_follow:
  assumes "fs_good b kind repo t"
  shows "follow t (repoDir b kind repo) = lookup t (repoDir b kind repo)"
    and "follow t (repoDir b kind repo @ [''blobs'', h]) = lookup t (repoDir b kind repo @ [''blobs'', h])"
    and "follow t (repoDir b kind repo @ ''refs'' # ss) = lookup t (repoDir b kind repo @ ''refs'' # ss)"
    and "follow t (metaDir b kind repo @ ss) = lookup t (metaDir b kind repo @ ss)"
proof -
  have l: "lookup t q \<noteq> Some (FLink x)"
    if "path_prefix (repoDir b kind repo) q \<or> path_prefix (metaDir b kind repo) q"
      "\<not> path_prefix (repoDir b kind repo @ [''snapshots'']) q" for q x
    using assms that unfolding fs_good_def links_ok_def by blast
  have p: "path_prefix (repoDir b kind repo) (repoDir b kind repo)"
    "path_prefix (repoDir b kind repo) (repoDir b kind repo @ r)"
    "path_prefix (metaDir b kind repo) (metaDir b kind repo @ r)" for r
    by (auto simp: path_prefix_iff)
  show "follow t (repoDir b kind repo) = lookup t (repoDir b kind repo)"
    by (rule follow_not_link, rule l) (simp_all add: p)
  show "follow t (repoDir b kind repo @ [''blobs'', h]) = lookup t (repoDir b kind repo @ [''blobs'', h])"
    by (rule follow_not_link, rule l) (simp_all add: p)
  show "follow t (repoDir b kind repo @ ''refs'' # ss) = lookup t (repoDir b kind repo @ ''refs'' # ss)"
    by (rule follow_not_link, rule l) (simp_all add: p)
  show "follow t (metaDir b kind repo @ ss) = lookup t (metaDir b kind repo @ ss)"
    by (rule follow_not_link, rule l) (simp_all add: p)
qed

lemma fs_OpenBlob_good:
  assumes "fs_good b kind repo t" "digestPattern d"
  shows "fs_OpenBlob b kind repo d t = Ok c \<longleftrightarrow> lookup t (blobPath b kind repo d) = Some (FFile c)"
    and "(\<exists>i. fs_StatBlob b kind repo d t = Ok i) \<longleftrightarrow> (\<exists>c. lookup t (blobPath b kind repo d) = Some (FFile c))"
    and "os_Stat t (blobPath b kind repo d) \<longleftrightarrow> (\<exists>c. lookup t (blobPath b kind repo d) = Some (FFile c))"
proof -
  have "lookup t (blobPath b kind repo d) = Some n \<Longrightarrow> \<exists>c. n = FFile c" for n
    using assms by (auto simp: fs_good_def blobs_ok_def blobPath_digest)
  then show "fs_OpenBlob b kind repo d t = Ok c \<longleftrightarrow> lookup t (blobPath b kind repo d) = Some (FFile c)"
    and "(\<exists>i. fs_StatBlob b kind repo d t = Ok i) \<longleftrightarrow> (\<exists>c. lookup t (blobPath b kind repo d) = Some (FFile c))"
    and "os_Stat t (blobPath b kind repo d) \<longleftrightarrow> (\<exists>c. lookup t (blobPath b kind repo d) = Some (FFile c))"
    using fs_good_follow(2) [OF assms(1), of "Digest_Hex d"]
    by (auto simp: fs_OpenBlob_def fs_StatBlob_def os_Stat_def blobPath_digest [OF assms(2)]
        split: option.splits fnode.splits)
qed

lemma blob_ok_open:
  "fs_good b kind repo t \<Longrightarrow> digestPattern d \<Longrightarrow> lookup t (blobPath b kind repo d) = Some (FFile c) \<Longrightarrow>
     blob_ok (fb_env b) (Digest_Hex d) c"
  by (auto simp: fs_good_def blobs_ok_def blobPath_digest)

section \<open>CreateRepo\<close>

lemma touches_weaken: "touches base t t' \<Longrightarrow> path_prefix b0 base \<Longrightarrow> touches b0 t t'"
  unfolding touches_def path_prefix_iff by (metis append_assoc append_eq_append_conv2)

lemma fs_CreateRepo_props:
  assumes "fs_CreateRepo b kind repo t = (r, t')" "fs_good b kind repo t"
  shows "fs_good b kind repo t'" and "touches (repoDir b kind repo) t t'"
proof -
  obtain ok t1 where mk: "os_MkdirAll (fb_env b) (repoDir b kind repo @ [''refs'']) t = (ok, t1)" by fastforce
  have tt: "touches (repoDir b kind repo @ [''refs'']) t t1"
    by (rule mkdir_touches [OF mk]) (simp add: path_prefix_def)
  have "links_ok b kind repo t \<Longrightarrow> links_ok b kind repo t1"
    by (erule links_ok_no_new) (simp add: mkdir_only_dirs [OF mk])
  moreover have "blobs_ok b kind repo t \<Longrightarrow> blobs_ok b kind repo t1"
    by (erule blobs_ok_touches [OF _ tt]) simp_all
  ultimately have "fs_good b kind repo t1" using assms(2) by (simp add: fs_good_def)
  moreover have "touches (repoDir b kind repo) t t1" by (rule touches_weaken [OF tt]) simp
  moreover have "t' = t \<or> t' = t1"
    using assms(1) mk by (auto simp: fs_CreateRepo_def split: if_splits bool.splits)
  ultimately show "fs_good b kind repo t'" "touches (repoDir b kind repo) t t'"
    using assms(2) by auto
qed

section \<open>PutBlob\<close>

lemma writeAndVerify_ok:
  assumes "writeAndVerify env c d sz = (written, Ok u)" "digestPattern d"
    and "\<not> (0 \<le> sz \<and> written \<noteq> sz)" "env_law env"
  shows "blob_ok env (Digest_Hex d) c"
proof -
  have w: "written = int (length c)"
    using assms(1) by (auto simp: writeAndVerify_def Let_def split: if_splits)
  have len: "length (sha256hex env x) = 64" "length (sha1hex env x) = 40" for x
    using assms(4) by (simp_all add: env_law_def)
  obtain a hx where "d = a @ '':'' @ hx" "a = ''sha1'' \<or> a = ''sha256''"
    using assms(2) unfolding digestPattern_iff by auto
  then have "Digest_Algo d = ''sha1'' \<or> Digest_Algo d = ''sha256''"
    by (auto simp: Digest_Algo_def)
  then consider "sha256hex env c = Digest_Hex d"
    | "sha1hex env (git_header (int (length c)) @ c) = Digest_Hex d"
    using assms(1,3) w by (auto simp: writeAndVerify_def Let_def split: if_splits)
  then show ?thesis
  proof cases
    case 1
    with len(1) [of c] have "length (Digest_Hex d) = 64" by simp
    with 1 show ?thesis by (simp add: blob_ok_def)
  next
    case 2
    with len(2) [of "git_header (int (length c)) @ c"] have "length (Digest_Hex d) = 40" by simp
    with 2 show ?thesis by (simp add: blob_ok_def)
  qed
qed

lemma blobs_base: "butlast (repoDir b kind repo @ [''blobs'', h]) = repoDir b kind repo @ [''blobs'']"
  by (simp add: butlast_append)

text \<open>The shape of every outcome: nothing, the directory, or the verified blob and its links.\<close>

lemma fs_PutBlob_cases:
  assumes "fs_PutBlob b kind repo d c sz t = (r, t')" "fs_good b kind repo t" "digestPattern d"
  obtains (present) "r = Ok ()" "t' = t" "\<exists>c'. lookup t (blobPath b kind repo d) = Some (FFile c')"
  | (failed) ok where "os_MkdirAll (fb_env b) (repoDir b kind repo @ [''blobs'']) t = (ok, t')" "r \<noteq> Ok ()"
  | (stored) t1 where "os_MkdirAll (fb_env b) (repoDir b kind repo @ [''blobs'']) t = (True, t1)"
      "lookup t (blobPath b kind repo d) = None" "blob_ok (fb_env b) (Digest_Hex d) c"
      "touches (repoDir b kind repo @ [''snapshots''])
         (AList.update (blobPath b kind repo d) (FFile c) t1) t'"
proof (cases "os_Stat t (blobPath b kind repo d)")
  case True
  with assms(1) fs_OpenBlob_good(3) [OF assms(2,3)] show thesis
    by (intro present) (auto simp: fs_PutBlob_def)
next
  case False
  obtain ok t1 where mk: "os_MkdirAll (fb_env b) (repoDir b kind repo @ [''blobs'']) t = (ok, t1)"
    by fastforce
  obtain w v where wv: "writeAndVerify (fb_env b) c d sz = (w, v)" by fastforce
  have bl: "butlast (blobPath b kind repo d) = repoDir b kind repo @ [''blobs'']"
    by (simp add: blobPath_digest [OF assms(3)] butlast_append)
  have none: "lookup t (blobPath b kind repo d) = None"
    using False fs_good_follow(2) [OF assms(2)] by (simp add: os_Stat_def blobPath_digest [OF assms(3)])
  have env: "env_law (fb_env b)" using assms(2) by (simp add: fs_good_def)
  show thesis
  proof (cases "t' = t1 \<and> r \<noteq> Ok ()")
    case True
    with mk show thesis by (intro failed) auto
  next
    case other: False
    then have l: "ok" "v = Ok ()" "\<not> (0 \<le> sz \<and> w \<noteq> sz)"
      "linkBlobIntoSnapshots b kind repo d (AList.update (blobPath b kind repo d) (FFile c) t1) = (r, t')"
      using assms(1) False mk wv unfolding fs_PutBlob_def Let_def bl
      by (auto split: if_splits res.splits bool.splits)
    show thesis
    proof (rule stored)
      show "os_MkdirAll (fb_env b) (repoDir b kind repo @ [''blobs'']) t = (True, t1)" using mk l(1) by simp
      show "blob_ok (fb_env b) (Digest_Hex d) c"
        by (rule writeAndVerify_ok [OF _ assms(3) l(3) env]) (simp add: wv l(2))
      show "touches (repoDir b kind repo @ [''snapshots''])
          (AList.update (blobPath b kind repo d) (FFile c) t1) t'"
        by (rule linkBlobIntoSnapshots_touches [OF l(4)])
    qed (rule none)
  qed
qed

lemma mkdir_blobs_good:
  assumes "os_MkdirAll env (repoDir b kind repo @ [''blobs'']) t = (ok, t1)" "fs_good b kind repo t"
  shows "fs_good b kind repo t1"
proof -
  have "lookup t1 (repoDir b kind repo @ [''blobs'', h]) = lookup t (repoDir b kind repo @ [''blobs'', h])" for h
  proof -
    have "\<not> path_prefix (repoDir b kind repo @ [''blobs'', h]) (repoDir b kind repo @ [''blobs''])" by simp
    then show ?thesis
      using mkdir_from_props [of env "[]" "repoDir b kind repo @ [''blobs'']" t ok t1] assms(1)
      unfolding os_MkdirAll_def append_Nil by blast
  qed
  then have "blobs_ok b kind repo t \<Longrightarrow> blobs_ok b kind repo t1" by (simp add: blobs_ok_def)
  moreover have "links_ok b kind repo t \<Longrightarrow> links_ok b kind repo t1"
    by (erule links_ok_no_new) (simp add: mkdir_only_dirs [OF assms(1)])
  ultimately show ?thesis using assms(2) by (simp add: fs_good_def)
qed

lemma update_blob_good:
  assumes "fs_good b kind repo t" "digestPattern d" "blob_ok (fb_env b) (Digest_Hex d) c"
  shows "fs_good b kind repo (AList.update (blobPath b kind repo d) (FFile c) t)"
proof -
  have ne: "blobPath b kind repo d \<noteq> []" by (simp add: blobPath_digest [OF assms(2)])
  have "links_ok b kind repo t \<Longrightarrow>
      links_ok b kind repo (AList.update (blobPath b kind repo d) (FFile c) t)"
    by (erule links_ok_no_new) (auto simp: ne split: if_splits)
  moreover have "blobs_ok b kind repo t \<Longrightarrow>
      blobs_ok b kind repo (AList.update (blobPath b kind repo d) (FFile c) t)"
    using assms(3) by (auto simp: blobs_ok_def blobPath_digest [OF assms(2)] split: if_splits)
  ultimately show ?thesis using assms(1) by (simp add: fs_good_def)
qed

lemma fs_PutBlob_good:
  assumes "fs_PutBlob b kind repo d c sz t = (r, t')" "fs_good b kind repo t" "digestPattern d"
  shows "fs_good b kind repo t'"
  using assms(1,2,3)
proof (cases rule: fs_PutBlob_cases)
  case present
  with assms(2) show ?thesis by simp
next
  case (failed ok)
  from mkdir_blobs_good [OF failed(1) assms(2)] show ?thesis .
next
  case (stored t1)
  from fs_good_snapshots [OF update_blob_good [OF mkdir_blobs_good [OF stored(1) assms(2)] assms(3) stored(3)]
      stored(4)] show ?thesis .
qed

text \<open>What exists outside the snapshots stays; in particular every blob, manifest and reference.\<close>

lemma fs_PutBlob_keeps:
  assumes "fs_PutBlob b kind repo d c sz t = (r, t')" "fs_good b kind repo t" "digestPattern d"
    and "lookup t q = Some n" "\<not> path_prefix (repoDir b kind repo @ [''snapshots'']) q"
  shows "lookup t' q = Some n"
  using assms(1,2,3)
proof (cases rule: fs_PutBlob_cases)
  case present
  with assms(4) show ?thesis by simp
next
  case (failed ok)
  from mkdir_keeps [OF failed(1) assms(4)] show ?thesis .
next
  case (stored t1)
  have "blobPath b kind repo d \<noteq> []" by (simp add: blobPath_digest [OF assms(3)])
  then have "lookup (AList.update (blobPath b kind repo d) (FFile c) t1) q = Some n"
    using mkdir_keeps [OF stored(1) assms(4)] stored(2) assms(4) by auto
  then show ?thesis by (rule touches_keeps [OF stored(4) assms(5)])
qed

lemma fs_PutBlob_stored:
  assumes "fs_PutBlob b kind repo d c sz t = (Ok (), t')" "fs_good b kind repo t" "digestPattern d"
  shows "\<exists>c'. lookup t' (blobPath b kind repo d) = Some (FFile c')"
    and "lookup t (blobPath b kind repo d) = None \<Longrightarrow> lookup t' (blobPath b kind repo d) = Some (FFile c)"
proof -
  have "(\<exists>c'. lookup t' (blobPath b kind repo d) = Some (FFile c')) \<and>
        (lookup t (blobPath b kind repo d) = None \<longrightarrow> lookup t' (blobPath b kind repo d) = Some (FFile c))"
    using assms(1,2,3)
  proof (cases rule: fs_PutBlob_cases)
    case (stored t1)
    have "lookup (AList.update (blobPath b kind repo d) (FFile c) t1) (blobPath b kind repo d) = Some (FFile c)"
      by (simp add: blobPath_digest [OF assms(3)])
    then have "lookup t' (blobPath b kind repo d) = Some (FFile c)"
      by (rule touches_keeps [OF stored(4), rotated]) (simp add: blobPath_digest [OF assms(3)])
    then show ?thesis by simp
  qed auto
  then show "\<exists>c'. lookup t' (blobPath b kind repo d) = Some (FFile c')"
    and "lookup t (blobPath b kind repo d) = None \<Longrightarrow> lookup t' (blobPath b kind repo d) = Some (FFile c)"
    by auto
qed

section \<open>PutManifest\<close>

lemma fs_PutManifest_cases:
  assumes "fs_PutManifest b m refs t = (r, t')" "fs_good b kind repo t" "manifest_ok kind repo m"
  obtains (rejected) "t' = t" "r \<noteq> Ok ()"
  | (unwritten) r1 where "IsCommitSHA (mf_CommitSHA m)" "r \<noteq> Ok ()"
      "writeFileAtomic (fb_env b) (manifestPath b kind repo (mf_CommitSHA m)) (enc_manifest (fb_env b) m) t = (r1, t')"
  | (unlinked) t1 r2 where "IsCommitSHA (mf_CommitSHA m)" "r \<noteq> Ok ()"
      "writeFileAtomic (fb_env b) (manifestPath b kind repo (mf_CommitSHA m)) (enc_manifest (fb_env b) m) t = (Ok (), t1)"
      "link_files b kind repo (mf_CommitSHA m) (mf_Files m) t1 = (r2, t')"
  | (refs) t1 t2 where "IsCommitSHA (mf_CommitSHA m)" "\<forall>f \<in> set (mf_Files m). validRelPath (fe_Path f)"
      "writeFileAtomic (fb_env b) (manifestPath b kind repo (mf_CommitSHA m)) (enc_manifest (fb_env b) m) t = (Ok (), t1)"
      "link_files b kind repo (mf_CommitSHA m) (mf_Files m) t1 = (Ok (), t2)"
      "put_refs b kind repo refs t2 = (r, t')"
proof -
  let ?sha = "mf_CommitSHA m"
  have m: "mf_Repo m = repo" "mf_Kind m = kind" "kind \<noteq> RepoKindNone" "\<not> repo_is_zero repo"
    using assms(2,3) by (simp_all add: manifest_ok_def fs_good_def repo_is_zero_def)
  obtain r1 t1 where w: "writeFileAtomic (fb_env b) (manifestPath b kind repo ?sha) (enc_manifest (fb_env b) m) t = (r1, t1)"
    by fastforce
  obtain r2 t2 where l: "link_files b kind repo ?sha (mf_Files m) t1 = (r2, t2)" by fastforce
  show thesis
  proof (cases "IsCommitSHA ?sha \<and> list_all (\<lambda>f. validRelPath (fe_Path f)) (mf_Files m)")
    case False
    with assms(1) m show thesis
      by (intro rejected) (auto simp: fs_PutManifest_def Let_def split: if_splits)
  next
    case True
    then have sha: "IsCommitSHA ?sha" "?sha \<noteq> []" "\<forall>f \<in> set (mf_Files m). validRelPath (fe_Path f)"
      by (auto simp: IsCommitSHA_def list_all_iff)
    have eq: "(case r1 of Ok u \<Rightarrow> (case r2 of Ok u \<Rightarrow> put_refs b kind repo refs t2
                 | Err e \<Rightarrow> (Err e, t2) | Panic \<Rightarrow> (Panic, t2))
               | Err e \<Rightarrow> (Err e, t1) | Panic \<Rightarrow> (Panic, t1)) = (r, t')"
      using assms(1) m True sha(2) w l by (cases r1; cases r2) (auto simp: fs_PutManifest_def Let_def)
    show thesis
    proof (cases "r1 = Ok ()")
      case False
      with eq have "t' = t1" "r \<noteq> Ok ()" by (auto split: res.splits)
      with sha w show thesis by (intro unwritten) auto
    next
      case r1: True
      show thesis
      proof (cases "r2 = Ok ()")
        case False
        with eq r1 have "t' = t2" "r \<noteq> Ok ()" by (auto split: res.splits)
        with sha w l r1 show thesis by (intro unlinked) auto
      next
        case True
        with eq r1 have "put_refs b kind repo refs t2 = (r, t')" by simp
        with sha w l r1 True show thesis by (intro refs) auto
      qed
    qed
  qed
qed

lemma manifest_under:
  assumes "IsCommitSHA sha"
  shows "manifestPath b kind repo sha \<noteq> []"
    and "path_prefix (metaDir b kind repo @ [''manifests'']) (manifestPath b kind repo sha)"
    and "manifestPath b kind repo sha \<noteq> metaDir b kind repo @ [''manifests'']"
  by (auto simp: manifestPath_commit [OF assms])

lemma write_manifest_good:
  assumes "writeFileAtomic (fb_env b) (manifestPath b kind repo sha) c t = (r, t')"
    and "IsCommitSHA sha" "fs_good b kind repo t"
  shows "fs_good b kind repo t'"
proof -
  note p = writeFileAtomic_props [OF assms(1) manifest_under [OF assms(2)]]
  have "links_ok b kind repo t \<Longrightarrow> links_ok b kind repo t'"
    by (erule links_ok_no_new) (rule p(3))
  moreover have "blobs_ok b kind repo t \<Longrightarrow> blobs_ok b kind repo t'"
    by (erule blobs_ok_touches [OF _ p(1)]) simp_all
  ultimately show ?thesis using assms(3) by (simp add: fs_good_def)
qed

lemma put_refs_good:
  assumes "put_refs b kind repo refs t = (r, t')" "fs_good b kind repo t"
  shows "fs_good b kind repo t'"
proof -
  note p = put_refs_props [OF assms(1)]
  have "links_ok b kind repo t \<Longrightarrow> links_ok b kind repo t'"
    by (erule links_ok_no_new) (rule p(3))
  moreover have "blobs_ok b kind repo t \<Longrightarrow> blobs_ok b kind repo t'"
    by (erule blobs_ok_touches [OF _ p(1)]) simp_all
  ultimately show ?thesis using assms(2) by (simp add: fs_good_def)
qed

lemma fs_PutManifest_good:
  assumes "fs_PutManifest b m refs t = (r, t')" "fs_good b kind repo t" "manifest_ok kind repo m"
  shows "fs_good b kind repo t'"
  using assms
proof (cases rule: fs_PutManifest_cases)
  case rejected
  with assms(2) show ?thesis by simp
next
  case (unwritten r1)
  show ?thesis by (rule write_manifest_good [OF unwritten(3,1) assms(2)])
next
  case (unlinked t1 r2)
  show ?thesis
    by (rule fs_good_snapshots [OF write_manifest_good [OF unlinked(3,1) assms(2)]
          link_files_touches [OF unlinked(4,1)]])
next
  case (refs t1 t2)
  show ?thesis
    by (rule put_refs_good [OF refs(5) fs_good_snapshots [OF write_manifest_good [OF refs(3,1) assms(2)]
          link_files_touches [OF refs(4,1)]]])
qed

lemma fs_PutManifest_keeps:
  assumes "fs_PutManifest b m refs t = (r, t')" "fs_good b kind repo t" "manifest_ok kind repo m"
    and "lookup t q = Some n" "\<not> path_prefix (repoDir b kind repo @ [''snapshots'']) q"
    and "IsCommitSHA (mf_CommitSHA m) \<Longrightarrow> q \<noteq> manifestPath b kind repo (mf_CommitSHA m)"
    and "\<not> path_prefix (repoDir b kind repo @ [''refs'']) q"
  shows "lookup t' q = Some n"
  using assms(1-3)
proof (cases rule: fs_PutManifest_cases)
  case rejected
  with assms(4) show ?thesis by simp
next
  case (unwritten r1)
  show ?thesis by (rule writeFileAtomic_props(2) [OF unwritten(3) manifest_under [OF unwritten(1)] assms(4) assms(6) [OF unwritten(1)]])
next
  case (unlinked t1 r2)
  show ?thesis
    by (rule touches_keeps [OF link_files_touches [OF unlinked(4,1)] assms(5)
          writeFileAtomic_props(2) [OF unlinked(3) manifest_under [OF unlinked(1)] assms(4) assms(6) [OF unlinked(1)]]])
next
  case (refs t1 t2)
  have "lookup t2 q = Some n"
    by (rule touches_keeps [OF link_files_touches [OF refs(4,1)] assms(5)
          writeFileAtomic_props(2) [OF refs(3) manifest_under [OF refs(1)] assms(4) assms(6) [OF refs(1)]]])
  then show ?thesis by (rule touches_keeps [OF put_refs_props(1) [OF refs(5)] assms(7)])
qed

lemma fs_PutManifest_ok:
  assumes "fs_PutManifest b m refs t = (Ok (), t')" "fs_good b kind repo t" "manifest_ok kind repo m"
  shows "IsCommitSHA (mf_CommitSHA m)"
    and "lookup t' (manifestPath b kind repo (mf_CommitSHA m)) = Some (FFile (enc_manifest (fb_env b) m))"
    and "distinct (map fst refs) \<Longrightarrow> (ref, sha) \<in> set refs \<Longrightarrow>
           IsCommitSHA sha \<and> validRelPath ref \<and> lookup t' (repoDir b kind repo) = Some FDir \<and>
           lookup t' ((repoDir b kind repo @ [''refs'']) @ split_on CHR ''/'' ref) = Some (FFile (to_bytes sha))"
proof -
  let ?mp = "manifestPath b kind repo (mf_CommitSHA m)"
  have "IsCommitSHA (mf_CommitSHA m) \<and> lookup t' ?mp = Some (FFile (enc_manifest (fb_env b) m)) \<and>
    (distinct (map fst refs) \<longrightarrow> (ref, sha) \<in> set refs \<longrightarrow>
           IsCommitSHA sha \<and> validRelPath ref \<and> lookup t' (repoDir b kind repo) = Some FDir \<and>
           lookup t' ((repoDir b kind repo @ [''refs'']) @ split_on CHR ''/'' ref) = Some (FFile (to_bytes sha)))"
    using assms
  proof (cases rule: fs_PutManifest_cases)
    case (refs t1 t2)
    have "lookup t1 ?mp = Some (FFile (enc_manifest (fb_env b) m))"
      by (rule writeFileAtomic_props(4) [OF refs(3) manifest_under [OF refs(1)] refl])
    then have "lookup t2 ?mp = Some (FFile (enc_manifest (fb_env b) m))"
      by (rule touches_keeps [OF link_files_touches [OF refs(4,1)], rotated])
         (simp add: manifestPath_commit [OF refs(1)])
    then have "lookup t' ?mp = Some (FFile (enc_manifest (fb_env b) m))"
      by (rule touches_keeps [OF put_refs_props(1) [OF refs(5)], rotated])
         (simp add: manifestPath_commit [OF refs(1)])
    with refs(1) put_refs_props(4) [OF refs(5) refl] show ?thesis by blast
  qed auto
  then show "IsCommitSHA (mf_CommitSHA m)"
    and "lookup t' ?mp = Some (FFile (enc_manifest (fb_env b) m))"
    and "distinct (map fst refs) \<Longrightarrow> (ref, sha) \<in> set refs \<Longrightarrow>
           IsCommitSHA sha \<and> validRelPath ref \<and> lookup t' (repoDir b kind repo) = Some FDir \<and>
           lookup t' ((repoDir b kind repo @ [''refs'']) @ split_on CHR ''/'' ref) = Some (FFile (to_bytes sha))"
    by blast+
qed

section \<open>The contract of the interface\<close>

lemma os_ReadFile_data: "os_ReadFile t p = ReadData c \<longleftrightarrow> follow t p = Some (FFile c)"
  by (auto simp: os_ReadFile_def split: option.splits fnode.splits)

lemma fs_GetManifest_ok:
  assumes "fs_good b kind repo t" "IsCommitSHA sha"
  shows "fs_GetManifest b kind repo sha t = Ok m \<longleftrightarrow>
    (\<exists>c. lookup t (manifestPath b kind repo sha) = Some (FFile c) \<and> dec_manifest (fb_env b) c = Some m)"
proof -
  have "fs_GetManifest b kind repo sha t = Ok m \<longleftrightarrow>
    (\<exists>c. os_ReadFile t (manifestPath b kind repo sha) = ReadData c \<and> dec_manifest (fb_env b) c = Some m)"
    by (auto simp: fs_GetManifest_def split: read_result.splits option.splits)
  then show ?thesis
    using fs_good_follow(4) [OF assms(1)] by (simp add: os_ReadFile_data manifestPath_commit [OF assms(2)])
qed

lemma fs_ResolveRef_ok:
  assumes "fs_good b kind repo t"
  shows "fs_ResolveRef b kind repo ref t = Ok sha \<longleftrightarrow>
    (\<exists>n. lookup t (repoDir b kind repo) = Some n) \<and>
    (if IsCommitSHA ref then (\<exists>n. lookup t (manifestPath b kind repo ref) = Some n) \<and> sha = ref
     else validRelPath ref \<and> (\<exists>c. lookup t (repoDir b kind repo @ ''refs'' # split_on CHR ''/'' ref) = Some (FFile c)
            \<and> sha = trim_space (of_bytes c)) \<and> IsCommitSHA sha)"
proof -
  have "fs_ResolveRef b kind repo ref t = Ok sha \<longleftrightarrow> os_Stat t (repoDir b kind repo) \<and>
    (if IsCommitSHA ref then os_Stat t (manifestPath b kind repo ref) \<and> sha = ref
     else validRelPath ref \<and> (\<exists>c. os_ReadFile t (repoDir b kind repo @ ''refs'' # split_on CHR ''/'' ref) = ReadData c
            \<and> sha = trim_space (of_bytes c)) \<and> IsCommitSHA sha)"
  proof (cases "validRelPath ref")
    case True
    then have "safeJoin (repoDir b kind repo @ [''refs'']) ref =
        Some (repoDir b kind repo @ ''refs'' # split_on CHR ''/'' ref)"
      by (simp add: safeJoin_Some_iff)
    with True show ?thesis
      by (auto simp: fs_ResolveRef_def Let_def split: read_result.splits if_splits)
  next
    case False
    then have "safeJoin (repoDir b kind repo @ [''refs'']) ref = None" by (simp add: safeJoin_None_iff)
    with False show ?thesis by (auto simp: fs_ResolveRef_def)
  qed
  then show ?thesis
    using fs_good_follow(1,3,4) [OF assms]
    by (cases "IsCommitSHA ref") (simp_all add: os_ReadFile_data os_Stat_def manifestPath_commit)
qed

lemma IsCommitSHA_trim: "IsCommitSHA sha \<Longrightarrow> trim_space sha = sha"
proof (rule trim_space_id)
  assume a: "IsCommitSHA sha"
  then show ne: "sha \<noteq> []" by (auto simp: IsCommitSHA_def)
  have "\<not> is_space c" if "c \<in> set sha" for c
    using that a by (auto simp: IsCommitSHA_def list_all_iff is_space_def is_lower_hex_iff Let_def)
  with ne show "\<not> is_space (hd sha)" "\<not> is_space (last sha)" by auto
qed

interpretation fs_contract: backend_contract "Fsbackend b" kind repo "fs_good b kind repo"
  "\<lambda>d. blob_ok (fb_env b) (Digest_Hex d)" "\<lambda>_. True" for b kind repo
proof
  fix s s' d d' c c' n r sha ref m m' refs
  assume good: "fs_good b kind repo s" and d: "digestPattern d"
  show "\<exists>c'. bk_OpenBlob (Fsbackend b) kind repo d s' = Ok c'"
    if "bk_PutBlob (Fsbackend b) kind repo d c n s = (Ok (), s')"
    using fs_PutBlob_stored(1) [OF _ good d] fs_PutBlob_good [OF _ good d] that
    by (fastforce simp: Fsbackend_def fs_OpenBlob_good(1) [OF _ d])
  show "bk_PutBlob (Fsbackend b) kind repo d c n s = (Ok (), s)"
    if "bk_OpenBlob (Fsbackend b) kind repo d s = Ok c'"
    using that fs_OpenBlob_good(1,3) [OF good d] by (auto simp: Fsbackend_def fs_PutBlob_def)
  show "(\<exists>i. bk_StatBlob (Fsbackend b) kind repo d s = Ok i) \<longleftrightarrow>
        (\<exists>c. bk_OpenBlob (Fsbackend b) kind repo d s = Ok c)"
    by (simp add: Fsbackend_def fs_OpenBlob_good [OF good d])
  show "blob_ok (fb_env b) (Digest_Hex d) c" if "bk_OpenBlob (Fsbackend b) kind repo d s = Ok c"
    using that blob_ok_open [OF good d] by (simp add: Fsbackend_def fs_OpenBlob_good [OF good d])
  assume p: "bk_PutBlob (Fsbackend b) kind repo d c n s = (r, s')"
  then have p': "fs_PutBlob b kind repo d c n s = (r, s')" by (simp add: Fsbackend_def)
  note good' = fs_PutBlob_good [OF p' good d] and keep = fs_PutBlob_keeps [OF p' good d]
  show "fs_good b kind repo s'" by (rule good')
  show "bk_OpenBlob (Fsbackend b) kind repo d' s' = Ok c'"
    if "digestPattern d'" "bk_OpenBlob (Fsbackend b) kind repo d' s = Ok c'"
    using that keep [of "blobPath b kind repo d'"]
    by (simp add: Fsbackend_def fs_OpenBlob_good(1) [OF good] fs_OpenBlob_good(1) [OF good']
        blobPath_digest)
  show "bk_GetManifest (Fsbackend b) kind repo sha s' = Ok m"
    if "IsCommitSHA sha" "bk_GetManifest (Fsbackend b) kind repo sha s = Ok m"
    using that keep [of "manifestPath b kind repo sha"]
    by (auto simp: Fsbackend_def fs_GetManifest_ok [OF good] fs_GetManifest_ok [OF good']
        manifestPath_commit)
  show "bk_ResolveRef (Fsbackend b) kind repo ref s' = Ok sha"
    if "bk_ResolveRef (Fsbackend b) kind repo ref s = Ok sha"
    using that keep
    by (auto simp: Fsbackend_def fs_ResolveRef_ok [OF good] fs_ResolveRef_ok [OF good']
        manifestPath_commit split: if_splits)
next
  fix s s' r ref sha
  assume good: "fs_good b kind repo s"
  show "fs_good b kind repo s'" if "bk_CreateRepo (Fsbackend b) kind repo s = (r, s')"
    using fs_CreateRepo_props(1) [OF _ good] that by (simp add: Fsbackend_def)
  show "IsCommitSHA sha" if "bk_ResolveRef (Fsbackend b) kind repo ref s = Ok sha"
    using that fs_ResolveRef_ok [OF good] by (auto simp: Fsbackend_def split: if_splits)
next
  fix s s' d c r sha ref m m' refs
  assume good: "fs_good b kind repo s" and m: "manifest_ok kind repo m"
    and dr: "distinct (map fst (refs :: (string \<times> string) list))"
  show "bk_GetManifest (Fsbackend b) kind repo (mf_CommitSHA m) s' = Ok m"
    if "bk_PutManifest (Fsbackend b) m refs s = (Ok (), s')"
  proof -
    have p: "fs_PutManifest b m refs s = (Ok (), s')" using that by (simp add: Fsbackend_def)
    show ?thesis
      using fs_PutManifest_ok(1,2) [OF p good m] fs_PutManifest_good [OF p good m]
      by (auto simp: Fsbackend_def fs_GetManifest_ok fs_good_def env_law_def)
  qed
  show "bk_ResolveRef (Fsbackend b) kind repo ref s' = Ok sha"
    if "bk_PutManifest (Fsbackend b) m refs s = (Ok (), s')" "(ref, sha) \<in> set refs" "\<not> IsCommitSHA ref"
  proof -
    have p: "fs_PutManifest b m refs s = (Ok (), s')" using that by (simp add: Fsbackend_def)
    show ?thesis
      using fs_PutManifest_ok(3) [OF p good m dr that(2)] that(3) fs_PutManifest_good [OF p good m]
      by (auto simp: Fsbackend_def fs_ResolveRef_ok IsCommitSHA_trim)
  qed
  assume p: "bk_PutManifest (Fsbackend b) m refs s = (r, s')"
  then have p': "fs_PutManifest b m refs s = (r, s')" by (simp add: Fsbackend_def)
  note good' = fs_PutManifest_good [OF p' good m] and keep = fs_PutManifest_keeps [OF p' good m]
  show "fs_good b kind repo s'" by (rule good')
  show "bk_OpenBlob (Fsbackend b) kind repo d s' = Ok c"
    if "digestPattern d" "bk_OpenBlob (Fsbackend b) kind repo d s = Ok c"
    using that keep [of "blobPath b kind repo d"]
    by (simp add: Fsbackend_def fs_OpenBlob_good(1) [OF good] fs_OpenBlob_good(1) [OF good']
        blobPath_digest manifestPath_commit)
  show "bk_GetManifest (Fsbackend b) kind repo sha s' = Ok m'"
    if "sha \<noteq> mf_CommitSHA m" "IsCommitSHA sha" "bk_GetManifest (Fsbackend b) kind repo sha s = Ok m'"
    using that keep [of "manifestPath b kind repo sha"]
    by (auto simp: Fsbackend_def fs_GetManifest_ok [OF good] fs_GetManifest_ok [OF good']
        manifestPath_commit)
qed

section \<open>Snapshots read as the files of the commit\<close>

abbreviation (input) snapPath :: "fs_backend \<Rightarrow> repo_kind \<Rightarrow> repo_id \<Rightarrow> string \<Rightarrow> string \<Rightarrow> path" where
  "snapPath b kind repo sha p \<equiv> repoDir b kind repo @ [''snapshots'', sha] @ split_on CHR ''/'' p"

lemma link_files_linked:
  assumes "link_files b kind repo sha fs t = (Ok (), t')" "IsCommitSHA sha"
    and "list_all plain_seg (fb_root b)" "distinct (map fe_Path fs)"
    and "f \<in> set fs" "digestPattern (fe_Digest f)"
    and "lookup t (blobPath b kind repo (fe_Digest f)) = Some (FFile c)"
  shows "linked t' (snapPath b kind repo sha (fe_Path f)) (blobPath b kind repo (fe_Digest f)) c"
proof -
  have keep: "lookup t' q = Some n"
    if "link_files b kind repo sha gs u = (r, t')" "lookup u q = Some n"
      "\<forall>g \<in> set gs. q \<noteq> snapPath b kind repo sha (fe_Path g)" for gs u r t' q n
    using that
  proof (induction gs arbitrary: u)
    case (Cons g gs)
    then show ?case
      by (auto split: if_splits prod.splits res.splits dest: linkSnapshotFile_props(2) [OF _ assms(2)])
  qed simp
  show ?thesis using assms(1,4,5,7)
  proof (induction fs arbitrary: t)
    case Nil
    then show ?case by simp
  next
    case (Cons g gs)
    have blob: "blobPath b kind repo (fe_Digest f) \<noteq> snapPath b kind repo sha p" for p
      by (simp add: blobPath_digest [OF assms(6)])
    show ?case
    proof (cases "\<not> Digest_IsZero (fe_Digest g) \<and> os_Stat t (blobPath b kind repo (fe_Digest g))")
      case False
      then have rest: "link_files b kind repo sha gs t = (Ok (), t')"
        using Cons.prems(1) by (auto split: if_splits)
      have "f \<noteq> g"
        using False Cons.prems(4) digestPattern_nonempty [OF assms(6)]
        by (auto simp: Digest_IsZero_def os_Stat_def follow_def)
      then show ?thesis using Cons.IH [OF rest] Cons.prems by auto
    next
      case True
      then obtain t1 where l: "linkSnapshotFile b kind repo sha (fe_Path g) (fe_Digest g) t = (Ok (), t1)"
        and rest: "link_files b kind repo sha gs t1 = (Ok (), t')"
        using Cons.prems(1) by (auto split: prod.splits res.splits)
      note p = linkSnapshotFile_props [OF l assms(2)]
      have b1: "lookup t1 (blobPath b kind repo (fe_Digest f)) = Some (FFile c)"
        by (rule p(2) [OF Cons.prems(4) blob])
      show ?thesis
      proof (cases "f = g")
        case False
        then show ?thesis using Cons.IH [OF rest _ _ b1] Cons.prems by auto
      next
        case True
        have "linked t1 (snapPath b kind repo sha (fe_Path f)) (blobPath b kind repo (fe_Digest f)) c"
          using p(3) [OF refl assms(3)] assms(6) Cons.prems(4) True by simp
        then show ?thesis
        proof (rule linked_keeps)
          show "lookup t' (snapPath b kind repo sha (fe_Path f)) = Some n"
            if "lookup t1 (snapPath b kind repo sha (fe_Path f)) = Some n" for n
            using keep [OF rest that] Cons.prems(2) True by (auto simp: split_on_inject)
          show "lookup t' (blobPath b kind repo (fe_Digest f)) = Some n"
            if "lookup t1 (blobPath b kind repo (fe_Digest f)) = Some n" for n
            using keep [OF rest that] blob by blast
        qed
      qed
    qed
  qed
qed

text \<open>
  C38. The cache layout other tools read is right: after a successful
  \<open>PutManifest\<close> every file of the commit whose blob the repository holds reads,
  at \<open>snapshots/<sha>/<path>\<close>, as exactly that blob's bytes, whether it was
  linked symbolically, hard-linked or copied.
\<close>

theorem PutManifest_snapshot_reads:
  assumes "fs_PutManifest b m refs t = (Ok (), t')" and "fs_good b kind repo t"
    and "manifest_ok kind repo m" and "distinct (map fe_Path (mf_Files m))"
    and "f \<in> set (mf_Files m)" and "digestPattern (fe_Digest f)"
    and "fs_OpenBlob b kind repo (fe_Digest f) t = Ok c"
  shows "os_ReadFile t' (snapPath b kind repo (mf_CommitSHA m) (fe_Path f)) = ReadData c"
  using assms(1-3)
proof (cases rule: fs_PutManifest_cases)
  case (refs t1 t2)
  let ?bp = "blobPath b kind repo (fe_Digest f)"
  have bp: "lookup t ?bp = Some (FFile c)"
    using assms(7) by (simp add: fs_OpenBlob_good(1) [OF assms(2,6)])
  have "?bp \<noteq> manifestPath b kind repo (mf_CommitSHA m)"
    by (simp add: blobPath_digest [OF assms(6)] manifestPath_commit [OF refs(1)] repoDir_def metaDir_def)
  then have "lookup t1 ?bp = Some (FFile c)"
    by (rule writeFileAtomic_props(2) [OF refs(3) manifest_under [OF refs(1)] bp])
  then have l: "linked t2 (snapPath b kind repo (mf_CommitSHA m) (fe_Path f)) ?bp c"
    using assms(2) by (intro link_files_linked [OF refs(4,1) _ assms(4-6)]) (simp_all add: fs_good_def)
  have "linked t' (snapPath b kind repo (mf_CommitSHA m) (fe_Path f)) ?bp c"
    by (rule linked_keeps [OF l])
       (auto intro!: touches_keeps [OF put_refs_props(1) [OF refs(5)]] simp: blobPath_digest [OF assms(6)])
  then show ?thesis by (simp add: os_ReadFile_data linked_follow)
qed auto

section \<open>All repositories of a backend\<close>

definition all_good :: "fs_backend \<Rightarrow> tree \<Rightarrow> bool" where
  "all_good b t \<longleftrightarrow> env_law (fb_env b) \<and> list_all plain_seg (fb_root b) \<and>
     (\<forall>kind repo. links_ok b kind repo t \<and> blobs_ok b kind repo t)"

lemma all_good_fs_good:
  "all_good b t \<Longrightarrow> Name repo \<noteq> [] \<Longrightarrow> kind \<noteq> RepoKindNone \<Longrightarrow> fs_good b kind repo t"
  by (simp add: all_good_def fs_good_def)

text \<open>Only the directory name of a repository matters, and other directories are apart.\<close>

lemma same_dir:
  "repoDirName k r = repoDirName k' r' \<Longrightarrow>
     (links_ok b k r t \<longleftrightarrow> links_ok b k' r' t) \<and> (blobs_ok b k r t \<longleftrightarrow> blobs_ok b k' r' t)"
  by (simp add: links_ok_def blobs_ok_def repoDir_def metaDir_def)

lemma other_dir_apart:
  assumes "repoDirName k r \<noteq> repoDirName k' r'"
  shows "\<not> path_prefix (repoDir b k r) (repoDir b k' r' @ x)" "\<not> path_prefix (repoDir b k r @ x) (repoDir b k' r')"
    "\<not> path_prefix (metaDir b k r) (metaDir b k' r' @ x)" "\<not> path_prefix (metaDir b k r @ x) (metaDir b k' r')"
  using assms by (auto simp: repoDir_def metaDir_def sub_prefix)

lemma prefix_linear: "path_prefix p q \<Longrightarrow> path_prefix p' q \<Longrightarrow> path_prefix p p' \<or> path_prefix p' p"
  unfolding path_prefix_iff by (metis append_eq_append_conv2)

lemma other_repo_good:
  assumes "touches base t t'" "base = repoDir b k' r' \<or> base = metaDir b k' r'"
    and "repoDirName k r \<noteq> repoDirName k' r'"
  shows "links_ok b k r t \<Longrightarrow> links_ok b k r t'" and "blobs_ok b k r t \<Longrightarrow> blobs_ok b k r t'"
proof -
  have apart: "\<not> path_prefix base p \<and> \<not> path_prefix p base"
    if "p = repoDir b k r \<or> p = metaDir b k r" for p
    using that assms(2,3) by (auto simp: repoDir_def metaDir_def sub_prefix)
  have out: "\<not> path_prefix base q" "\<not> path_prefix q base"
    if "path_prefix (repoDir b k r) q \<or> path_prefix (metaDir b k r) q" for q
    using that apart prefix_linear path_prefix_trans by metis+
  show "links_ok b k r t'" if "links_ok b k r t"
    using that out(1) touches_link [OF assms(1)] unfolding links_ok_def by blast
  show "blobs_ok b k r t'" if "blobs_ok b k r t"
    using that by (rule blobs_ok_touches [OF _ assms(1)]) (simp_all add: out)
qed

lemma touches_all_good:
  assumes "touches base t t'" "base = repoDir b k' r' \<or> base = metaDir b k' r'"
    and "all_good b t" "fs_good b k' r' t'"
  shows "all_good b t'"
  unfolding all_good_def
proof (intro conjI allI)
  show "env_law (fb_env b)" "list_all plain_seg (fb_root b)"
    using assms(3) by (simp_all add: all_good_def)
  fix k r
  have g: "links_ok b k r t" "blobs_ok b k r t" using assms(3) by (simp_all add: all_good_def)
  have g': "links_ok b k' r' t'" "blobs_ok b k' r' t'" using assms(4) by (simp_all add: fs_good_def)
  have "links_ok b k r t' \<and> blobs_ok b k r t'"
  proof (cases "repoDirName k r = repoDirName k' r'")
    case True
    with same_dir [OF True] g' show ?thesis by blast
  next
    case False
    from other_repo_good [OF assms(1,2) False] g show ?thesis by blast
  qed
  then show "links_ok b k r t'" "blobs_ok b k r t'" by simp_all
qed

lemma fs_PutBlob_touches:
  assumes "fs_PutBlob b kind repo d c sz t = (r, t')" "fs_good b kind repo t" "digestPattern d"
  shows "touches (repoDir b kind repo) t t'"
  using assms(1,2,3)
proof (cases rule: fs_PutBlob_cases)
  case present
  then show ?thesis by simp
next
  case (failed ok)
  from mkdir_touches [OF failed(1)] show ?thesis by simp
next
  case (stored t1)
  have "touches (repoDir b kind repo) t t1" using mkdir_touches [OF stored(1)] by simp
  moreover have "touches (repoDir b kind repo) t1 (AList.update (blobPath b kind repo d) (FFile c) t1)"
    by (auto simp: touches_def blobPath_digest [OF assms(3)])
  moreover have "touches (repoDir b kind repo) (AList.update (blobPath b kind repo d) (FFile c) t1) t'"
    by (rule touches_weaken [OF stored(4)]) simp
  ultimately show ?thesis by (blast intro: touches_trans)
qed

lemma fs_PutManifest_touches:
  assumes "fs_PutManifest b m refs t = (r, t')" "fs_good b kind repo t" "manifest_ok kind repo m"
  shows "\<exists>t1. touches (metaDir b kind repo) t t1 \<and> fs_good b kind repo t1 \<and> touches (repoDir b kind repo) t1 t'"
proof -
  have w: "touches (metaDir b kind repo) t t1 \<and> fs_good b kind repo t1"
    if "writeFileAtomic (fb_env b) (manifestPath b kind repo (mf_CommitSHA m)) (enc_manifest (fb_env b) m) t = (r1, t1)"
      "IsCommitSHA (mf_CommitSHA m)" for r1 t1
    using touches_weaken [OF writeFileAtomic_props(1) [OF that(1) manifest_under [OF that(2)]],
        of "metaDir b kind repo"] write_manifest_good [OF that assms(2)] by simp
  show ?thesis using assms
  proof (cases rule: fs_PutManifest_cases)
    case rejected
    with assms(2) show ?thesis by (intro exI [of _ t]) simp
  next
    case (unwritten r1)
    with w [OF unwritten(3,1)] show ?thesis by (intro exI [of _ t']) simp
  next
    case (unlinked t1 r2)
    with w [OF unlinked(3,1)] touches_weaken [OF link_files_touches [OF unlinked(4,1)], of "repoDir b kind repo"]
    show ?thesis by auto
  next
    case (refs t1 t2)
    have "touches (repoDir b kind repo) t1 t'"
      using touches_weaken [OF link_files_touches [OF refs(4,1)], of "repoDir b kind repo"]
        touches_weaken [OF put_refs_props(1) [OF refs(5)], of "repoDir b kind repo"]
      by (auto intro: touches_trans)
    with w [OF refs(3,1)] show ?thesis by blast
  qed
qed

text \<open>Removing things keeps every invariant.\<close>

lemma all_good_shrink:
  "all_good b t \<Longrightarrow> (\<And>q n. lookup t' q = Some n \<Longrightarrow> lookup t q = Some n) \<Longrightarrow> all_good b t'"
  unfolding all_good_def links_ok_def blobs_ok_def by blast

lemma map_of_filter_key: "map_of (filter (\<lambda>(p, _). P p) t) q = (if P q then map_of t q else None)"
  by (induction t) auto

lemma os_RemoveAll_shrinks:
  "os_RemoveAll env dir t = (ok, t') \<Longrightarrow> lookup t' q = Some n \<Longrightarrow> lookup t q = Some n"
  by (auto simp: os_RemoveAll_def Let_def lookup_def map_of_filter_key split: if_splits)

text \<open>The operations of a backend, on any of its repositories.\<close>

datatype fs_op =
  FsCreate repo_kind repo_id | FsDelete repo_kind repo_id
| FsPutManifest Manifest "(string \<times> string) list" | FsPutBlob repo_kind repo_id digest "byte list" int

fun fs_exec :: "fs_backend \<Rightarrow> fs_op \<Rightarrow> tree \<Rightarrow> tree" where
  "fs_exec b (FsCreate k r) t = snd (fs_CreateRepo b k r t)"
| "fs_exec b (FsDelete k r) t = snd (fs_DeleteRepo b k r t)"
| "fs_exec b (FsPutManifest m refs) t = snd (fs_PutManifest b m refs t)"
| "fs_exec b (FsPutBlob k r d c sz) t = snd (fs_PutBlob b k r d c sz t)"

fun fs_op_ok :: "fs_op \<Rightarrow> bool" where
  "fs_op_ok (FsCreate k r) \<longleftrightarrow> Name r \<noteq> [] \<and> k \<noteq> RepoKindNone"
| "fs_op_ok (FsDelete k r) \<longleftrightarrow> True"
| "fs_op_ok (FsPutManifest m refs) \<longleftrightarrow> Name (mf_Repo m) \<noteq> [] \<and> mf_Kind m \<noteq> RepoKindNone"
| "fs_op_ok (FsPutBlob k r d c sz) \<longleftrightarrow> Name r \<noteq> [] \<and> k \<noteq> RepoKindNone \<and> digestPattern d"

lemma fs_CreateRepo_good:
  assumes "all_good b t" "Name r \<noteq> []" "k \<noteq> RepoKindNone"
  shows "all_good b (snd (fs_CreateRepo b k r t))"
proof -
  obtain x t' where c: "fs_CreateRepo b k r t = (x, t')" by fastforce
  note p = fs_CreateRepo_props [OF c all_good_fs_good [OF assms]]
  show ?thesis
    unfolding c snd_conv by (rule touches_all_good [OF p(2) disjI1 [OF refl] assms(1) p(1)])
qed

lemma fs_exec_good:
  assumes "all_good b t" "fs_op_ok op"
  shows "all_good b (fs_exec b op t)"
proof (cases op)
  case (FsCreate k r)
  with assms show ?thesis by (simp add: fs_CreateRepo_good)
next
  case (FsDelete k r)
  obtain o1 t1 where r1: "os_RemoveAll (fb_env b) (repoDir b k r) t = (o1, t1)" by fastforce
  obtain o2 t2 where r2: "os_RemoveAll (fb_env b) (metaDir b k r) t1 = (o2, t2)" by fastforce
  have "all_good b t1" using os_RemoveAll_shrinks [OF r1] by (rule all_good_shrink [OF assms(1)])
  moreover from this have "all_good b t2" using os_RemoveAll_shrinks [OF r2] by (rule all_good_shrink)
  ultimately show ?thesis
    using FsDelete assms(1) r1 r2 by (cases o1; cases o2) (simp_all add: fs_DeleteRepo_def)
next
  case (FsPutManifest m refs)
  obtain r t' where p: "fs_PutManifest b m refs t = (r, t')" by fastforce
  let ?k = "mf_Kind m" and ?r = "mf_Repo m"
  have g: "fs_good b ?k ?r t" using assms FsPutManifest by (simp add: all_good_fs_good)
  have m: "manifest_ok ?k ?r m" by (simp add: manifest_ok_def)
  obtain t1 where t1: "touches (metaDir b ?k ?r) t t1" "fs_good b ?k ?r t1" "touches (repoDir b ?k ?r) t1 t'"
    using fs_PutManifest_touches [OF p g m] by blast
  have "all_good b t1" by (rule touches_all_good [OF t1(1) _ assms(1) t1(2)]) simp
  from touches_all_good [OF t1(3) _ this fs_PutManifest_good [OF p g m]] show ?thesis
    using FsPutManifest p by simp
next
  case (FsPutBlob k r d c sz)
  obtain res t' where p: "fs_PutBlob b k r d c sz t = (res, t')" by fastforce
  have g: "fs_good b k r t" and d: "digestPattern d"
    using assms FsPutBlob by (simp_all add: all_good_fs_good)
  from touches_all_good [OF fs_PutBlob_touches [OF p g d] _ assms(1) fs_PutBlob_good [OF p g d]]
  show ?thesis using FsPutBlob p by simp
qed

lemma fs_run_good:
  "all_good b t \<Longrightarrow> list_all fs_op_ok ops \<Longrightarrow> all_good b (foldl (\<lambda>t op. fs_exec b op t) t ops)"
  by (induction ops arbitrary: t) (auto intro: fs_exec_good)

lemma all_good_empty:
  "env_law (fb_env b) \<Longrightarrow> list_all plain_seg (fb_root b) \<Longrightarrow> all_good b []"
  by (auto simp: all_good_def links_ok_def blobs_ok_def lookup_def repoDir_def split: if_splits)


section \<open>A concrete environment\<close>

text \<open>
  An environment on which the laws hold, for the witnesses: manifests coded in
  unary through the countability of their fields, and constant hashes of the
  right lengths.
\<close>

instance repo_kind :: countable
  by countable_datatype

definition entry_tuple where
  "entry_tuple f = (fe_Path f, fe_Size f, fe_Digest f, fe_OID f,
     map_option (\<lambda>l. (lfs_SHA256 l, lfs_OID l, lfs_Size l, lfs_PointerSize l)) (fe_LFS f))"

definition tuple_entry where
  "tuple_entry = (\<lambda>(p, sz, d, oid, l).
     \<lparr>fe_Path = p, fe_Size = sz, fe_Digest = d, fe_OID = oid,
      fe_LFS = map_option (\<lambda>(a, b, c, e). \<lparr>lfs_SHA256 = a, lfs_OID = b, lfs_Size = c, lfs_PointerSize = e\<rparr>) l\<rparr>)"

definition manifest_tuple where
  "manifest_tuple m = (Owner (mf_Repo m), Name (mf_Repo m), mf_Kind m, mf_CommitSHA m, mf_FetchedAt m,
     mf_CreatedAt m, map entry_tuple (mf_Files m))"

definition tuple_manifest where
  "tuple_manifest = (\<lambda>(ow, n, k, sha, fa, ca, fs).
     \<lparr>mf_Repo = \<lparr>Owner = ow, Name = n\<rparr>, mf_Kind = k, mf_CommitSHA = sha, mf_FetchedAt = fa,
      mf_CreatedAt = ca, mf_Files = map tuple_entry fs\<rparr>)"

lemma tuple_entry_inverse [simp]: "tuple_entry (entry_tuple f) = f"
proof -
  have eta: "\<lparr>lfs_SHA256 = lfs_SHA256 l, lfs_OID = lfs_OID l, lfs_Size = lfs_Size l,
         lfs_PointerSize = lfs_PointerSize l\<rparr> = l" for l :: LFSInfo
    by (cases l) simp
  then show ?thesis
    by (cases f) (simp add: tuple_entry_def entry_tuple_def option.map_comp comp_def option.map_ident eta)
qed

lemma tuple_manifest_inverse [simp]: "tuple_manifest (manifest_tuple m) = m"
  by (cases m) (simp add: tuple_manifest_def manifest_tuple_def comp_def)

definition demo_env :: "fs_env" where
  "demo_env =
     \<lparr>io_ok = (\<lambda>_. True), io_symlink = (\<lambda>_. True), io_hardlink = (\<lambda>_. True), dir_size = 4096,
      sha1hex = (\<lambda>_. replicate 40 CHR ''1''), sha256hex = (\<lambda>_. replicate 64 CHR ''2''),
      enc_manifest = (\<lambda>m. replicate (to_nat (manifest_tuple m)) 0),
      dec_manifest = (\<lambda>c. Some (tuple_manifest (from_nat (length c))))\<rparr>"

definition demo_fs :: fs_backend where
  "demo_fs = \<lparr>fb_name = ''disk'', fb_root = [''data''], fb_env = demo_env\<rparr>"

lemma demo_env_law [simp]: "env_law (fb_env demo_fs)"
  by (simp add: env_law_def demo_fs_def demo_env_def)

lemma demo_root [simp]: "list_all plain_seg (fb_root demo_fs)"
  by (simp add: demo_fs_def plain_seg_def)

abbreviation (input) "demo_repo \<equiv> \<lparr>Owner = ''org'', Name = ''m''\<rparr>"

definition demo_digest :: digest where
  "demo_digest = ''sha256:'' @ replicate 64 CHR ''2''"

lemma demo_digest_hex [simp]: "Digest_Hex demo_digest = replicate 64 CHR ''2''"
  by code_simp

lemma demo_digest_algo [simp]: "Digest_Algo demo_digest = ''sha256''"
  by code_simp

lemma demo_digest_ok [simp]: "digestPattern demo_digest"
  by code_simp

lemma demo_empty_good [simp]: "fs_good demo_fs RepoKindModel demo_repo []"
  by (rule all_good_fs_good [OF all_good_empty]) simp_all

definition demo_tree :: tree where
  "demo_tree = snd (fs_PutBlob demo_fs RepoKindModel demo_repo demo_digest [7] 1 [])"

lemma demo_PutBlob: "fs_PutBlob demo_fs RepoKindModel demo_repo demo_digest [7] 1 [] = (Ok (), demo_tree)"
proof -
  have b: "blobPath demo_fs RepoKindModel demo_repo demo_digest =
      [''data'', ''models--org--m'', ''blobs'', replicate 64 CHR ''2'']"
    by (simp add: blobPath_digest repoDir_def demo_fs_def repoDirName_def APIPrefix_def
        repo_string_def replace_slash_def)
  have "fst (fs_PutBlob demo_fs RepoKindModel demo_repo demo_digest [7] 1 []) = Ok ()"
    unfolding fs_PutBlob_def Let_def b
    by (simp add: os_Stat_def follow_def lookup_def os_MkdirAll_def demo_fs_def demo_env_def
        writeAndVerify_def linkBlobIntoSnapshots_def metaDir_def below_file_def upt_rec)
  then show ?thesis unfolding demo_tree_def by (metis prod.collapse)
qed

lemma demo_tree_good [simp]: "fs_good demo_fs RepoKindModel demo_repo demo_tree"
  by (rule fs_PutBlob_good [OF demo_PutBlob demo_empty_good demo_digest_ok])

lemma demo_OpenBlob: "fs_OpenBlob demo_fs RepoKindModel demo_repo demo_digest demo_tree = Ok [7]"
  unfolding fs_OpenBlob_good(1) [OF demo_tree_good demo_digest_ok]
  by (rule fs_PutBlob_stored(2) [OF demo_PutBlob demo_empty_good demo_digest_ok]) (simp add: lookup_def blobPath_digest)


definition demo_commit :: Manifest where
  "demo_commit = \<lparr>mf_Repo = demo_repo, mf_Kind = RepoKindModel, mf_CommitSHA = replicate 40 CHR ''a'',
     mf_FetchedAt = 0, mf_CreatedAt = 0,
     mf_Files = [\<lparr>fe_Path = ''vae/w.bin'', fe_Size = 1, fe_Digest = demo_digest, fe_OID = [], fe_LFS = None\<rparr>]\<rparr>"

lemma demo_commit_ok [simp]: "manifest_ok RepoKindModel demo_repo demo_commit"
  by (simp add: manifest_ok_def demo_commit_def)

lemma demo_commit_sha: "IsCommitSHA (replicate 40 CHR ''a'')"
  by code_simp

lemma demo_tree_eq:
  "demo_tree = [([''data''], FDir), ([''data'', ''models--org--m''], FDir),
     ([''data'', ''models--org--m'', ''blobs''], FDir),
     ([''data'', ''models--org--m'', ''blobs'', replicate 64 CHR ''2''], FFile [7])]"
proof -
  have b: "blobPath demo_fs RepoKindModel demo_repo demo_digest =
      [''data'', ''models--org--m'', ''blobs'', replicate 64 CHR ''2'']"
    by (simp add: blobPath_digest repoDir_def demo_fs_def repoDirName_def APIPrefix_def
        repo_string_def replace_slash_def)
  show ?thesis
    unfolding demo_tree_def fs_PutBlob_def Let_def b
    by (simp add: os_Stat_def follow_def lookup_def os_MkdirAll_def demo_fs_def demo_env_def
        writeAndVerify_def linkBlobIntoSnapshots_def metaDir_def below_file_def upt_rec)
qed

lemma demo_PutManifest:
  "fst (fs_PutManifest demo_fs demo_commit [(''main'', replicate 40 CHR ''a'')] demo_tree) = Ok ()"
proof -
  let ?sha = "replicate 40 CHR ''a''"
  have n: "repoDirName RepoKindModel demo_repo = ''models--org--m''"
    by code_simp
  have paths: "blobPath demo_fs RepoKindModel demo_repo demo_digest =
      [''data'', ''models--org--m'', ''blobs'', replicate 64 CHR ''2'']"
    "manifestPath demo_fs RepoKindModel demo_repo ?sha =
      [''data'', ''.shpiel'', ''models--org--m'', ''manifests'', ?sha @ ''.json'']"
    "repoDir demo_fs RepoKindModel demo_repo = [''data'', ''models--org--m'']"
    by (simp_all add: blobPath_digest manifestPath_commit demo_commit_sha repoDir_def metaDir_def n demo_fs_def)
  have v: "validRelPath ''vae/w.bin''" "validRelPath ''main''"
    by (simp_all add: validRelPath_iff plain_seg_def)
  have sj: "safeJoin (join_clean [''data'', ''models--org--m'', ''snapshots''] ?sha) ''vae/w.bin'' =
      Some [''data'', ''models--org--m'', ''snapshots'', ?sha, ''vae'', ''w.bin'']"
    "safeJoin [''data'', ''models--org--m'', ''refs''] ''main'' =
      Some [''data'', ''models--org--m'', ''refs'', ''main'']"
    using IsCommitSHA_seg [OF demo_commit_sha] v
    by (simp_all add: safeJoin_Some_iff join_clean_plain)
  have fields: "mf_Repo demo_commit = demo_repo" "mf_Kind demo_commit = RepoKindModel"
    "mf_CommitSHA demo_commit = ?sha" "mf_Files demo_commit = [\<lparr>fe_Path = ''vae/w.bin'',
       fe_Size = 1, fe_Digest = demo_digest, fe_OID = [], fe_LFS = None\<rparr>]"
    by (simp_all add: demo_commit_def)
  have env: "io_ok (fb_env demo_fs) p" "io_symlink (fb_env demo_fs) p" for p
    by (simp_all add: demo_fs_def demo_env_def)
  have nz: "\<not> Digest_IsZero demo_digest" by (simp add: Digest_IsZero_def demo_digest_def)
  show ?thesis
    unfolding fs_PutManifest_def Let_def fields
    by (simp add: demo_commit_sha repo_is_zero_def v paths demo_tree_eq nz env
        writeFileAtomic_def os_MkdirAll_def lookup_def os_Stat_def follow_def
        linkSnapshotFile_def sj os_Remove_def below_file_def upt_rec link_at_def)
qed

theorem PutManifest_snapshot_reads_witness:
  "\<exists>t'. fs_PutManifest demo_fs demo_commit [(''main'', replicate 40 CHR ''a'')] demo_tree = (Ok (), t') \<and>
     os_ReadFile t' [''data'', ''models--org--m'', ''snapshots'', replicate 40 CHR ''a'', ''vae'', ''w.bin''] = ReadData [7]"
proof -
  let ?f = "\<lparr>fe_Path = ''vae/w.bin'', fe_Size = 1, fe_Digest = demo_digest, fe_OID = [], fe_LFS = None\<rparr>"
  obtain t' where p: "fs_PutManifest demo_fs demo_commit [(''main'', replicate 40 CHR ''a'')] demo_tree = (Ok (), t')"
    using demo_PutManifest by (metis prod.collapse)
  have "distinct (map fe_Path (mf_Files demo_commit))" "?f \<in> set (mf_Files demo_commit)"
    "digestPattern (fe_Digest ?f)" "fs_OpenBlob demo_fs RepoKindModel demo_repo (fe_Digest ?f) demo_tree = Ok [7]"
    using demo_OpenBlob by (simp_all add: demo_commit_def)
  note r = PutManifest_snapshot_reads [OF p demo_tree_good demo_commit_ok this]
  have "snapPath demo_fs RepoKindModel demo_repo (mf_CommitSHA demo_commit) (fe_Path ?f) =
      [''data'', ''models--org--m'', ''snapshots'', replicate 40 CHR ''a'', ''vae'', ''w.bin'']"
    by (simp add: repoDir_def demo_fs_def repoDirName_def APIPrefix_def repo_string_def
        replace_slash_def demo_commit_def)
  with r p show ?thesis by auto
qed

section \<open>Directory names\<close>

text \<open>
  C39. Two different valid repositories can share their directory: for
  \<open>a/b--c\<close> and \<open>a--b/c\<close> every operation of the backend is the same function of
  the tree, so that each serves, overwrites and deletes the other's data.
\<close>

theorem repositories_share_directory:
  "\<exists>r1 r2. valid_repo r1 \<and> valid_repo r2 \<and> r1 \<noteq> r2 \<and>
     (\<forall>b k. fs_CreateRepo b k r1 = fs_CreateRepo b k r2 \<and> fs_DeleteRepo b k r1 = fs_DeleteRepo b k r2 \<and>
            fs_ResolveRef b k r1 = fs_ResolveRef b k r2 \<and> fs_GetManifest b k r1 = fs_GetManifest b k r2 \<and>
            fs_StatBlob b k r1 = fs_StatBlob b k r2 \<and> fs_OpenBlob b k r1 = fs_OpenBlob b k r2)"
proof -
  let ?r1 = "\<lparr>Owner = ''a'', Name = ''b--c''\<rparr>" and ?r2 = "\<lparr>Owner = ''a--b'', Name = ''c''\<rparr>"
  have v: "valid_repo ?r1" "valid_repo ?r2" by code_simp+
  have "repoDirName k ?r1 = repoDirName k ?r2" for k
    by (simp add: repoDirName_def repo_string_def replace_slash_def)
  then have d: "repoDir b k ?r1 = repoDir b k ?r2" "metaDir b k ?r1 = metaDir b k ?r2" for b k
    by (simp_all add: repoDir_def metaDir_def)
  have mp: "manifestPath b k ?r1 = manifestPath b k ?r2" "blobPath b k ?r1 = blobPath b k ?r2" for b k
    by (simp_all add: fun_eq_iff manifestPath_def blobPath_def d)
  have ops: "fs_CreateRepo b k ?r1 = fs_CreateRepo b k ?r2 \<and> fs_DeleteRepo b k ?r1 = fs_DeleteRepo b k ?r2 \<and>
      fs_ResolveRef b k ?r1 = fs_ResolveRef b k ?r2 \<and> fs_GetManifest b k ?r1 = fs_GetManifest b k ?r2 \<and>
      fs_StatBlob b k ?r1 = fs_StatBlob b k ?r2 \<and> fs_OpenBlob b k ?r1 = fs_OpenBlob b k ?r2" for b k
    unfolding fun_eq_iff fs_CreateRepo_def fs_DeleteRepo_def fs_ResolveRef_def fs_GetManifest_def
      fs_StatBlob_def fs_OpenBlob_def d mp by (intro conjI allI refl)
  show ?thesis
    by (rule exI [of _ ?r1], rule exI [of _ ?r2], intro conjI allI v ops) simp
qed

end
