(* ===== verification/Relay.thy ===== *)
theory Relay
  imports Upstream "HOL-Library.AList" "HOL-Library.Multiset"
begin

text \<open>
  Package internal/relay: routing (router.go) and the read path that pulls through
  from the upstream Hub (relay.go); the write path is in \<open>Relay_Write\<close>. The world
  \<open>'w\<close> holds the state of all backends, the upstream and the replication queue;
  a backend is the record of its operations on it. A manifest pointer is passed
  and returned, as the code writes through it. The clock, the hash functions,
  doublestar's matcher and net/http are arguments. Logging and the metrics that
  only count are left out; the byte counter is kept where it can panic.
\<close>

section \<open>Errors\<close>

datatype relay_error =
  RlRepoNotFound | RlRevisionNotFound | RlEntryNotFound | RlNoRoute string
| RlRepoExists | RlParentMismatch string string | RlLFSBlobMissing "string list" | RlBadRevision
| RlBackend backend_error | RlUpstream upstream_error | RlPersist backend_error
| RlInitial backend_error | RlInline string backend_error | RlCommit backend_error
| RlVanished digest backend_error | RlNoETag string | RlTooLarge string | RlDigestMismatch string

definition mapBackendErr :: "backend_error \<Rightarrow> relay_error" where
  "mapBackendErr e =
     (case e of
        ErrRepoNotFound \<Rightarrow> RlRepoNotFound
      | ErrRevisionNotFound \<Rightarrow> RlRevisionNotFound
      | ErrBlobNotFound \<Rightarrow> RlEntryNotFound
      | _ \<Rightarrow> RlBackend e)"

definition mapUpstreamErr :: "upstream_error \<Rightarrow> relay_error" where
  "mapUpstreamErr e =
     (case e of
        UpRepoNotFound \<Rightarrow> RlRepoNotFound
      | UpRevisionNotFound \<Rightarrow> RlRevisionNotFound
      | UpEntryNotFound \<Rightarrow> RlEntryNotFound
      | _ \<Rightarrow> RlUpstream e)"

section \<open>Routing (router.go)\<close>

record 'w Route =
  rt_Match :: string
  rt_Primary :: "'w Backend"
  rt_Replicas :: "'w Backend list"

record route_config =
  rc_Match :: string
  rc_Primary :: string
  rc_Replicas :: "string list"

datatype router_error = InvalidGlob nat string | UnknownBackend nat string | UnknownReplica nat string

fun resolve_replicas ::
  "nat \<Rightarrow> (string \<Rightarrow> 'w Backend option) \<Rightarrow> string list \<Rightarrow> (router_error, 'w Backend list) res" where
  "resolve_replicas i backends [] = Ok []"
| "resolve_replicas i backends (n # ns) =
     (case backends n of
        None \<Rightarrow> Err (UnknownReplica i n)
      | Some rep \<Rightarrow> res_map (\<lambda>reps. rep # reps) (resolve_replicas i backends ns))"

fun new_routes ::
  "(string \<Rightarrow> bool) \<Rightarrow> nat \<Rightarrow> (string \<Rightarrow> 'w Backend option) \<Rightarrow> route_config list
   \<Rightarrow> (router_error, 'w Route list) res" where
  "new_routes valid i backends [] = Ok []"
| "new_routes valid i backends (rc # rcs) =
     (if \<not> valid (rc_Match rc) then Err (InvalidGlob i (rc_Match rc))
      else case backends (rc_Primary rc) of
             None \<Rightarrow> Err (UnknownBackend i (rc_Primary rc))
           | Some p \<Rightarrow>
               res_bind (resolve_replicas i backends (rc_Replicas rc)) (\<lambda>reps.
                 res_map (\<lambda>rs. \<lparr>rt_Match = rc_Match rc, rt_Primary = p, rt_Replicas = reps\<rparr> # rs)
                   (new_routes valid (Suc i) backends rcs)))"

definition NewRouter ::
  "(string \<Rightarrow> bool) \<Rightarrow> route_config list \<Rightarrow> (string \<Rightarrow> 'w Backend option) \<Rightarrow> (router_error, 'w Route list) res" where
  "NewRouter valid rcs backends = new_routes valid 0 backends rcs"

text \<open>\<open>Router.For\<close>; \<open>glob pattern id\<close> is doublestar's match (an error counts as no match).\<close>

fun Router_For :: "(string \<Rightarrow> string \<Rightarrow> bool) \<Rightarrow> 'w Route list \<Rightarrow> string \<Rightarrow> 'w Route option" where
  "Router_For glob [] i = None"
| "Router_For glob (r # rs) i =
     (if rt_Match r = ''*'' then Some r
      else if glob (rt_Match r) i then Some r
      else Router_For glob rs i)"

section \<open>The relay\<close>

record 'w upstream_conn =
  uc_http :: "'w http"
  uc_version :: string
  uc_client :: Client
  uc_decode :: "byte list \<Rightarrow> ModelInfo option"

record 'w Replicator =
  rp_EnqueueCommit :: "repo_kind \<Rightarrow> repo_id \<Rightarrow> string \<Rightarrow> string \<Rightarrow> (string \<times> string) list \<Rightarrow> string list
                       \<Rightarrow> 'w \<Rightarrow> (string, unit) res \<times> 'w"
  rp_EnqueueDeleteRepo :: "repo_kind \<Rightarrow> repo_id \<Rightarrow> string \<Rightarrow> string list \<Rightarrow> 'w \<Rightarrow> (string, unit) res \<times> 'w"

record 'w Relay =
  rl_routes :: "'w Route list"
  rl_glob :: "string \<Rightarrow> string \<Rightarrow> bool"
  rl_upstream :: "'w upstream_conn option"
  rl_refreshInterval :: int
  rl_metrics :: bool
  rl_replicator :: "'w Replicator option"
  rl_sha1hex :: "byte list \<Rightarrow> string"
  rl_sha256hex :: "byte list \<Rightarrow> string"

definition rl_route :: "'w Relay \<Rightarrow> repo_id \<Rightarrow> 'w Route option" where
  "rl_route r repo = Router_For (rl_glob r) (rl_routes r) (repo_string repo)"

definition gitBlobOID :: "'w Relay \<Rightarrow> byte list \<Rightarrow> string" where
  "gitBlobOID r content =
     rl_sha1hex r (to_bytes (''blob '' @ format_int (int (length content))) @ [0] @ content)"

definition SHA256_of :: "'w Relay \<Rightarrow> byte list \<Rightarrow> digest" where
  "SHA256_of r content = SHA256Digest (rl_sha256hex r content)"

fun add_backends :: "'w Backend list \<Rightarrow> string set \<Rightarrow> 'w Backend list" where
  "add_backends [] seen = []"
| "add_backends (b # bs) seen =
     (if bk_Name b \<in> seen then add_backends bs seen
      else b # add_backends bs (insert (bk_Name b) seen))"

definition Relay_Backends :: "'w Relay \<Rightarrow> 'w Backend list" where
  "Relay_Backends r = add_backends (concat (map (\<lambda>rt. rt_Primary rt # rt_Replicas rt) (rl_routes r))) {}"

fun ping_errors :: "'w Backend list \<Rightarrow> 'w \<Rightarrow> (string \<times> backend_error) list" where
  "ping_errors [] w = []"
| "ping_errors (b # bs) w =
     (case bk_Ping b w of
        Err e \<Rightarrow> (bk_Name b, e) # ping_errors bs w
      | _ \<Rightarrow> ping_errors bs w)"

definition Relay_Ping :: "'w Relay \<Rightarrow> 'w \<Rightarrow> ((string \<times> backend_error) list, unit) res" where
  "Relay_Ping r w = (let es = ping_errors (Relay_Backends r) w in if es = [] then Ok () else Err es)"

section \<open>Reading manifests (relay.go)\<close>

definition localManifest ::
  "'w Backend \<Rightarrow> repo_kind \<Rightarrow> repo_id \<Rightarrow> string \<Rightarrow> 'w \<Rightarrow> (relay_error, Manifest) res" where
  "localManifest bk kind repo revision w =
     res_bind (res_map_err mapBackendErr (bk_ResolveRef bk kind repo revision w)) (\<lambda>sha.
       res_map_err mapBackendErr (bk_GetManifest bk kind repo sha w))"

definition stale :: "'w Relay \<Rightarrow> int \<Rightarrow> Manifest \<Rightarrow> bool" where
  "stale r now m \<longleftrightarrow>
     (if rl_refreshInterval r \<le> 0 then True else rl_refreshInterval r < now - mf_FetchedAt m)"

text \<open>
  A call through \<open>singleflight.Do\<close>: the leader runs the function; a caller that
  joins a flight (\<open>Some v\<close>) only gets the leader's result \<open>v\<close>, in the world the
  leader left.
\<close>

definition sf_do :: "('e, 'v) res option \<Rightarrow> ('w \<Rightarrow> ('e, 'v) res \<times> 'w) \<Rightarrow> 'w \<Rightarrow> ('e, 'v) res \<times> 'w" where
  "sf_do joined f w = (case joined of Some v \<Rightarrow> (v, w) | None \<Rightarrow> f w)"

definition fetch_manifest_body ::
  "'w upstream_conn \<Rightarrow> int \<Rightarrow> 'w Backend \<Rightarrow> repo_kind \<Rightarrow> repo_id \<Rightarrow> string \<Rightarrow> string \<Rightarrow> 'w
   \<Rightarrow> (relay_error, Manifest) res \<times> 'w" where
  "fetch_manifest_body u now bk kind repo revision token w =
     (case GetModelInfo (uc_decode u) (uc_http u) (uc_version u) (uc_client u) kind repo revision token w of
        (Err e, w1) \<Rightarrow> (Err (mapUpstreamErr e), w1)
      | (Panic, w1) \<Rightarrow> (Panic, w1)
      | (Ok info, w1) \<Rightarrow>
          (case ManifestFromModelInfo kind repo info now of
             Err e \<Rightarrow> (Err (RlUpstream e), w1)
           | Panic \<Rightarrow> (Panic, w1)
           | Ok m \<Rightarrow>
               (case bk_PutManifest bk m
                       (if IsCommitSHA revision then [] else [(revision, mf_CommitSHA m)]) w1 of
                  (Ok _, w2) \<Rightarrow> (Ok m, w2)
                | (Err e, w2) \<Rightarrow> (Err (RlPersist e), w2)
                | (Panic, w2) \<Rightarrow> (Panic, w2))))"

definition fetchManifest ::
  "(relay_error, Manifest) res option \<Rightarrow> 'w upstream_conn \<Rightarrow> int \<Rightarrow> 'w Backend \<Rightarrow> repo_kind \<Rightarrow> repo_id
   \<Rightarrow> string \<Rightarrow> string \<Rightarrow> 'w \<Rightarrow> (relay_error, Manifest) res \<times> 'w" where
  "fetchManifest joined u now bk kind repo revision token w =
     sf_do joined (fetch_manifest_body u now bk kind repo revision token) w"

definition ResolveManifest ::
  "(relay_error, Manifest) res option \<Rightarrow> 'w Relay \<Rightarrow> int \<Rightarrow> repo_kind \<Rightarrow> repo_id \<Rightarrow> string \<Rightarrow> string \<Rightarrow> 'w
   \<Rightarrow> (relay_error, Manifest) res \<times> 'w" where
  "ResolveManifest joined r now kind repo revision token w =
     (case rl_route r repo of
        None \<Rightarrow> (Err (RlNoRoute (repo_string repo)), w)
      | Some route \<Rightarrow>
          (let bk = rt_Primary route; loc = localManifest bk kind repo revision w in
           case loc of
             Panic \<Rightarrow> (Panic, w)
           | Ok m \<Rightarrow>
               (if IsCommitSHA revision \<or> \<not> stale r now m then (Ok m, w)
                else case rl_upstream r of
                       None \<Rightarrow> (Ok m, w)
                     | Some u \<Rightarrow>
                         (case fetchManifest joined u now bk kind repo revision token w of
                            (Ok f, w1) \<Rightarrow> (Ok f, w1)
                          | (Err e, w1) \<Rightarrow> (Ok m, w1)
                          | (Panic, w1) \<Rightarrow> (Panic, w1)))
           | Err e \<Rightarrow>
               (case rl_upstream r of
                  None \<Rightarrow> (Err e, w)
                | Some u \<Rightarrow> fetchManifest joined u now bk kind repo revision token w)))"

section \<open>Reading content\<close>

text \<open>Writing through the entry pointer \<open>i\<close> of a manifest.\<close>

definition set_entry :: "Manifest \<Rightarrow> nat \<Rightarrow> FileEntry \<Rightarrow> Manifest" where
  "set_entry m i f = m\<lparr>mf_Files := (mf_Files m)[i := f]\<rparr>"

definition backfillDigest ::
  "'w Relay \<Rightarrow> 'w Backend \<Rightarrow> repo_kind \<Rightarrow> repo_id \<Rightarrow> Manifest \<Rightarrow> nat \<Rightarrow> string \<Rightarrow> 'w
   \<Rightarrow> (relay_error, unit) res \<times> Manifest \<times> 'w" where
  "backfillDigest r bk kind repo m i token w =
     (case rl_upstream r of
        None \<Rightarrow> (Err RlEntryNotFound, m, w)
      | Some u \<Rightarrow>
          (let f = mf_Files m ! i in
           case StatFile (uc_http u) (uc_version u) (uc_client u) kind repo (mf_CommitSHA m) (fe_Path f) token w of
             (Err e, w1) \<Rightarrow> (Err (mapUpstreamErr e), m, w1)
           | (Panic, w1) \<Rightarrow> (Panic, m, w1)
           | (Ok meta, w1) \<Rightarrow>
               (let fe = (if mt_LinkedETag meta \<noteq> [] then
                            Some (f\<lparr>fe_Digest := SHA256Digest (mt_LinkedETag meta),
                                    fe_LFS := Some \<lparr>lfs_SHA256 = mt_LinkedETag meta,
                                                    lfs_OID = mt_LinkedETag meta,
                                                    lfs_Size = mt_Size meta, lfs_PointerSize = 0\<rparr>\<rparr>)
                          else if mt_ETag meta \<noteq> [] then Some (f\<lparr>fe_Digest := SHA1Digest (mt_ETag meta)\<rparr>)
                          else None)
                in case fe of
                     None \<Rightarrow> (Err (RlNoETag (fe_Path f)), m, w1)
                   | Some f' \<Rightarrow>
                       (let m' = set_entry m i (f'\<lparr>fe_Size := mt_Size meta\<rparr>) in
                        case bk_PutManifest bk m' [] w1 of
                          (Ok _, w2) \<Rightarrow> (Ok (), m', w2)
                        | (Err e, w2) \<Rightarrow> (Err (RlPersist e), m', w2)
                        | (Panic, w2) \<Rightarrow> (Panic, m', w2)))))"

definition EnsureEntry ::
  "'w Relay \<Rightarrow> repo_kind \<Rightarrow> repo_id \<Rightarrow> Manifest \<Rightarrow> string \<Rightarrow> string \<Rightarrow> 'w
   \<Rightarrow> (relay_error, nat) res \<times> Manifest \<times> 'w" where
  "EnsureEntry r kind repo m p token w =
     (case rl_route r repo of
        None \<Rightarrow> (Err (RlNoRoute (repo_string repo)), m, w)
      | Some route \<Rightarrow>
          (case Manifest_File m p of
             None \<Rightarrow> (Err RlEntryNotFound, m, w)
           | Some i \<Rightarrow>
               if Digest_IsZero (fe_Digest (mf_Files m ! i)) then
                 (case backfillDigest r (rt_Primary route) kind repo m i token w of
                    (Ok _, m', w') \<Rightarrow> (Ok i, m', w')
                  | (Err e, m', w') \<Rightarrow> (Err e, m', w')
                  | (Panic, m', w') \<Rightarrow> (Panic, m', w'))
               else (Ok i, m, w)))"

definition maxRegularFileSize :: nat where
  "maxRegularFileSize = 10 * 2 ^ 20"

definition storeRegularBlob ::
  "'w Relay \<Rightarrow> 'w Backend \<Rightarrow> repo_kind \<Rightarrow> repo_id \<Rightarrow> Manifest \<Rightarrow> nat \<Rightarrow> byte list \<Rightarrow> 'w
   \<Rightarrow> (relay_error, unit) res \<times> Manifest \<times> 'w" where
  "storeRegularBlob r bk kind repo m i body w =
     (let f = mf_Files m ! i; content = take (maxRegularFileSize + 1) body in
      if maxRegularFileSize < length content then (Err (RlTooLarge (fe_Path f)), m, w)
      else if gitBlobOID r content \<noteq> Digest_Hex (fe_Digest f) then (Err (RlDigestMismatch (fe_Path f)), m, w)
      else
        let d = SHA256_of r content in
        case bk_PutBlob bk kind repo d content (int (length content)) w of
          (Err e, w1) \<Rightarrow> (Err (RlPersist e), m, w1)
        | (Panic, w1) \<Rightarrow> (Panic, m, w1)
        | (Ok _, w1) \<Rightarrow>
            (let m' = set_entry m i (f\<lparr>fe_OID := Digest_Hex (fe_Digest f), fe_Digest := d,
                                       fe_Size := int (length content)\<rparr>) in
             case bk_PutManifest bk m' [] w1 of
               (Ok _, w2) \<Rightarrow> (Ok (), m', w2)
             | (Err e, w2) \<Rightarrow> (Err (RlPersist e), m', w2)
             | (Panic, w2) \<Rightarrow> (Panic, m', w2)))"

text \<open>\<open>Counter.Add\<close> panics on a negative value.\<close>

definition count_bytes :: "'w Relay \<Rightarrow> int \<Rightarrow> (relay_error, unit) res" where
  "count_bytes r n = (if rl_metrics r \<and> n < 0 then Panic else Ok ())"

definition fetch_blob_body ::
  "'w Relay \<Rightarrow> 'w upstream_conn \<Rightarrow> 'w Backend \<Rightarrow> repo_kind \<Rightarrow> repo_id \<Rightarrow> Manifest \<Rightarrow> nat \<Rightarrow> string \<Rightarrow> 'w
   \<Rightarrow> (relay_error, unit) res \<times> Manifest \<times> 'w" where
  "fetch_blob_body r u bk kind repo m i token w =
     (let f = mf_Files m ! i in
      case Upstream_OpenFile (uc_http u) (uc_version u) (uc_client u) kind repo (mf_CommitSHA m) (fe_Path f) token w of
        (Err e, w1) \<Rightarrow> (Err (mapUpstreamErr e), m, w1)
      | (Panic, w1) \<Rightarrow> (Panic, m, w1)
      | (Ok (body, meta), w1) \<Rightarrow>
          (let sz = (if 0 < mt_Size meta then mt_Size meta else fe_Size f) in
           if Digest_Algo (fe_Digest f) = ''sha1'' then
             (case storeRegularBlob r bk kind repo m i body w1 of
                (Ok _, m', w2) \<Rightarrow> (count_bytes r sz, m', w2)
              | (Err e, m', w2) \<Rightarrow> (Err e, m', w2)
              | (Panic, m', w2) \<Rightarrow> (Panic, m', w2))
           else
             (case bk_PutBlob bk kind repo (fe_Digest f) body sz w1 of
                (Ok _, w2) \<Rightarrow> (count_bytes r sz, m, w2)
              | (Err e, w2) \<Rightarrow> (Err (RlPersist e), m, w2)
              | (Panic, w2) \<Rightarrow> (Panic, m, w2))))"

text \<open>\<open>fetchBlob\<close>: a caller that joins a flight keeps its own manifest as it is.\<close>

definition fetchBlob ::
  "(relay_error, unit) res option \<Rightarrow> 'w Relay \<Rightarrow> 'w upstream_conn \<Rightarrow> 'w Backend \<Rightarrow> repo_kind \<Rightarrow> repo_id
   \<Rightarrow> Manifest \<Rightarrow> nat \<Rightarrow> string \<Rightarrow> 'w \<Rightarrow> (relay_error, unit) res \<times> Manifest \<times> 'w" where
  "fetchBlob joined r u bk kind repo m i token w =
     (case joined of
        Some v \<Rightarrow> (v, m, w)
      | None \<Rightarrow> fetch_blob_body r u bk kind repo m i token w)"

datatype source = SourceCache | SourceUpstream

definition Relay_OpenFile ::
  "(relay_error, unit) res option \<Rightarrow> 'w Relay \<Rightarrow> repo_kind \<Rightarrow> repo_id \<Rightarrow> Manifest \<Rightarrow> string \<Rightarrow> string \<Rightarrow> 'w
   \<Rightarrow> (relay_error, byte list \<times> nat \<times> source) res \<times> Manifest \<times> 'w" where
  "Relay_OpenFile joined r kind repo m p token w =
     (case rl_route r repo of
        None \<Rightarrow> (Err (RlNoRoute (repo_string repo)), m, w)
      | Some route \<Rightarrow>
          (let bk = rt_Primary route in
           case EnsureEntry r kind repo m p token w of
             (Err e, m1, w1) \<Rightarrow> (Err e, m1, w1)
           | (Panic, m1, w1) \<Rightarrow> (Panic, m1, w1)
           | (Ok i, m1, w1) \<Rightarrow>
               (case bk_OpenBlob bk kind repo (fe_Digest (mf_Files m1 ! i)) w1 of
                  Ok c \<Rightarrow> (Ok (c, i, SourceCache), m1, w1)
                | Panic \<Rightarrow> (Panic, m1, w1)
                | Err _ \<Rightarrow>
                    (case rl_upstream r of
                       None \<Rightarrow> (Err RlEntryNotFound, m1, w1)
                     | Some u \<Rightarrow>
                         (case fetchBlob joined r u bk kind repo m1 i token w1 of
                            (Err e, m2, w2) \<Rightarrow> (Err e, m2, w2)
                          | (Panic, m2, w2) \<Rightarrow> (Panic, m2, w2)
                          | (Ok _, m2, w2) \<Rightarrow>
                              (let d = fe_Digest (mf_Files m2 ! i) in
                               case bk_OpenBlob bk kind repo d w2 of
                                 Ok c \<Rightarrow> (Ok (c, i, SourceUpstream), m2, w2)
                               | Err e \<Rightarrow> (Err (RlVanished d e), m2, w2)
                               | Panic \<Rightarrow> (Panic, m2, w2)))))))"

end
