(* ===== verification/Relay_Write.thy ===== *)
theory Relay_Write
  imports Relay
begin

text \<open>
  Package internal/relay, the write path (write.go): repositories, uploaded
  blobs and commits. A commit runs under a lock per repository, so \<open>Commit\<close> is
  one function from the world to the world. The files map is an association
  list; its arbitrary iteration order is lost in the sort by path, the map's
  key. The clock's reading is the argument \<open>now\<close>.
\<close>

section \<open>Commit identifiers and LFS pointers\<close>

definition newline :: string where
  "newline = [CHR 0x0A]"

definition mint_line :: "FileEntry \<Rightarrow> string" where
  "mint_line f = fe_Path f @ '' '' @ fe_Digest f @ '' '' @ format_int (fe_Size f) @ newline"

definition mintCommitSHA :: "'w Relay \<Rightarrow> string \<Rightarrow> FileEntry list \<Rightarrow> string \<Rightarrow> string" where
  "mintCommitSHA r parent files summary =
     rl_sha1hex r (to_bytes
       (''parent '' @ parent @ newline @ ''summary '' @ summary @ newline @ concat (map mint_line files)))"

definition lfsPointerContent :: "string \<Rightarrow> int \<Rightarrow> byte list" where
  "lfsPointerContent oid sz =
     to_bytes (''version https://git-lfs.github.com/spec/v1'' @ newline @ ''oid sha256:'' @ oid @ newline @
               ''size '' @ format_int sz @ newline)"

section \<open>Repositories and uploads\<close>

definition replica_names :: "'w Route \<Rightarrow> string list" where
  "replica_names route = map bk_Name (rt_Replicas route)"

text \<open>A failure to enqueue is only logged.\<close>

definition fanOutCommit ::
  "'w Relay \<Rightarrow> repo_kind \<Rightarrow> repo_id \<Rightarrow> 'w Route \<Rightarrow> string \<Rightarrow> (string \<times> string) list \<Rightarrow> 'w \<Rightarrow> 'w" where
  "fanOutCommit r kind repo route sha refs w =
     (case rl_replicator r of
        None \<Rightarrow> w
      | Some rp \<Rightarrow>
          if rt_Replicas route = [] then w
          else snd (rp_EnqueueCommit rp kind repo (bk_Name (rt_Primary route)) sha refs (replica_names route) w))"

definition Relay_CreateRepo ::
  "'w Relay \<Rightarrow> int \<Rightarrow> repo_kind \<Rightarrow> repo_id \<Rightarrow> 'w \<Rightarrow> (relay_error, unit) res \<times> 'w" where
  "Relay_CreateRepo r now kind repo w =
     (case rl_route r repo of
        None \<Rightarrow> (Err (RlNoRoute (repo_string repo)), w)
      | Some route \<Rightarrow>
          (case bk_CreateRepo (rt_Primary route) kind repo w of
             (Err e, w1) \<Rightarrow> (Err (if e = ErrRepoExists then RlRepoExists else RlBackend e), w1)
           | (Panic, w1) \<Rightarrow> (Panic, w1)
           | (Ok _, w1) \<Rightarrow>
               (let m = \<lparr>mf_Repo = repo, mf_Kind = kind,
                         mf_CommitSHA = mintCommitSHA r [] [] (''init:'' @ kind_string kind @ '':'' @ repo_string repo),
                         mf_FetchedAt = now, mf_CreatedAt = now, mf_Files = []\<rparr>;
                    refs = [(DefaultRevision, mf_CommitSHA m)]
                in case bk_PutManifest (rt_Primary route) m refs w1 of
                     (Err e, w2) \<Rightarrow> (Err (RlInitial e), w2)
                   | (Panic, w2) \<Rightarrow> (Panic, w2)
                   | (Ok _, w2) \<Rightarrow> (Ok (), fanOutCommit r kind repo route (mf_CommitSHA m) refs w2))))"

definition Relay_DeleteRepo ::
  "'w Relay \<Rightarrow> repo_kind \<Rightarrow> repo_id \<Rightarrow> 'w \<Rightarrow> (relay_error, unit) res \<times> 'w" where
  "Relay_DeleteRepo r kind repo w =
     (case rl_route r repo of
        None \<Rightarrow> (Err (RlNoRoute (repo_string repo)), w)
      | Some route \<Rightarrow>
          (case bk_DeleteRepo (rt_Primary route) kind repo w of
             (Err e, w1) \<Rightarrow> (Err (mapBackendErr e), w1)
           | (Panic, w1) \<Rightarrow> (Panic, w1)
           | (Ok _, w1) \<Rightarrow>
               (Ok (), case rl_replicator r of
                         None \<Rightarrow> w1
                       | Some rp \<Rightarrow>
                           if rt_Replicas route = [] then w1
                           else snd (rp_EnqueueDeleteRepo rp kind repo (bk_Name (rt_Primary route))
                                       (replica_names route) w1))))"

definition HasLFSBlob :: "'w Relay \<Rightarrow> repo_kind \<Rightarrow> repo_id \<Rightarrow> string \<Rightarrow> 'w \<Rightarrow> bool" where
  "HasLFSBlob r kind repo oid w =
     (case rl_route r repo of
        None \<Rightarrow> False
      | Some route \<Rightarrow>
          (case bk_StatBlob (rt_Primary route) kind repo (SHA256Digest oid) w of Ok _ \<Rightarrow> True | _ \<Rightarrow> False))"

text \<open>The counter is given what flowed through the reader, never the declared size.\<close>

definition PutLFSBlob ::
  "'w Relay \<Rightarrow> repo_kind \<Rightarrow> repo_id \<Rightarrow> string \<Rightarrow> int \<Rightarrow> byte list \<Rightarrow> 'w \<Rightarrow> (relay_error, unit) res \<times> 'w" where
  "PutLFSBlob r kind repo oid sz body w =
     (case rl_route r repo of
        None \<Rightarrow> (Err (RlNoRoute (repo_string repo)), w)
      | Some route \<Rightarrow>
          (case bk_PutBlob (rt_Primary route) kind repo (SHA256Digest oid) body sz w of
             (Err e, w1) \<Rightarrow> (Err (RlBackend e), w1)
           | (Panic, w1) \<Rightarrow> (Panic, w1)
           | (Ok _, w1) \<Rightarrow> (count_bytes r (int (length body)), w1)))"

section \<open>Commits\<close>

record CommitOpFile =
  cf_Path :: string
  cf_Content :: "byte list"

record CommitLFSFile =
  cl_Path :: string
  cl_OID :: string
  cl_Size :: int

record CommitOps =
  co_Summary :: string
  co_ParentCommit :: string
  co_Files :: "CommitOpFile list"
  co_LFSFiles :: "CommitLFSFile list"
  co_DeletedFiles :: "string list"
  co_DeletedFolders :: "string list"

type_synonym files_map = "(string \<times> FileEntry) list"

definition parent_map :: "FileEntry list \<Rightarrow> files_map" where
  "parent_map fs = fold (\<lambda>f. AList.update (fe_Path f) f) fs []"

definition delete_files :: "string list \<Rightarrow> files_map \<Rightarrow> files_map" where
  "delete_files dels files = fold AList.delete dels files"

definition folder_prefix :: "string \<Rightarrow> string" where
  "folder_prefix dir = trim_suffix ''/'' dir @ ''/''"

definition delete_folders :: "string list \<Rightarrow> files_map \<Rightarrow> files_map" where
  "delete_folders dirs files =
     fold (\<lambda>dir. filter (\<lambda>(path, _). \<not> has_prefix (folder_prefix dir) path)) dirs files"

definition inline_entry :: "'w Relay \<Rightarrow> CommitOpFile \<Rightarrow> FileEntry" where
  "inline_entry r f =
     \<lparr>fe_Path = cf_Path f, fe_Size = int (length (cf_Content f)), fe_Digest = SHA256_of r (cf_Content f),
      fe_OID = gitBlobOID r (cf_Content f), fe_LFS = None\<rparr>"

fun put_inline ::
  "'w Relay \<Rightarrow> 'w Backend \<Rightarrow> repo_kind \<Rightarrow> repo_id \<Rightarrow> CommitOpFile list \<Rightarrow> files_map \<Rightarrow> 'w
   \<Rightarrow> (relay_error, files_map) res \<times> 'w" where
  "put_inline r bk kind repo [] files w = (Ok files, w)"
| "put_inline r bk kind repo (f # fs) files w =
     (case bk_PutBlob bk kind repo (SHA256_of r (cf_Content f)) (cf_Content f) (int (length (cf_Content f))) w of
        (Err e, w1) \<Rightarrow> (Err (RlInline (cf_Path f) e), w1)
      | (Panic, w1) \<Rightarrow> (Panic, w1)
      | (Ok _, w1) \<Rightarrow>
          put_inline r bk kind repo fs (AList.update (cf_Path f) (inline_entry r f) files) w1)"

definition lfs_entry :: "'w Relay \<Rightarrow> CommitLFSFile \<Rightarrow> FileEntry" where
  "lfs_entry r f =
     (let pointer = lfsPointerContent (cl_OID f) (cl_Size f) in
      \<lparr>fe_Path = cl_Path f, fe_Size = cl_Size f, fe_Digest = SHA256Digest (cl_OID f),
       fe_OID = gitBlobOID r pointer,
       fe_LFS = Some \<lparr>lfs_SHA256 = cl_OID f, lfs_OID = cl_OID f, lfs_Size = cl_Size f,
                      lfs_PointerSize = int (length pointer)\<rparr>\<rparr>)"

fun link_lfs ::
  "'w Relay \<Rightarrow> 'w Backend \<Rightarrow> repo_kind \<Rightarrow> repo_id \<Rightarrow> 'w \<Rightarrow> CommitLFSFile list \<Rightarrow> files_map \<Rightarrow> string list
   \<Rightarrow> (relay_error, files_map \<times> string list) res" where
  "link_lfs r bk kind repo w [] files missing = Ok (files, missing)"
| "link_lfs r bk kind repo w (f # fs) files missing =
     (case bk_StatBlob bk kind repo (SHA256Digest (cl_OID f)) w of
        Err _ \<Rightarrow> link_lfs r bk kind repo w fs files (missing @ [cl_Path f])
      | Panic \<Rightarrow> Panic
      | Ok _ \<Rightarrow> link_lfs r bk kind repo w fs (AList.update (cl_Path f) (lfs_entry r f) files) missing)"

text \<open>The part of an entry that decides whether two trees are the same.\<close>

definition entry_id :: "FileEntry \<Rightarrow> string \<times> digest \<times> int" where
  "entry_id f = (fe_Path f, fe_Digest f, fe_Size f)"

definition sameTree :: "FileEntry list \<Rightarrow> FileEntry list \<Rightarrow> bool" where
  "sameTree a b \<longleftrightarrow>
     length a = length b \<and>
     list_all (\<lambda>(x, y). fe_Path x = fe_Path y \<and> fe_Digest x = fe_Digest y \<and> fe_Size x = fe_Size y) (zip a b)"

text \<open>The tree of a commit on top of \<open>parent\<close>, storing its inline files on the way.\<close>

definition apply_ops ::
  "'w Relay \<Rightarrow> 'w Backend \<Rightarrow> repo_kind \<Rightarrow> repo_id \<Rightarrow> CommitOps \<Rightarrow> FileEntry list \<Rightarrow> 'w
   \<Rightarrow> (relay_error, FileEntry list) res \<times> 'w" where
  "apply_ops r bk kind repo ops parent w =
     (case put_inline r bk kind repo (co_Files ops)
             (delete_folders (co_DeletedFolders ops) (delete_files (co_DeletedFiles ops) (parent_map parent))) w of
        (Err e, w1) \<Rightarrow> (Err e, w1)
      | (Panic, w1) \<Rightarrow> (Panic, w1)
      | (Ok files, w1) \<Rightarrow>
          (case link_lfs r bk kind repo w1 (co_LFSFiles ops) files [] of
             Err e \<Rightarrow> (Err e, w1)
           | Panic \<Rightarrow> (Panic, w1)
           | Ok (files', missing) \<Rightarrow>
               if missing \<noteq> [] then (Err (RlLFSBlobMissing missing), w1)
               else (Ok (sort_key fe_Path (map snd files')), w1)))"

definition write_commit ::
  "'w Relay \<Rightarrow> 'w Route \<Rightarrow> int \<Rightarrow> repo_kind \<Rightarrow> repo_id \<Rightarrow> string \<Rightarrow> string \<Rightarrow> string \<Rightarrow> FileEntry list \<Rightarrow> 'w
   \<Rightarrow> (relay_error, string) res \<times> 'w" where
  "write_commit r route now kind repo revision summary parentSHA tree w =
     (let m = \<lparr>mf_Repo = repo, mf_Kind = kind, mf_CommitSHA = mintCommitSHA r parentSHA tree summary,
               mf_FetchedAt = now, mf_CreatedAt = now, mf_Files = tree\<rparr>;
          refs = [(revision, mf_CommitSHA m)]
      in case bk_PutManifest (rt_Primary route) m refs w of
           (Err e, w1) \<Rightarrow> (Err (RlCommit e), w1)
         | (Panic, w1) \<Rightarrow> (Panic, w1)
         | (Ok _, w1) \<Rightarrow> (Ok (mf_CommitSHA m), fanOutCommit r kind repo route (mf_CommitSHA m) refs w1))"

definition Commit ::
  "'w Relay \<Rightarrow> int \<Rightarrow> repo_kind \<Rightarrow> repo_id \<Rightarrow> string \<Rightarrow> CommitOps \<Rightarrow> 'w \<Rightarrow> (relay_error, string) res \<times> 'w" where
  "Commit r now kind repo revision ops w =
     (if IsCommitSHA revision then (Err RlBadRevision, w)
      else case rl_route r repo of
        None \<Rightarrow> (Err (RlNoRoute (repo_string repo)), w)
      | Some route \<Rightarrow>
          (let bk = rt_Primary route in
           case bk_ResolveRef bk kind repo revision w of
             Err e \<Rightarrow> (Err (mapBackendErr e), w)
           | Panic \<Rightarrow> (Panic, w)
           | Ok parentSHA \<Rightarrow>
               if co_ParentCommit ops \<noteq> [] \<and> co_ParentCommit ops \<noteq> parentSHA
               then (Err (RlParentMismatch parentSHA (co_ParentCommit ops)), w)
               else (case bk_GetManifest bk kind repo parentSHA w of
                 Err e \<Rightarrow> (Err (mapBackendErr e), w)
               | Panic \<Rightarrow> (Panic, w)
               | Ok parent \<Rightarrow>
                   (case apply_ops r bk kind repo ops (mf_Files parent) w of
                      (Err e, w1) \<Rightarrow> (Err e, w1)
                    | (Panic, w1) \<Rightarrow> (Panic, w1)
                    | (Ok tree, w1) \<Rightarrow>
                        if sameTree (mf_Files parent) tree then (Ok parentSHA, w1)
                        else write_commit r route now kind repo revision (co_Summary ops) parentSHA tree w1))))"

section \<open>The tree a commit describes\<close>

text \<open>
  The specification: the parent's tree without the deleted files and folders,
  overridden by the inline files, overridden by the LFS files; of two entries
  for a path the later one counts.
\<close>

definition tree_of :: "FileEntry list \<Rightarrow> string \<Rightarrow> FileEntry option" where
  "tree_of fs p = find (\<lambda>f. fe_Path f = p) (rev fs)"

definition deleted :: "CommitOps \<Rightarrow> string \<Rightarrow> bool" where
  "deleted ops p \<longleftrightarrow>
     p \<in> set (co_DeletedFiles ops) \<or> (\<exists>d \<in> set (co_DeletedFolders ops). has_prefix (folder_prefix d) p)"

definition commit_tree :: "'w Relay \<Rightarrow> CommitOps \<Rightarrow> (string \<Rightarrow> FileEntry option) \<Rightarrow> string \<Rightarrow> FileEntry option" where
  "commit_tree r ops parent =
     (\<lambda>p. if deleted ops p then None else parent p)
     ++ tree_of (map (inline_entry r) (co_Files ops)) ++ tree_of (map (lfs_entry r) (co_LFSFiles ops))"

end
