(* ===== verification/Relay_Contract.thy ===== *)
theory Relay_Contract
  imports Relay_Write
begin

text \<open>
  The relay on top of any backend that keeps the contract of \<open>Backend\<close>: what a
  commit, a created repository and a file opened through the relay leave in the
  primary backend. The client lemmas are proved once in the locale
  \<open>relay_store\<close>; \<open>Relay_Fs\<close> interprets it on the filesystem backend.
\<close>

section \<open>Trees and file lists\<close>

lemma tree_of_Nil [simp]: "tree_of [] = Map.empty"
  by (rule ext) (simp add: tree_of_def)

lemma tree_of_snoc: "tree_of (fs @ [f]) = (tree_of fs)(fe_Path f \<mapsto> f)"
  by (rule ext) (simp add: tree_of_def)

lemma tree_of_Cons: "tree_of (f # fs) = [fe_Path f \<mapsto> f] ++ tree_of fs"
proof (rule ext)
  fix p
  have app: "find P (xs @ ys) = (case find P xs of None \<Rightarrow> find P ys | Some x \<Rightarrow> Some x)"
    for P and xs ys :: "FileEntry list"
    by (induction xs) auto
  show "tree_of (f # fs) p = ([fe_Path f \<mapsto> f] ++ tree_of fs) p"
    by (simp add: tree_of_def app map_add_def split: option.splits)
qed

lemma tree_of_update: "m(fe_Path f \<mapsto> f) ++ tree_of fs = m ++ tree_of (f # fs)"
  by (simp add: tree_of_Cons)

lemma tree_of_Some: "tree_of fs p = Some f \<Longrightarrow> f \<in> set fs \<and> fe_Path f = p"
  by (induction fs) (auto simp: tree_of_Cons map_add_Some_iff split: if_splits)

lemma tree_of_distinct:
  assumes "distinct (map fe_Path fs)" "f \<in> set fs"
  shows "tree_of fs (fe_Path f) = Some f"
  using assms
proof (induction fs)
  case Nil
  then show ?case by simp
next
  case (Cons g fs)
  show ?case
  proof (cases "f \<in> set fs")
    case True
    with Cons show ?thesis by (simp add: tree_of_Cons)
  next
    case False
    with Cons.prems have g: "f = g" "fe_Path f \<notin> fe_Path ` set fs" by auto
    have "tree_of fs (fe_Path f) = None"
    proof (cases "tree_of fs (fe_Path f)")
      case (Some h)
      then have "h \<in> set fs" "fe_Path h = fe_Path f" using tree_of_Some by blast+
      with g(2) show ?thesis by (metis imageI)
    qed
    with g(1) show ?thesis by (simp add: tree_of_Cons map_add_def)
  qed
qed

lemma strict_sorted_distinct: "sorted_wrt (<) (xs :: 'a :: linorder list) \<Longrightarrow> distinct xs"
  by (simp add: strict_sorted_iff)

lemma sorted_tree_unique:
  assumes "sorted_wrt (<) (map fe_Path fs)" "sorted_wrt (<) (map fe_Path gs)" "tree_of fs = tree_of gs"
  shows "fs = gs"
proof -
  have list: "map (\<lambda>p. the (tree_of hs p)) (map fe_Path hs) = hs" if "sorted_wrt (<) (map fe_Path hs)" for hs
    using tree_of_distinct [OF strict_sorted_distinct [OF that]] by (auto intro!: map_idI)
  have paths: "set (map fe_Path hs) = dom (tree_of hs)" if "sorted_wrt (<) (map fe_Path hs)" for hs
    using tree_of_distinct [OF strict_sorted_distinct [OF that]] tree_of_Some [of hs] by (auto intro: domI)
  have "map fe_Path fs = map fe_Path gs"
    using assms paths [OF assms(1)] paths [OF assms(2)]
    by (intro sorted_distinct_set_unique) (simp_all add: strict_sorted_iff)
  then show ?thesis
    using list [OF assms(1)] list [OF assms(2)] assms(3) by metis
qed

text \<open>The files map: one entry per path, kept under its own path.\<close>

definition wf_files :: "files_map \<Rightarrow> bool" where
  "wf_files files \<longleftrightarrow> distinct (map fst files) \<and> (\<forall>p f. map_of files p = Some f \<longrightarrow> fe_Path f = p)"

lemma wf_files_update: "wf_files files \<Longrightarrow> fe_Path f = p \<Longrightarrow> wf_files (AList.update p f files)"
  by (auto simp: wf_files_def distinct_update update_conv')

lemma parent_map_props:
  "wf_files (parent_map fs)" "map_of (parent_map fs) = tree_of fs"
proof -
  have "wf_files al \<Longrightarrow> wf_files (fold (\<lambda>f. AList.update (fe_Path f) f) fs al)" for al
    by (induction fs arbitrary: al) (simp_all add: wf_files_update)
  moreover have "wf_files []" by (simp add: wf_files_def)
  ultimately show "wf_files (parent_map fs)" unfolding parent_map_def by blast
  have "map_of (fold (\<lambda>f. AList.update (fe_Path f) f) fs al) = map_of al ++ tree_of fs" for al
    by (induction fs arbitrary: al) (simp_all del: map_of.simps fun_upd_apply add: update_conv' tree_of_update)
  then show "map_of (parent_map fs) = tree_of fs" by (simp add: parent_map_def)
qed

lemma delete_files_props:
  assumes "wf_files files"
  shows "wf_files (delete_files ds files)"
    and "map_of (delete_files ds files) p = (if p \<in> set ds then None else map_of files p)"
proof -
  have "wf_files (fold AList.delete ds al) \<and>
        (\<forall>p. map_of (fold AList.delete ds al) p = (if p \<in> set ds then None else map_of al p))"
    if "wf_files al" for al :: files_map
    using that
  proof (induction ds arbitrary: al)
    case Nil
    then show ?case by simp
  next
    case (Cons d ds)
    have "wf_files (AList.delete d al)"
      using Cons.prems by (auto simp: wf_files_def distinct_delete delete_conv' split: if_splits)
    from Cons.IH [OF this] show ?case by (auto simp: delete_conv')
  qed
  with assms show "wf_files (delete_files ds files)"
    "map_of (delete_files ds files) p = (if p \<in> set ds then None else map_of files p)"
    by (simp_all add: delete_files_def)
qed

lemma map_of_filter_path: "map_of (filter (\<lambda>(p, _). P p) t) q = (if P q then map_of t q else None)"
  by (induction t) auto

lemma distinct_filter_keys: "distinct (map fst t) \<Longrightarrow> distinct (map fst (filter Q t))"
  by (simp add: distinct_map_filter)

lemma delete_folders_props:
  assumes "wf_files files"
  shows "wf_files (delete_folders ds files)"
    and "map_of (delete_folders ds files) p =
           (if \<exists>d \<in> set ds. has_prefix (folder_prefix d) p then None else map_of files p)"
proof -
  let ?step = "\<lambda>dir. filter (\<lambda>(path, _ :: FileEntry). \<not> has_prefix (folder_prefix dir) path)"
  have "wf_files (fold ?step ds al) \<and>
        (\<forall>p. map_of (fold ?step ds al) p =
               (if \<exists>d \<in> set ds. has_prefix (folder_prefix d) p then None else map_of al p))"
    if "wf_files al" for al :: files_map
    using that
  proof (induction ds arbitrary: al)
    case Nil
    then show ?case by simp
  next
    case (Cons d ds)
    have "wf_files (?step d al)"
      using Cons.prems by (auto simp: wf_files_def distinct_filter_keys map_of_filter_path split: if_splits)
    from Cons.IH [OF this] show ?case by (auto simp: map_of_filter_path)
  qed
  with assms show "wf_files (delete_folders ds files)"
    "map_of (delete_folders ds files) p =
       (if \<exists>d \<in> set ds. has_prefix (folder_prefix d) p then None else map_of files p)"
    by (simp_all add: delete_folders_def)
qed

lemma put_inline_files:
  "put_inline r bk kind repo fs files w = (Ok files', w') \<Longrightarrow> wf_files files \<Longrightarrow>
     wf_files files' \<and> map_of files' = map_of files ++ tree_of (map (inline_entry r) fs)"
proof (induction fs arbitrary: files w)
  case Nil
  then show ?case by simp
next
  case (Cons f fs)
  then obtain u w1 where
    "put_inline r bk kind repo fs (AList.update (cf_Path f) (inline_entry r f) files) w1 = (Ok files', w')"
    by (auto split: prod.splits res.splits)
  moreover have p: "fe_Path (inline_entry r f) = cf_Path f" by (simp add: inline_entry_def)
  ultimately have "wf_files files' \<and>
      map_of files' = (map_of files)(cf_Path f \<mapsto> inline_entry r f) ++ tree_of (map (inline_entry r) fs)"
    using Cons.IH wf_files_update [OF Cons.prems(2) p] by (metis update_conv')
  then show ?case
    unfolding list.map using tree_of_update [of "map_of files" "inline_entry r f"] by (metis p)
qed

lemma link_lfs_files:
  "link_lfs r bk kind repo w fs files missing = Ok (files', missing') \<Longrightarrow> wf_files files \<Longrightarrow>
     wf_files files' \<and>
     (\<exists>ms. missing' = missing @ ms \<and> (ms = [] \<longrightarrow>
        (\<forall>f \<in> set fs. \<exists>i. bk_StatBlob bk kind repo (SHA256Digest (cl_OID f)) w = Ok i) \<and>
        map_of files' = map_of files ++ tree_of (map (lfs_entry r) fs)))"
proof (induction fs arbitrary: files missing)
  case Nil
  then show ?case by simp
next
  case (Cons f fs)
  show ?case
  proof (cases "bk_StatBlob bk kind repo (SHA256Digest (cl_OID f)) w")
    case (Ok i)
    have p: "fe_Path (lfs_entry r f) = cl_Path f" by (simp add: lfs_entry_def Let_def)
    from Ok Cons.prems(1) have
      "link_lfs r bk kind repo w fs (AList.update (cl_Path f) (lfs_entry r f) files) missing = Ok (files', missing')"
      by simp
    note ih = Cons.IH [OF this wf_files_update [OF Cons.prems(2) p]]
    have eq: "(map_of files)(cl_Path f \<mapsto> lfs_entry r f) ++ tree_of (map (lfs_entry r) fs) =
        map_of files ++ tree_of (map (lfs_entry r) (f # fs))"
      unfolding list.map by (metis tree_of_update p)
    from ih [unfolded update_conv' eq] Ok show ?thesis by auto
  next
    case (Err e)
    with Cons.prems(1) have "link_lfs r bk kind repo w fs files (missing @ [cl_Path f]) = Ok (files', missing')"
      by simp
    from Cons.IH [OF this Cons.prems(2)] show ?thesis by auto
  next
    case Panic
    with Cons.prems(1) show ?thesis by simp
  qed
qed

lemma sorted_files:
  assumes "wf_files files"
  shows "sorted_wrt (<) (map fe_Path (sort_key fe_Path (map snd files)))"
    and "tree_of (sort_key fe_Path (map snd files)) = map_of files"
proof -
  let ?fs = "sort_key fe_Path (map snd files)"
  have keys: "map fe_Path (map snd files) = map fst files"
    using assms by (auto simp: wf_files_def)
  have "distinct (map fe_Path (map snd files))"
    using assms unfolding keys by (simp add: wf_files_def)
  then have d: "distinct (map fe_Path ?fs)"
    by (metis mset_map mset_sort mset_eq_imp_distinct_iff)
  then show "sorted_wrt (<) (map fe_Path ?fs)"
    by (simp add: strict_sorted_iff)
  show "tree_of ?fs = map_of files"
  proof (rule ext)
    fix p
    show "tree_of ?fs p = map_of files p"
    proof (cases "map_of files p")
      case (Some f)
      then have "(p, f) \<in> set files" by (rule map_of_SomeD)
      then have "f \<in> set ?fs" by (force intro: image_eqI)
      then have "tree_of ?fs (fe_Path f) = Some f" by (rule tree_of_distinct [OF d])
      with Some assms show ?thesis by (simp add: wf_files_def)
    next
      case None
      show ?thesis
      proof (cases "tree_of ?fs p")
        case (Some f)
        with tree_of_Some [OF this] obtain q where q: "(q, f) \<in> set files" "fe_Path f = p" by auto
        then have "map_of files q = Some f" using assms by (simp add: wf_files_def)
        with q(2) assms None show ?thesis by (auto simp: wf_files_def)
      qed (simp add: None)
    qed
  qed
qed

lemma apply_ops_tree:
  assumes "apply_ops r bk kind repo ops parent w = (Ok tree, w')"
  shows "sorted_wrt (<) (map fe_Path tree)"
    and "tree_of tree = commit_tree r ops (tree_of parent)"
    and "\<forall>f \<in> set (co_LFSFiles ops). \<exists>i. bk_StatBlob bk kind repo (SHA256Digest (cl_OID f)) w' = Ok i"
proof -
  let ?base = "delete_folders (co_DeletedFolders ops) (delete_files (co_DeletedFiles ops) (parent_map parent))"
  obtain files files' where p: "put_inline r bk kind repo (co_Files ops) ?base w = (Ok files, w')"
    and l: "link_lfs r bk kind repo w' (co_LFSFiles ops) files [] = Ok (files', [])"
    and t: "tree = sort_key fe_Path (map snd files')"
    using assms unfolding apply_ops_def by (auto split: prod.splits res.splits if_splits)
  note base = delete_folders_props [OF delete_files_props(1) [OF parent_map_props(1)]]
    delete_files_props(2) [OF parent_map_props(1)] parent_map_props(2)
  have b: "map_of ?base = (\<lambda>p. if deleted ops p then None else tree_of parent p)"
    by (rule ext) (simp add: base deleted_def)
  note f = put_inline_files [OF p base(1)]
  note f' = link_lfs_files [OF l conjunct1 [OF f]]
  show "sorted_wrt (<) (map fe_Path tree)" using sorted_files(1) f' by (simp add: t)
  show "tree_of tree = commit_tree r ops (tree_of parent)"
    using f f' b sorted_files(2) by (simp add: t commit_tree_def)
  show "\<forall>f \<in> set (co_LFSFiles ops). \<exists>i. bk_StatBlob bk kind repo (SHA256Digest (cl_OID f)) w' = Ok i"
    using f' by simp
qed

lemma tree_of_entry_id:
  "map entry_id fs = map entry_id gs \<Longrightarrow>
     map_option entry_id (tree_of fs p) = map_option entry_id (tree_of gs p)"
proof (induction fs arbitrary: gs)
  case Nil
  then show ?case by simp
next
  case (Cons f fs)
  then obtain g gs' where gs: "gs = g # gs'" "entry_id f = entry_id g" "map entry_id fs = map entry_id gs'"
    by (cases gs) auto
  have "fe_Path f = fe_Path g" using gs(2) by (simp add: entry_id_def)
  with Cons.IH [OF gs(3)] gs(2) show ?case
    by (cases "tree_of fs p"; cases "tree_of gs' p") (simp_all add: gs(1) tree_of_Cons map_add_def)
qed

lemma commit_tree_idem: "commit_tree r ops (commit_tree r ops t) = commit_tree r ops t"
  by (rule ext) (simp add: commit_tree_def map_add_def split: option.splits)

lemma sameTree_iff: "sameTree a b \<longleftrightarrow> map entry_id a = map entry_id b"
proof -
  have "sameTree a b \<longleftrightarrow> list_all2 (\<lambda>x y. entry_id x = entry_id y) a b"
    by (auto simp: sameTree_def entry_id_def list_all2_iff list_all_iff)
  also have "\<dots> \<longleftrightarrow> map entry_id a = map entry_id b"
    by (simp add: list_all2_map1 list_all2_map2 list.rel_eq [symmetric] list.rel_map)
  finally show ?thesis .
qed

lemma Commit_Ok_cases:
  assumes "Commit r now kind repo revision ops w = (Ok sha, w')"
  obtains route p pm tree w1 where
    "\<not> IsCommitSHA revision" "rl_route r repo = Some route"
    "bk_ResolveRef (rt_Primary route) kind repo revision w = Ok p"
    "co_ParentCommit ops = [] \<or> co_ParentCommit ops = p"
    "bk_GetManifest (rt_Primary route) kind repo p w = Ok pm"
    "apply_ops r (rt_Primary route) kind repo ops (mf_Files pm) w = (Ok tree, w1)"
    "(sameTree (mf_Files pm) tree \<and> sha = p \<and> w' = w1) \<or>
     (\<not> sameTree (mf_Files pm) tree \<and>
      write_commit r route now kind repo revision (co_Summary ops) p tree w1 = (Ok sha, w'))"
  using assms unfolding Commit_def Let_def
  by (auto split: if_splits option.splits res.splits prod.splits)

section \<open>A relay whose primary keeps the storage contract\<close>

definition relay_hashes :: "'w Relay \<Rightarrow> bool" where
  "relay_hashes r \<longleftrightarrow>
     (\<forall>c. IsCommitSHA (rl_sha1hex r c)) \<and>
     (\<forall>c. length (rl_sha256hex r c) = 64 \<and> list_all is_lower_hex (rl_sha256hex r c))"

text \<open>What the primary serves in \<open>w\<close>, it serves in \<open>w'\<close>.\<close>

definition store_keeps :: "'w Backend \<Rightarrow> repo_kind \<Rightarrow> repo_id \<Rightarrow> 'w \<Rightarrow> 'w \<Rightarrow> bool" where
  "store_keeps b kind repo w w' \<longleftrightarrow>
     (\<forall>ref sha. bk_ResolveRef b kind repo ref w = Ok sha \<longrightarrow> bk_ResolveRef b kind repo ref w' = Ok sha) \<and>
     (\<forall>sha m. IsCommitSHA sha \<longrightarrow> bk_GetManifest b kind repo sha w = Ok m \<longrightarrow>
        bk_GetManifest b kind repo sha w' = Ok m) \<and>
     (\<forall>d c. digestPattern d \<longrightarrow> bk_OpenBlob b kind repo d w = Ok c \<longrightarrow> bk_OpenBlob b kind repo d w' = Ok c)"

lemma store_keeps_refl [simp]: "store_keeps b kind repo w w"
  by (simp add: store_keeps_def)

lemma store_keeps_trans:
  "store_keeps b kind repo w w1 \<Longrightarrow> store_keeps b kind repo w1 w2 \<Longrightarrow> store_keeps b kind repo w w2"
  by (simp add: store_keeps_def)

lemma store_keepsD:
  assumes "store_keeps b kind repo w w'"
  shows "bk_ResolveRef b kind repo ref w = Ok sha \<Longrightarrow> bk_ResolveRef b kind repo ref w' = Ok sha"
    and "IsCommitSHA sha \<Longrightarrow> bk_GetManifest b kind repo sha w = Ok m \<Longrightarrow> bk_GetManifest b kind repo sha w' = Ok m"
    and "digestPattern d \<Longrightarrow> bk_OpenBlob b kind repo d w = Ok c \<Longrightarrow> bk_OpenBlob b kind repo d w' = Ok c"
  using assms by (simp_all add: store_keeps_def)

lemma digest_of_content: "relay_hashes r \<Longrightarrow> digestPattern (SHA256_of r c)"
  unfolding digestPattern_iff SHA256_of_def SHA256Digest_def NewDigest_def
  by (rule exI [of _ "''sha256''"], rule exI [of _ "rl_sha256hex r c"]) (simp add: relay_hashes_def)

text \<open>
  The relay adds to the backend's contract that the calls that are not its own,
  to the replication queue and to the upstream, leave the primary's data alone.
\<close>

locale relay_store = backend_contract b kind repo good content_ok "\<lambda>_. True"
  for b :: "'w Backend" and kind repo good content_ok +
  fixes r :: "'w Relay"
  assumes quiet_enqueue:
      "good w \<Longrightarrow> rl_replicator r = Some rp \<Longrightarrow>
         rp_EnqueueCommit rp k i src sha refs ts w = (x, w') \<Longrightarrow> good w' \<and> store_keeps b kind repo w w'"
    and quiet_http:
      "good w \<Longrightarrow> rl_upstream r = Some u \<Longrightarrow> uc_http u rq w = (y, w') \<Longrightarrow>
         good w' \<and> store_keeps b kind repo w w'"

context relay_store begin

lemma put_blob_props:
  assumes "bk_PutBlob b kind repo d c n w = (x, w')" "good w" "digestPattern d"
  shows "good w'" "store_keeps b kind repo w w'"
    "x = Ok () \<Longrightarrow> \<exists>c'. bk_OpenBlob b kind repo d w' = Ok c'"
proof -
  note p = assms(2,3,1)
  show "good w'" by (rule put_blob_good [OF p])
  show "store_keeps b kind repo w w'"
    unfolding store_keeps_def
    using put_blob_refs [OF p] put_blob_manifests [OF p] put_blob_keeps [OF p] by simp
  show "\<exists>c'. bk_OpenBlob b kind repo d w' = Ok c'" if "x = Ok ()"
    using put_blob_stored [OF p(1,2)] assms(1) that by simp
qed

lemma fan_out_props:
  assumes "good w"
  shows "good (fanOutCommit r k i route sha refs w)" "store_keeps b kind repo w (fanOutCommit r k i route sha refs w)"
  using quiet_enqueue [OF assms] assms
  by (auto simp: fanOutCommit_def split: option.splits) (metis prod.collapse)+

lemma put_inline_props:
  "put_inline r b kind repo fs files w = (x, w') \<Longrightarrow> good w \<Longrightarrow> relay_hashes r \<Longrightarrow>
     good w' \<and> store_keeps b kind repo w w' \<and>
     (\<forall>files'. x = Ok files' \<longrightarrow>
        (\<forall>f \<in> set fs. \<exists>c. bk_OpenBlob b kind repo (SHA256_of r (cf_Content f)) w' = Ok c))"
proof (induction fs arbitrary: files w)
  case Nil
  then show ?case by auto
next
  case (Cons f fs)
  let ?d = "SHA256_of r (cf_Content f)"
  obtain y w1 where p: "bk_PutBlob b kind repo ?d (cf_Content f) (int (length (cf_Content f))) w = (y, w1)"
    by fastforce
  note d = digest_of_content [OF Cons.prems(3)]
  note pp = put_blob_props [OF p Cons.prems(2) d]
  show ?case
  proof (cases y)
    case (Ok u)
    then have y: "y = Ok ()" by simp
    have "put_inline r b kind repo fs (AList.update (cf_Path f) (inline_entry r f) files) w1 = (x, w')"
      using Cons.prems(1) p y by simp
    note ih = Cons.IH [OF this pp(1) Cons.prems(3)]
    obtain c where c: "bk_OpenBlob b kind repo ?d w1 = Ok c" using pp(3) y by blast
    have "bk_OpenBlob b kind repo ?d w' = Ok c"
      by (rule store_keepsD(3) [OF conjunct1 [OF conjunct2 [OF ih]] d c])
    with ih store_keeps_trans [OF pp(2)] show ?thesis by auto
  qed (use Cons.prems p pp in \<open>auto\<close>)
qed

lemma apply_ops_props:
  assumes "apply_ops r b kind repo ops parent w = (x, w')" "good w" "relay_hashes r"
  shows "good w'" "store_keeps b kind repo w w'"
    "x = Ok tree \<Longrightarrow> f \<in> set (co_Files ops) \<Longrightarrow>
       \<exists>c. bk_OpenBlob b kind repo (SHA256_of r (cf_Content f)) w' = Ok c"
proof -
  let ?base = "delete_folders (co_DeletedFolders ops) (delete_files (co_DeletedFiles ops) (parent_map parent))"
  obtain y w1 where p: "put_inline r b kind repo (co_Files ops) ?base w = (y, w1)" by fastforce
  have w1: "w' = w1" "x = Ok tree \<Longrightarrow> \<exists>files. y = Ok files"
    using assms(1) p unfolding apply_ops_def by (auto split: res.splits prod.splits if_splits)
  note pp = put_inline_props [OF p assms(2,3)]
  show "good w'" "store_keeps b kind repo w w'" using pp w1(1) by simp_all
  show "\<exists>c. bk_OpenBlob b kind repo (SHA256_of r (cf_Content f)) w' = Ok c"
    if "x = Ok tree" "f \<in> set (co_Files ops)"
    using pp w1 that by blast
qed
text \<open>The blobs behind the entries a commit adds.\<close>

lemma commit_entries_stored:
  assumes "apply_ops r b kind repo ops parent w = (Ok tree, w')" "good w" "relay_hashes r"
    and lfs: "\<forall>f \<in> set (co_LFSFiles ops). digestPattern (SHA256Digest (cl_OID f))"
    and f: "f \<in> set tree" "f \<notin> set parent"
  shows "digestPattern (fe_Digest f) \<and> (\<exists>c. bk_OpenBlob b kind repo (fe_Digest f) w' = Ok c)"
proof -
  note t = apply_ops_tree [OF assms(1)] and p = apply_ops_props [OF assms(1-3)]
  have "tree_of tree (fe_Path f) = Some f"
    by (rule tree_of_distinct [OF strict_sorted_distinct [OF t(1)] f(1)])
  then have "commit_tree r ops (tree_of parent) (fe_Path f) = Some f" by (simp add: t(2))
  then consider "f \<in> set (map (lfs_entry r) (co_LFSFiles ops))"
    | "f \<in> set (map (inline_entry r) (co_Files ops))" | "f \<in> set parent"
    unfolding commit_tree_def map_add_Some_iff using tree_of_Some by (auto split: if_splits dest!: tree_of_Some)
  then show ?thesis
  proof cases
    case 1
    then obtain g where g: "g \<in> set (co_LFSFiles ops)" "fe_Digest f = SHA256Digest (cl_OID g)"
      by (auto simp: lfs_entry_def Let_def)
    have d: "digestPattern (SHA256Digest (cl_OID g))" using lfs g(1) by simp
    from t(3) g(1) stat_iff_open [OF p(1) d] show ?thesis unfolding g(2) by (simp add: d)
  next
    case 2
    then obtain g where g: "g \<in> set (co_Files ops)" "fe_Digest f = SHA256_of r (cf_Content g)"
      by (auto simp: inline_entry_def)
    from p(3) [OF refl g(1)] digest_of_content [OF assms(3)] show ?thesis by (simp add: g(2))
  next
    case 3
    with f(2) show ?thesis by simp
  qed
qed

lemma write_commit_props:
  assumes "write_commit r route now kind repo revision summary p tree w = (Ok sha, w')"
    and "rt_Primary route = b" "good w" "\<not> IsCommitSHA revision" "relay_hashes r"
  shows "good w'" "sha = mintCommitSHA r p tree summary" "bk_ResolveRef b kind repo revision w' = Ok sha"
    "\<exists>m. bk_GetManifest b kind repo sha w' = Ok m \<and> mf_Files m = tree \<and> manifest_ok kind repo m \<and>
       mf_CommitSHA m = sha"
    "digestPattern d \<Longrightarrow> bk_OpenBlob b kind repo d w = Ok c \<Longrightarrow> bk_OpenBlob b kind repo d w' = Ok c"
    "IsCommitSHA old \<Longrightarrow> old \<noteq> sha \<Longrightarrow> bk_GetManifest b kind repo old w = Ok m0 \<Longrightarrow>
       bk_GetManifest b kind repo old w' = Ok m0"
proof -
  let ?sha = "mintCommitSHA r p tree summary"
  let ?m = "\<lparr>mf_Repo = repo, mf_Kind = kind, mf_CommitSHA = ?sha, mf_FetchedAt = now, mf_CreatedAt = now,
             mf_Files = tree\<rparr>"
  have ok: "manifest_ok kind repo ?m" "distinct (map fst [(revision, ?sha)])"
    by (simp_all add: manifest_ok_def)
  obtain w1 where pm: "bk_PutManifest b ?m [(revision, ?sha)] w = (Ok (), w1)" and sha: "sha = ?sha"
    and w': "w' = fanOutCommit r kind repo route ?sha [(revision, ?sha)] w1"
    using assms(1,2) unfolding write_commit_def Let_def
    by (auto split: res.splits prod.splits)
  note put = put_manifest_good [OF assms(3) ok pm] put_manifest_stored [OF assms(3) ok pm TrueI]
    put_manifest_refs [OF assms(3) ok pm]
  have keeps: "store_keeps b kind repo w1 w'" unfolding w' by (rule fan_out_props(2) [OF put(1)])
  show "good w'" unfolding w' by (rule fan_out_props(1) [OF put(1)])
  show "sha = ?sha" by (rule sha)
  show "bk_ResolveRef b kind repo revision w' = Ok sha"
    unfolding sha by (rule store_keepsD(1) [OF keeps put(3)]) (simp_all add: assms(4))
  have c: "IsCommitSHA ?sha" using assms(5) by (simp add: relay_hashes_def mintCommitSHA_def)
  have "bk_GetManifest b kind repo sha w' = Ok ?m"
    unfolding sha using store_keepsD(2) [OF keeps c] put(2) by simp
  then show "\<exists>m. bk_GetManifest b kind repo sha w' = Ok m \<and> mf_Files m = tree \<and> manifest_ok kind repo m \<and>
       mf_CommitSHA m = sha"
    using ok(1) sha by (intro exI [of _ ?m]) simp
  show "bk_OpenBlob b kind repo d w' = Ok c" if "digestPattern d" "bk_OpenBlob b kind repo d w = Ok c"
    by (rule store_keepsD(3) [OF keeps that(1) put_manifest_blobs [OF assms(3) ok pm that]])
  show "bk_GetManifest b kind repo old w' = Ok m0"
    if "IsCommitSHA old" "old \<noteq> sha" "bk_GetManifest b kind repo old w = Ok m0"
    by (rule store_keepsD(2) [OF keeps that(1) put_manifest_others [OF assms(3) ok pm _ that(1,3)]])
       (use that(2) sha in simp)
qed

text \<open>What a successful commit did, in one place for the lemmas below.\<close>

lemma commit_result:
  assumes run: "Commit r now kind repo revision ops w = (Ok sha, w')"
    and route: "rl_route r repo = Some route" "rt_Primary route = b"
    and good: "good w" and hashes: "relay_hashes r"
    and parent: "bk_ResolveRef b kind repo revision w = Ok p" "bk_GetManifest b kind repo p w = Ok pm"
  obtains tree w1 m where "\<not> IsCommitSHA revision"
    "apply_ops r b kind repo ops (mf_Files pm) w = (Ok tree, w1)"
    "good w1" "store_keeps b kind repo w w1"
    "good w'" "bk_ResolveRef b kind repo revision w' = Ok sha"
    "bk_GetManifest b kind repo sha w' = Ok m"
    "(sha = p \<and> w' = w1 \<and> m = pm \<and> sameTree (mf_Files pm) tree) \<or>
        (mf_Files m = tree \<and> manifest_ok kind repo m \<and> mf_CommitSHA m = sha \<and>
         write_commit r route now kind repo revision (co_Summary ops) p tree w1 = (Ok sha, w'))"
    "\<forall>old m0. IsCommitSHA old \<longrightarrow> old \<noteq> sha \<longrightarrow> bk_GetManifest b kind repo old w = Ok m0 \<longrightarrow>
       bk_GetManifest b kind repo old w' = Ok m0"
    "\<forall>d c. digestPattern d \<longrightarrow> bk_OpenBlob b kind repo d w1 = Ok c \<longrightarrow> bk_OpenBlob b kind repo d w' = Ok c"
proof -
  obtain tree w1 where rev: "\<not> IsCommitSHA revision"
    and a: "apply_ops r b kind repo ops (mf_Files pm) w = (Ok tree, w1)"
    and fin: "(sameTree (mf_Files pm) tree \<and> sha = p \<and> w' = w1) \<or>
      (\<not> sameTree (mf_Files pm) tree \<and>
       write_commit r route now kind repo revision (co_Summary ops) p tree w1 = (Ok sha, w'))"
    by (rule Commit_Ok_cases [OF run]) (use route parent in auto)
  note ap = apply_ops_props(1,2) [OF a good hashes]
  show thesis
    using fin
  proof
    assume f: "sameTree (mf_Files pm) tree \<and> sha = p \<and> w' = w1"
    have "bk_GetManifest b kind repo p w1 = Ok pm"
      by (rule store_keepsD(2) [OF ap(2) resolve_commit [OF good parent(1)] parent(2)])
    then show thesis
      using f ap store_keepsD [OF ap(2)] parent by (intro that [OF rev a ap]) auto
  next
    assume f: "\<not> sameTree (mf_Files pm) tree \<and>
       write_commit r route now kind repo revision (co_Summary ops) p tree w1 = (Ok sha, w')"
    note wc = write_commit_props [OF conjunct2 [OF f] route(2) ap(1) rev hashes]
    obtain m where m: "bk_GetManifest b kind repo sha w' = Ok m"
      "mf_Files m = tree \<and> manifest_ok kind repo m \<and> mf_CommitSHA m = sha" using wc(4) by blast
    show thesis
      by (rule that [OF rev a ap wc(1,3) m(1)])
        (use wc(5,6) store_keepsD(2) [OF ap(2)] m(2) f in simp_all)
  qed
qed

lemma commit_publishes:
  assumes run: "Commit r now kind repo revision ops w = (Ok sha, w')"
    and route: "rl_route r repo = Some route" "rt_Primary route = b"
    and good: "good w" and hashes: "relay_hashes r"
    and lfs: "\<forall>f \<in> set (co_LFSFiles ops). digestPattern (SHA256Digest (cl_OID f))"
    and parent: "bk_ResolveRef b kind repo revision w = Ok p" "bk_GetManifest b kind repo p w = Ok pm"
  shows "good w'" "bk_ResolveRef b kind repo revision w' = Ok sha"
    "\<exists>m. bk_GetManifest b kind repo sha w' = Ok m \<and> sorted_wrt (<) (map fe_Path (mf_Files m)) \<and>
       (\<forall>path. map_option entry_id (tree_of (mf_Files m) path) =
               map_option entry_id (commit_tree r ops (tree_of (mf_Files pm)) path)) \<and>
       (\<forall>f \<in> set (mf_Files m). f \<notin> set (mf_Files pm) \<longrightarrow>
          (\<exists>c. bk_OpenBlob b kind repo (fe_Digest f) w' = Ok c \<and> content_ok (fe_Digest f) c))"
    "IsCommitSHA old \<Longrightarrow> old \<noteq> sha \<Longrightarrow> bk_GetManifest b kind repo old w = Ok m0 \<Longrightarrow>
       bk_GetManifest b kind repo old w' = Ok m0"
    "digestPattern d \<Longrightarrow> bk_OpenBlob b kind repo d w = Ok c \<Longrightarrow> bk_OpenBlob b kind repo d w' = Ok c"
proof -
  obtain tree w1 m where rev: "\<not> IsCommitSHA revision"
    and a: "apply_ops r b kind repo ops (mf_Files pm) w = (Ok tree, w1)"
    and ap: "good w1" "store_keeps b kind repo w w1"
    and res: "good w'" "bk_ResolveRef b kind repo revision w' = Ok sha"
      "bk_GetManifest b kind repo sha w' = Ok m"
      "(sha = p \<and> w' = w1 \<and> m = pm \<and> sameTree (mf_Files pm) tree) \<or>
        (mf_Files m = tree \<and> manifest_ok kind repo m \<and> mf_CommitSHA m = sha \<and>
         write_commit r route now kind repo revision (co_Summary ops) p tree w1 = (Ok sha, w'))"
    and keep: "\<forall>old m0. IsCommitSHA old \<longrightarrow> old \<noteq> sha \<longrightarrow> bk_GetManifest b kind repo old w = Ok m0 \<longrightarrow>
       bk_GetManifest b kind repo old w' = Ok m0"
      "\<forall>d c. digestPattern d \<longrightarrow> bk_OpenBlob b kind repo d w1 = Ok c \<longrightarrow> bk_OpenBlob b kind repo d w' = Ok c"
    by (rule commit_result [OF run route good hashes parent])
  note t = apply_ops_tree [OF a]
  show "good w'" "bk_ResolveRef b kind repo revision w' = Ok sha" by (fact res)+
  show "bk_GetManifest b kind repo old w' = Ok m0"
    if "IsCommitSHA old" "old \<noteq> sha" "bk_GetManifest b kind repo old w = Ok m0"
    using keep(1) that by simp
  show "bk_OpenBlob b kind repo d w' = Ok c" if "digestPattern d" "bk_OpenBlob b kind repo d w = Ok c"
    using keep(2) that(1) store_keepsD(3) [OF ap(2) that] by simp
  have stored: "\<exists>c. bk_OpenBlob b kind repo (fe_Digest f) w' = Ok c \<and> content_ok (fe_Digest f) c"
    if "f \<in> set (mf_Files m)" "f \<notin> set (mf_Files pm)" for f
  proof -
    have "f \<in> set tree" using that res(4) by auto
    from commit_entries_stored [OF a good hashes lfs this that(2)] obtain c
      where c: "digestPattern (fe_Digest f)" "bk_OpenBlob b kind repo (fe_Digest f) w1 = Ok c" by blast
    then have "bk_OpenBlob b kind repo (fe_Digest f) w' = Ok c" using keep(2) by simp
    with open_content [OF res(1) c(1)] show ?thesis by blast
  qed
  have ids: "map entry_id (mf_Files m) = map entry_id tree" using res(4) by (auto simp: sameTree_iff)
  have paths: "map fe_Path (mf_Files m) = map fe_Path tree"
    using arg_cong [OF ids, of "map fst"] by (simp add: comp_def entry_id_def)
  with stored t(1,2) tree_of_entry_id [OF ids] res(3) show
    "\<exists>m. bk_GetManifest b kind repo sha w' = Ok m \<and> sorted_wrt (<) (map fe_Path (mf_Files m)) \<and>
       (\<forall>path. map_option entry_id (tree_of (mf_Files m) path) =
               map_option entry_id (commit_tree r ops (tree_of (mf_Files pm)) path)) \<and>
       (\<forall>f \<in> set (mf_Files m). f \<notin> set (mf_Files pm) \<longrightarrow>
          (\<exists>c. bk_OpenBlob b kind repo (fe_Digest f) w' = Ok c \<and> content_ok (fe_Digest f) c))"
    by (intro exI [of _ m]) simp
qed

text \<open>Storing again what is stored changes nothing.\<close>

lemma put_inline_again:
  "good w \<Longrightarrow> relay_hashes r \<Longrightarrow>
     \<forall>f \<in> set fs. \<exists>c. bk_OpenBlob b kind repo (SHA256_of r (cf_Content f)) w = Ok c \<Longrightarrow>
     \<exists>files'. put_inline r b kind repo fs files w = (Ok files', w)"
proof (induction fs arbitrary: files)
  case Nil
  then show ?case by simp
next
  case (Cons f fs)
  then obtain c where "bk_OpenBlob b kind repo (SHA256_of r (cf_Content f)) w = Ok c" by auto
  from put_blob_again [OF Cons.prems(1) digest_of_content [OF Cons.prems(2)] this] Cons show ?case by simp
qed

lemma link_lfs_again:
  "\<forall>f \<in> set fs. \<exists>i. bk_StatBlob b kind repo (SHA256Digest (cl_OID f)) w = Ok i \<Longrightarrow>
     \<exists>files'. link_lfs r b kind repo w fs files missing = Ok (files', missing)"
proof (induction fs arbitrary: files)
  case (Cons f fs)
  from Cons.prems obtain i where "bk_StatBlob b kind repo (SHA256Digest (cl_OID f)) w = Ok i" by auto
  with Cons show ?case by simp
qed simp

lemma commit_retry:
  assumes run: "Commit r now kind repo revision ops w = (Ok sha, w')"
    and route: "rl_route r repo = Some route" "rt_Primary route = b"
    and good: "good w" and hashes: "relay_hashes r"
    and lfs: "\<forall>f \<in> set (co_LFSFiles ops). digestPattern (SHA256Digest (cl_OID f))"
  shows "co_ParentCommit ops = [] \<Longrightarrow> Commit r now' kind repo revision ops w' = (Ok sha, w')"
    and "co_ParentCommit ops \<noteq> [] \<Longrightarrow> sha \<noteq> co_ParentCommit ops \<Longrightarrow>
      Commit r now' kind repo revision ops w' = (Err (RlParentMismatch sha (co_ParentCommit ops)), w')"
proof -
  obtain p pm where parent: "bk_ResolveRef b kind repo revision w = Ok p" "bk_GetManifest b kind repo p w = Ok pm"
    by (rule Commit_Ok_cases [OF run]) (use route in auto)
  obtain tree w1 m where rev: "\<not> IsCommitSHA revision"
    and a: "apply_ops r b kind repo ops (mf_Files pm) w = (Ok tree, w1)"
    and ap: "good w1" "store_keeps b kind repo w w1"
    and res: "good w'" "bk_ResolveRef b kind repo revision w' = Ok sha"
      "bk_GetManifest b kind repo sha w' = Ok m"
      "(sha = p \<and> w' = w1 \<and> m = pm \<and> sameTree (mf_Files pm) tree) \<or>
        (mf_Files m = tree \<and> manifest_ok kind repo m \<and> mf_CommitSHA m = sha \<and>
         write_commit r route now kind repo revision (co_Summary ops) p tree w1 = (Ok sha, w'))"
    and "\<forall>old m0. IsCommitSHA old \<longrightarrow> old \<noteq> sha \<longrightarrow> bk_GetManifest b kind repo old w = Ok m0 \<longrightarrow>
       bk_GetManifest b kind repo old w' = Ok m0"
    and keep: "\<forall>d c. digestPattern d \<longrightarrow> bk_OpenBlob b kind repo d w1 = Ok c \<longrightarrow> bk_OpenBlob b kind repo d w' = Ok c"
    by (rule commit_result [OF run route good hashes parent])
  note t = apply_ops_tree [OF a]
  have inline: "\<forall>f \<in> set (co_Files ops). \<exists>c. bk_OpenBlob b kind repo (SHA256_of r (cf_Content f)) w' = Ok c"
    using apply_ops_props(3) [OF a good hashes refl] keep digest_of_content [OF hashes] by blast
  have stats: "\<exists>i. bk_StatBlob b kind repo (SHA256Digest (cl_OID f)) w' = Ok i" if "f \<in> set (co_LFSFiles ops)" for f
  proof -
    have d: "digestPattern (SHA256Digest (cl_OID f))" using lfs that by simp
    from t(3) that stat_iff_open [OF ap(1) d] keep d stat_iff_open [OF res(1) d] show ?thesis by blast
  qed
  obtain tree' where a': "apply_ops r b kind repo ops (mf_Files m) w' = (Ok tree', w')"
  proof -
    let ?base = "delete_folders (co_DeletedFolders ops) (delete_files (co_DeletedFiles ops) (parent_map (mf_Files m)))"
    obtain files where f: "put_inline r b kind repo (co_Files ops) ?base w' = (Ok files, w')"
      using put_inline_again [OF res(1) hashes inline] by blast
    obtain files' where "link_lfs r b kind repo w' (co_LFSFiles ops) files [] = Ok (files', [])"
      using link_lfs_again stats by blast
    with f that show thesis by (simp add: apply_ops_def)
  qed
  note t' = apply_ops_tree [OF a']
  have "sameTree (mf_Files m) tree'"
    using res(4)
  proof
    assume s: "sha = p \<and> w' = w1 \<and> m = pm \<and> sameTree (mf_Files pm) tree"
    then have "tree' = tree" using t t' by (intro sorted_tree_unique) simp_all
    with s show ?thesis by simp
  next
    assume "mf_Files m = tree \<and> manifest_ok kind repo m \<and> mf_CommitSHA m = sha \<and>
        write_commit r route now kind repo revision (co_Summary ops) p tree w1 = (Ok sha, w')"
    then have s: "mf_Files m = tree" by simp
    then have "tree' = tree" using t t' by (intro sorted_tree_unique) (simp_all add: commit_tree_idem)
    with s show ?thesis by (simp add: sameTree_iff)
  qed
  then show "co_ParentCommit ops = [] \<Longrightarrow> Commit r now' kind repo revision ops w' = (Ok sha, w')"
    using rev route res(2,3) a' by (simp add: Commit_def)
  show "co_ParentCommit ops \<noteq> [] \<Longrightarrow> sha \<noteq> co_ParentCommit ops \<Longrightarrow>
      Commit r now' kind repo revision ops w' = (Err (RlParentMismatch sha (co_ParentCommit ops)), w')"
    using rev route res(2) by (simp add: Commit_def)
qed

end

section \<open>Rejected commits, new repositories\<close>

lemma link_lfs_missing:
  "link_lfs r bk kind repo w fs files missing = Ok (files', missing') \<Longrightarrow>
     missing' = missing @ map cl_Path
       (filter (\<lambda>f. \<exists>e. bk_StatBlob bk kind repo (SHA256Digest (cl_OID f)) w = Err e) fs)"
proof (induction fs arbitrary: files missing)
  case (Cons f fs)
  show ?case
  proof (cases "bk_StatBlob bk kind repo (SHA256Digest (cl_OID f)) w")
    case (Err e)
    with Cons.prems have "link_lfs r bk kind repo w fs files (missing @ [cl_Path f]) = Ok (files', missing')" by simp
    from Cons.IH [OF this] Err show ?thesis by simp
  qed (use Cons in \<open>auto\<close>)
qed simp

lemma Commit_Err_cases:
  assumes "Commit r now kind repo revision ops w = (Err e, w')" "rl_route r repo = Some route"
  shows "(w' = w \<and> (\<forall>ps. e \<noteq> RlLFSBlobMissing ps) \<and>
          (\<forall>p q. e = RlParentMismatch p q \<longrightarrow>
             bk_ResolveRef (rt_Primary route) kind repo revision w = Ok p \<and> q = co_ParentCommit ops \<and> q \<noteq> p)) \<or>
         (\<exists>parent. apply_ops r (rt_Primary route) kind repo ops parent w = (Err e, w')) \<or> (\<exists>x. e = RlCommit x)"
  using assms unfolding Commit_def write_commit_def Let_def mapBackendErr_def
  by (auto split: if_splits res.splits prod.splits backend_error.splits)

lemma put_inline_Err:
  "put_inline r bk kind repo fs files w = (Err e, w') \<Longrightarrow> \<exists>p x. e = RlInline p x"
  by (induction fs arbitrary: files w) (auto split: prod.splits res.splits)

lemma link_lfs_no_Err: "link_lfs r bk kind repo w fs files missing \<noteq> Err x"
proof (induction fs arbitrary: files missing)
  case (Cons f fs)
  then show ?case by (cases "bk_StatBlob bk kind repo (SHA256Digest (cl_OID f)) w") simp_all
qed simp

lemma apply_ops_Err:
  assumes "apply_ops r bk kind repo ops parent w = (Err e, w')"
  shows "(\<exists>p x. e = RlInline p x) \<or> (\<exists>ps. e = RlLFSBlobMissing ps \<and> ps \<noteq> [] \<and> ps = map cl_Path
      (filter (\<lambda>f. \<exists>e. bk_StatBlob bk kind repo (SHA256Digest (cl_OID f)) w' = Err e) (co_LFSFiles ops)))"
  using assms unfolding apply_ops_def
  by (auto simp: link_lfs_no_Err split: prod.splits res.splits if_splits
      dest!: link_lfs_missing put_inline_Err)

context relay_store begin

lemma commit_rejected:
  assumes run: "Commit r now kind repo revision ops w = (Err e, w')"
    and route: "rl_route r repo = Some route" "rt_Primary route = b"
    and good: "good w" and hashes: "relay_hashes r"
  shows "(\<And>x. e \<noteq> RlCommit x) \<Longrightarrow> good w' \<and> store_keeps b kind repo w w'"
    and "e = RlParentMismatch p q \<Longrightarrow>
      w' = w \<and> bk_ResolveRef b kind repo revision w = Ok p \<and> q = co_ParentCommit ops \<and> q \<noteq> p"
    and "e = RlLFSBlobMissing ps \<Longrightarrow> ps \<noteq> [] \<and> ps = map cl_Path
      (filter (\<lambda>f. \<exists>e. bk_StatBlob b kind repo (SHA256Digest (cl_OID f)) w' = Err e) (co_LFSFiles ops))"
proof -
  from Commit_Err_cases [OF run route(1)]
  consider (early) "w' = w" "\<forall>ps. e \<noteq> RlLFSBlobMissing ps"
      "\<forall>p q. e = RlParentMismatch p q \<longrightarrow>
         bk_ResolveRef b kind repo revision w = Ok p \<and> q = co_ParentCommit ops \<and> q \<noteq> p"
    | (ops) parent where "apply_ops r b kind repo ops parent w = (Err e, w')"
    | (late) x where "e = RlCommit x"
    unfolding route(2) by blast
  note cases = this and err = apply_ops_Err
  show "good w' \<and> store_keeps b kind repo w w'" if no: "\<And>x. e \<noteq> RlCommit x"
    using cases
  proof cases
    case early
    with good show ?thesis by simp
  next
    case (ops parent)
    with apply_ops_props(1,2) [OF ops good hashes] show ?thesis by simp
  next
    case (late x)
    with no show ?thesis by blast
  qed
  show "w' = w \<and> bk_ResolveRef b kind repo revision w = Ok p \<and> q = co_ParentCommit ops \<and> q \<noteq> p"
    if "e = RlParentMismatch p q" using cases that err by cases fastforce+
  show "ps \<noteq> [] \<and> ps = map cl_Path
      (filter (\<lambda>f. \<exists>e. bk_StatBlob b kind repo (SHA256Digest (cl_OID f)) w' = Err e) (co_LFSFiles ops))"
    if "e = RlLFSBlobMissing ps" using cases that err by cases fastforce+
qed

lemma create_readable:
  assumes run: "Relay_CreateRepo r now kind repo w = (Ok (), w')"
    and route: "rl_route r repo = Some route" "rt_Primary route = b"
    and good: "good w" and hashes: "relay_hashes r"
  shows "good w'" "\<exists>m. localManifest b kind repo DefaultRevision w' = Ok m \<and> mf_Files m = [] \<and>
      bk_ResolveRef b kind repo DefaultRevision w' = Ok (mf_CommitSHA m)"
proof -
  let ?sha = "mintCommitSHA r [] [] (''init:'' @ kind_string kind @ '':'' @ repo_string repo)"
  let ?m = "\<lparr>mf_Repo = repo, mf_Kind = kind, mf_CommitSHA = ?sha, mf_FetchedAt = now, mf_CreatedAt = now,
             mf_Files = []\<rparr>"
  have ok: "manifest_ok kind repo ?m" "distinct (map fst [(DefaultRevision, ?sha)])"
    by (simp_all add: manifest_ok_def)
  have nc: "\<not> IsCommitSHA DefaultRevision" by code_simp
  obtain w1 w2 where c: "bk_CreateRepo b kind repo w = (Ok (), w1)"
    and pm: "bk_PutManifest b ?m [(DefaultRevision, ?sha)] w1 = (Ok (), w2)"
    and w': "w' = fanOutCommit r kind repo route ?sha [(DefaultRevision, ?sha)] w2"
    using run route unfolding Relay_CreateRepo_def Let_def by (auto split: res.splits prod.splits)
  note g1 = create_good [OF good c]
  note put = put_manifest_good [OF g1 ok pm] put_manifest_stored [OF g1 ok pm TrueI] put_manifest_refs [OF g1 ok pm _ nc]
  have keeps: "store_keeps b kind repo w2 w'" unfolding w' by (rule fan_out_props(2) [OF put(1)])
  show "good w'" unfolding w' by (rule fan_out_props(1) [OF put(1)])
  have "bk_ResolveRef b kind repo DefaultRevision w' = Ok ?sha"
    by (rule store_keepsD(1) [OF keeps put(3)]) simp
  moreover have "IsCommitSHA ?sha" using hashes by (simp add: relay_hashes_def mintCommitSHA_def)
  then have "bk_GetManifest b kind repo ?sha w' = Ok ?m"
    using store_keepsD(2) [OF keeps] put(2) by simp
  ultimately show "\<exists>m. localManifest b kind repo DefaultRevision w' = Ok m \<and> mf_Files m = [] \<and>
      bk_ResolveRef b kind repo DefaultRevision w' = Ok (mf_CommitSHA m)"
    by (intro exI [of _ ?m]) (simp add: localManifest_def)
qed

end

end
