(* ===== verification/Relay_Read.thy ===== *)
theory Relay_Read
  imports Relay_Contract
begin

text \<open>
  The read path of the relay on a backend that keeps the storage contract: the
  world and the manifest that \<open>EnsureEntry\<close>, \<open>fetchBlob\<close> and \<open>OpenFile\<close> leave.
\<close>

lemma up_call_world: "up_call http rq w = (x, w') \<Longrightarrow> \<exists>y. http rq w = (y, w')"
  by (auto simp: up_call_def split: prod.splits res.splits option.splits)

lemma upstream_worlds:
  "StatFile http v c kind repo revision p token w = (x, w') \<Longrightarrow> \<exists>rq y. http rq w = (y, w')"
  "Upstream_OpenFile http v c kind repo revision p token w = (x', w') \<Longrightarrow> \<exists>rq y. http rq w = (y, w')"
  by (auto simp: StatFile_def Upstream_OpenFile_def split: prod.splits dest!: up_call_world)

text \<open>An update through an entry pointer keeps the entry's place and path.\<close>

definition same_place :: "Manifest \<Rightarrow> nat \<Rightarrow> Manifest \<Rightarrow> bool" where
  "same_place m i m' \<longleftrightarrow>
     mf_Repo m' = mf_Repo m \<and> mf_Kind m' = mf_Kind m \<and> mf_CommitSHA m' = mf_CommitSHA m \<and>
     map fe_Path (mf_Files m') = map fe_Path (mf_Files m) \<and> (\<forall>j. j \<noteq> i \<longrightarrow> mf_Files m' ! j = mf_Files m ! j)"

lemma same_place_refl [simp]: "same_place m i m"
  by (simp add: same_place_def)

lemma same_place_trans: "same_place m i m1 \<Longrightarrow> same_place m1 i m2 \<Longrightarrow> same_place m i m2"
  by (simp add: same_place_def)

lemma same_place_set_entry:
  "fe_Path f = fe_Path (mf_Files m ! i) \<Longrightarrow> i < length (mf_Files m) \<Longrightarrow> same_place m i (set_entry m i f)"
  by (auto simp: same_place_def set_entry_def map_update intro: list_update_same_conv [THEN iffD2])

lemma same_place_ok: "same_place m i m' \<Longrightarrow> manifest_ok kind repo m \<Longrightarrow> manifest_ok kind repo m'"
  by (simp add: same_place_def manifest_ok_def)

lemma same_place_length: "same_place m i m' \<Longrightarrow> length (mf_Files m') = length (mf_Files m)"
  unfolding same_place_def by (metis length_map)

lemma same_place_path:
  "same_place m i m' \<Longrightarrow> i < length (mf_Files m) \<Longrightarrow> fe_Path (mf_Files m' ! i) = fe_Path (mf_Files m ! i)"
  using same_place_length [of m i m'] unfolding same_place_def by (metis nth_map)

context relay_store begin

lemma put_same_commit:
  assumes "bk_PutManifest b m [] w = (x, w')" "good w" "manifest_ok kind repo m"
  shows "good w'" "digestPattern d \<Longrightarrow> bk_OpenBlob b kind repo d w = Ok c \<Longrightarrow> bk_OpenBlob b kind repo d w' = Ok c"
  using put_manifest_good [OF assms(2,3) _ assms(1)] put_manifest_blobs [OF assms(2,3) _ assms(1)] by simp_all

lemma backfill_props:
  assumes "backfillDigest r b kind repo m i token w = (x, m', w')" "good w" "manifest_ok kind repo m"
    and "i < length (mf_Files m)"
  shows "good w' \<and> same_place m i m'"
proof (cases "rl_upstream r")
  case None
  with assms show ?thesis by (simp add: backfillDigest_def)
next
  case (Some u)
  let ?f = "mf_Files m ! i"
  obtain y w1 where st: "StatFile (uc_http u) (uc_version u) (uc_client u) kind repo (mf_CommitSHA m) (fe_Path ?f) token w = (y, w1)"
    by fastforce
  have g1: "good w1" using upstream_worlds(1) [OF st] quiet_http [OF assms(2) Some] by blast
  have put: "good w2 \<and> same_place m i (set_entry m i f')"
    if "bk_PutManifest b (set_entry m i f') [] w1 = (z, w2)" "fe_Path f' = fe_Path ?f" for f' z w2
    using put_same_commit(1) [OF that(1) g1] same_place_set_entry [OF that(2) assms(4)]
      same_place_ok [OF _ assms(3)] by blast
  show ?thesis
    using assms(1) st g1 put unfolding backfillDigest_def Some Let_def
    by (auto split: res.splits prod.splits if_splits option.splits)
qed

lemma ensure_props:
  assumes "EnsureEntry r kind repo m p token w = (x, m', w')" "good w" "manifest_ok kind repo m"
    and "rl_route r repo = Some route" "rt_Primary route = b"
  shows "good w' \<and> (\<forall>i. x = Ok i \<longrightarrow> Manifest_File m p = Some i \<and> same_place m i m')"
  using assms backfill_props [OF _ assms(2,3)] unfolding EnsureEntry_def
  by (auto split: option.splits if_splits prod.splits res.splits dest: Manifest_File_Some)

lemma store_regular_props:
  assumes "storeRegularBlob r b kind repo m i body w = (x, m', w')" "good w" "manifest_ok kind repo m"
    and "i < length (mf_Files m)" "relay_hashes r"
  shows "good w' \<and> same_place m i m'"
proof -
  let ?f = "mf_Files m ! i" and ?c = "take (maxRegularFileSize + 1) body"
  obtain y w1 where p: "bk_PutBlob b kind repo (SHA256_of r ?c) ?c (int (length ?c)) w = (y, w1)" by fastforce
  have g1: "good w1" by (rule put_blob_props(1) [OF p assms(2) digest_of_content [OF assms(5)]])
  have put: "good w2 \<and> same_place m i (set_entry m i f')"
    if "bk_PutManifest b (set_entry m i f') [] w1 = (z, w2)" "fe_Path f' = fe_Path ?f" for f' z w2
    using put_same_commit(1) [OF that(1) g1] same_place_set_entry [OF that(2) assms(4)]
      same_place_ok [OF _ assms(3)] by blast
  show ?thesis
    using assms(1,2) p g1 put unfolding storeRegularBlob_def Let_def
    by (auto split: res.splits prod.splits if_splits)
qed

lemma fetch_props:
  assumes "fetchBlob joined r u b kind repo m i token w = (x, m', w')" "good w" "manifest_ok kind repo m"
    and "rl_upstream r = Some u" "i < length (mf_Files m)" "relay_hashes r"
    and "digestPattern (fe_Digest (mf_Files m' ! i))"
  shows "good w' \<and> same_place m i m'"
proof (cases joined)
  case (Some v)
  with assms show ?thesis by (simp add: fetchBlob_def)
next
  case None
  let ?f = "mf_Files m ! i"
  obtain y w1 where op: "Upstream_OpenFile (uc_http u) (uc_version u) (uc_client u) kind repo (mf_CommitSHA m) (fe_Path ?f) token w = (y, w1)"
    by fastforce
  have g1: "good w1" using upstream_worlds(2) [OF op] quiet_http [OF assms(2,4)] by blast
  have body: "fetch_blob_body r u b kind repo m i token w = (x, m', w')"
    using assms(1) by (simp add: fetchBlob_def None)
  show ?thesis
  proof (cases "\<exists>b' meta. y = Ok (b', meta)")
    case True
    then obtain b' meta where y: "y = Ok (b', meta)" by blast
    show ?thesis
    proof (cases "Digest_Algo (fe_Digest ?f) = ''sha1''")
      case True
      obtain z m2 w2 where z: "storeRegularBlob r b kind repo m i b' w1 = (z, m2, w2)"
        using prod_cases3 by blast
      have "w' = w2 \<and> m' = m2"
        using body op y z True unfolding fetch_blob_body_def Let_def
        by (cases z) simp_all
      with store_regular_props [OF z g1 assms(3,5,6)] show ?thesis by simp
    next
      case False
      let ?n = "if 0 < mt_Size meta then mt_Size meta else fe_Size ?f"
      obtain z w2 where z: "bk_PutBlob b kind repo (fe_Digest ?f) b' ?n w1 = (z, w2)" by fastforce
      have "w' = w2 \<and> m' = m"
        using body op y z False unfolding fetch_blob_body_def Let_def
        by (cases z) simp_all
      with put_blob_props(1) [OF z g1] assms(7) show ?thesis by simp
    qed
  next
    case False
    then show ?thesis
      using body op g1 unfolding fetch_blob_body_def Let_def by (auto split: res.splits prod.splits)
  qed
qed

lemma open_verified:
  assumes run: "Relay_OpenFile joined r kind repo m p token w = (Ok (c, i, src), m', w')"
    and route: "rl_route r repo = Some route" "rt_Primary route = b"
    and good: "good w" and hashes: "relay_hashes r" and m: "manifest_ok kind repo m"
    and d: "digestPattern (fe_Digest (mf_Files m' ! i))"
  shows "good w'" "Manifest_File m p = Some i" "same_place m i m'"
    "bk_OpenBlob b kind repo (fe_Digest (mf_Files m' ! i)) w' = Ok c"
    "content_ok (fe_Digest (mf_Files m' ! i)) c"
proof -
  obtain y m1 w1 where e: "EnsureEntry r kind repo m p token w = (y, m1, w1)" using prod_cases3 by blast
  have y: "y = Ok i"
    using run route e unfolding Relay_OpenFile_def Let_def
    by (auto split: res.splits prod.splits option.splits)
  from ensure_props [OF e good m route] y
  have g1: "good w1" and i: "Manifest_File m p = Some i" "same_place m i m1" by simp_all
  have len: "i < length (mf_Files m1)"
    using Manifest_File_Some [OF i(1)] same_place_length [OF i(2)] by simp
  have "good w' \<and> same_place m1 i m' \<and> bk_OpenBlob b kind repo (fe_Digest (mf_Files m' ! i)) w' = Ok c"
  proof (cases "\<exists>c'. bk_OpenBlob b kind repo (fe_Digest (mf_Files m1 ! i)) w1 = Ok c'")
    case True
    with run route e y g1 show ?thesis
      unfolding Relay_OpenFile_def Let_def by (auto split: res.splits)
  next
    case False
    then obtain u where u: "rl_upstream r = Some u"
      and f: "fetchBlob joined r u b kind repo m1 i token w1 = (Ok (), m', w')"
      and o: "bk_OpenBlob b kind repo (fe_Digest (mf_Files m' ! i)) w' = Ok c"
      using run route e y unfolding Relay_OpenFile_def Let_def
      by (auto split: res.splits prod.splits option.splits)
    from fetch_props [OF f g1 same_place_ok [OF i(2) m] u len hashes d] o show ?thesis by simp
  qed
  then show g: "good w'" and o: "bk_OpenBlob b kind repo (fe_Digest (mf_Files m' ! i)) w' = Ok c"
    and "same_place m i m'" using same_place_trans [OF i(2)] by simp_all
  show "Manifest_File m p = Some i" by (rule i(1))
  show "content_ok (fe_Digest (mf_Files m' ! i)) c" by (rule open_content [OF g d o])
qed

end

text \<open>What the leader and a joining request of one fetch of a regular file return.\<close>

lemma leader_stores:
  assumes "Relay_OpenFile None r kind repo m p token w = (Ok (c, i, SourceUpstream), m', w')"
    and "rl_route r repo = Some route"
  shows "bk_OpenBlob (rt_Primary route) kind repo (fe_Digest (mf_Files m' ! i)) w' = Ok c"
  using assms unfolding Relay_OpenFile_def Let_def
  by (auto split: res.splits prod.splits option.splits)

lemma follower_reopens:
  assumes "rl_route r repo = Some route" "rl_upstream r = Some u" "Manifest_File m p = Some i"
    and "\<not> Digest_IsZero (fe_Digest (mf_Files m ! i))"
    and "bk_OpenBlob (rt_Primary route) kind repo (fe_Digest (mf_Files m ! i)) w = Err e"
  shows "Relay_OpenFile (Some (Ok ())) r kind repo m p token w =
    (Err (RlVanished (fe_Digest (mf_Files m ! i)) e), m, w)"
  using assms by (simp add: Relay_OpenFile_def EnsureEntry_def fetchBlob_def)

end
