(* ===== verification/Relay_Fs.thy ===== *)
theory Relay_Fs
  imports Relay_Read Replication_Fs
begin

text \<open>
  The relay over filesystem backends: the world is the trees of all backends
  next to the rest (the replication queue, the upstream). The locale of
  \<open>Relay_Contract\<close> is interpreted here, and the properties of commits, new
  repositories and reads are stated over the functions of the code.
\<close>

section \<open>A world of trees and the rest\<close>

type_synonym 'x world = "(string \<Rightarrow> tree) \<times> 'x"

definition on_fst :: "('s \<Rightarrow> 'a \<times> 's) \<Rightarrow> 's \<times> 'x \<Rightarrow> 'a \<times> ('s \<times> 'x)" where
  "on_fst f w = (case f (fst w) of (a, s) \<Rightarrow> (a, (s, snd w)))"

definition on_snd :: "('x \<Rightarrow> 'a \<times> 'x) \<Rightarrow> 's \<times> 'x \<Rightarrow> 'a \<times> ('s \<times> 'x)" where
  "on_snd f w = (case f (snd w) of (a, x) \<Rightarrow> (a, (fst w, x)))"

definition fst_backend :: "'s Backend \<Rightarrow> ('s \<times> 'x) Backend" where
  "fst_backend b =
     \<lparr>bk_Name = bk_Name b,
      bk_CreateRepo = (\<lambda>k r. on_fst (bk_CreateRepo b k r)),
      bk_DeleteRepo = (\<lambda>k r. on_fst (bk_DeleteRepo b k r)),
      bk_ResolveRef = (\<lambda>k r ref w. bk_ResolveRef b k r ref (fst w)),
      bk_GetManifest = (\<lambda>k r sha w. bk_GetManifest b k r sha (fst w)),
      bk_PutManifest = (\<lambda>m refs. on_fst (bk_PutManifest b m refs)),
      bk_StatBlob = (\<lambda>k r d w. bk_StatBlob b k r d (fst w)),
      bk_OpenBlob = (\<lambda>k r d w. bk_OpenBlob b k r d (fst w)),
      bk_PutBlob = (\<lambda>k r d c sz. on_fst (bk_PutBlob b k r d c sz)),
      bk_Ping = (\<lambda>w. bk_Ping b (fst w))\<rparr>"

lemma on_fst_eq_iff: "on_fst f w = (r, w') \<longleftrightarrow> (\<exists>s. f (fst w) = (r, s) \<and> w' = (s, snd w))"
  by (auto simp: on_fst_def split: prod.splits)

lemma on_snd_eq_iff: "on_snd f w = (r, w') \<longleftrightarrow> (\<exists>x. f (snd w) = (r, x) \<and> w' = (fst w, x))"
  by (auto simp: on_snd_def split: prod.splits)

lemma fst_backend_contract:
  assumes "backend_contract b kind repo good content_ok fits"
  shows "backend_contract (fst_backend b) kind repo (\<lambda>w. good (fst w)) content_ok fits"
proof -
  note laws = backend_contract.create_good [OF assms] backend_contract.resolve_commit [OF assms]
    backend_contract.put_blob_good [OF assms] backend_contract.put_blob_stored [OF assms]
    backend_contract.put_blob_keeps [OF assms] backend_contract.put_blob_manifests [OF assms]
    backend_contract.put_blob_refs [OF assms] backend_contract.put_manifest_good [OF assms]
    backend_contract.put_manifest_stored [OF assms] backend_contract.put_manifest_refs [OF assms]
    backend_contract.put_manifest_blobs [OF assms] backend_contract.put_manifest_others [OF assms]
    backend_contract.open_content [OF assms]
  show ?thesis
    by unfold_locales
      (auto simp: fst_backend_def on_fst_eq_iff backend_contract.stat_iff_open [OF assms]
        backend_contract.put_blob_again [OF assms] intro: laws)
qed

definition world_backend :: "string \<Rightarrow> fs_backend \<Rightarrow> 'x world Backend" where
  "world_backend i b = fst_backend (lift_backend i (Fsbackend b))"

text \<open>
  A relay whose queue and upstream \<open>r\<close> act on the rest of the world, with routes
  to backends on the whole of it.
\<close>

definition world_relay :: "'x world Route list \<Rightarrow> 'x Relay \<Rightarrow> 'x world Relay" where
  "world_relay routes r =
     \<lparr>rl_routes = routes, rl_glob = rl_glob r,
      rl_upstream = map_option (\<lambda>u. \<lparr>uc_http = (\<lambda>rq. on_snd (uc_http u rq)), uc_version = uc_version u,
                                     uc_client = uc_client u, uc_decode = uc_decode u\<rparr>) (rl_upstream r),
      rl_refreshInterval = rl_refreshInterval r, rl_metrics = rl_metrics r,
      rl_replicator = map_option
        (\<lambda>rp. \<lparr>rp_EnqueueCommit = (\<lambda>k i src sha refs ts. on_snd (rp_EnqueueCommit rp k i src sha refs ts)),
               rp_EnqueueDeleteRepo = (\<lambda>k i src ts. on_snd (rp_EnqueueDeleteRepo rp k i src ts))\<rparr>)
        (rl_replicator r),
      rl_sha1hex = rl_sha1hex r, rl_sha256hex = rl_sha256hex r\<rparr>"

lemma world_backend_reads [simp]:
  "bk_ResolveRef (world_backend i b) k r ref w = fs_ResolveRef b k r ref (fst w i)"
  "bk_GetManifest (world_backend i b) k r sha w = fs_GetManifest b k r sha (fst w i)"
  "bk_StatBlob (world_backend i b) k r d w = fs_StatBlob b k r d (fst w i)"
  "bk_OpenBlob (world_backend i b) k r d w = fs_OpenBlob b k r d (fst w i)"
  "bk_Name (world_backend i b) = fb_name b"
  by (simp_all add: world_backend_def fst_backend_def lift_backend_def Fsbackend_def)

lemma store_keeps_fst: "fst w' = fst w \<Longrightarrow> store_keeps (world_backend i b) k r w w'"
  by (simp add: store_keeps_def)

interpretation fs_relay: relay_store "world_backend i b" kind repo
  "\<lambda>w. fs_good b kind repo (fst w i)" "\<lambda>d. blob_ok (fb_env b) (Digest_Hex d)" "world_relay routes r"
  for i b kind repo routes r
proof (rule relay_store.intro)
  show "backend_contract (world_backend i b) kind repo (\<lambda>w. fs_good b kind repo (fst w i))
      (\<lambda>d. blob_ok (fb_env b) (Digest_Hex d)) (\<lambda>_. True)"
    unfolding world_backend_def
    using fst_backend_contract [OF lifted_fs.backend_contract_axioms, of i b kind repo] by simp
  show "relay_store_axioms (world_backend i b) kind repo (\<lambda>w. fs_good b kind repo (fst w i))
      (world_relay routes r)"
    by unfold_locales
      (auto simp: world_relay_def on_snd_eq_iff intro: store_keeps_fst)
qed

lemma world_relay_route:
  "rl_route (world_relay routes r) repo = Router_For (rl_glob r) routes (repo_string repo)"
  by (simp add: rl_route_def world_relay_def)

lemma world_relay_hashes: "relay_hashes (world_relay routes r) \<longleftrightarrow> relay_hashes r"
  by (simp add: relay_hashes_def world_relay_def)

section \<open>Commits\<close>

text \<open>
  A commit that returns a commit id has published it: the branch resolves to
  the id; the manifest behind it lists strictly sorted paths, and for every path
  the digest and size of the tree the request describes (the parent's tree
  without the deleted files and folders, overridden by the inline files,
  overridden by the LFS files); every file that is not the parent's opens with
  content that matches its digest; all older commits and all blobs read as
  before.
\<close>

theorem Commit_publishes:
  assumes "Commit (world_relay routes r) now kind repo revision ops w = (Ok sha, w')"
    and "Router_For (rl_glob r) routes (repo_string repo) = Some route"
    and "rt_Primary route = world_backend i b" and "relay_hashes r"
    and "fs_good b kind repo (fst w i)"
    and "\<forall>f \<in> set (co_LFSFiles ops). digestPattern (SHA256Digest (cl_OID f))"
    and "fs_ResolveRef b kind repo revision (fst w i) = Ok p"
    and "fs_GetManifest b kind repo p (fst w i) = Ok parent"
  shows "fs_ResolveRef b kind repo revision (fst w' i) = Ok sha \<and>
    (\<exists>m. fs_GetManifest b kind repo sha (fst w' i) = Ok m \<and> sorted_wrt (<) (map fe_Path (mf_Files m)) \<and>
       (\<forall>path. map_option entry_id (tree_of (mf_Files m) path) =
               map_option entry_id (commit_tree (world_relay routes r) ops (tree_of (mf_Files parent)) path)) \<and>
       (\<forall>f \<in> set (mf_Files m). f \<notin> set (mf_Files parent) \<longrightarrow>
          (\<exists>c. fs_OpenBlob b kind repo (fe_Digest f) (fst w' i) = Ok c \<and>
               blob_ok (fb_env b) (Digest_Hex (fe_Digest f)) c))) \<and>
    (\<forall>old m. IsCommitSHA old \<longrightarrow> old \<noteq> sha \<longrightarrow> fs_GetManifest b kind repo old (fst w i) = Ok m \<longrightarrow>
       fs_GetManifest b kind repo old (fst w' i) = Ok m) \<and>
    (\<forall>d c. digestPattern d \<longrightarrow> fs_OpenBlob b kind repo d (fst w i) = Ok c \<longrightarrow>
       fs_OpenBlob b kind repo d (fst w' i) = Ok c)"
proof -
  have "relay_hashes (world_relay routes r)" "rl_route (world_relay routes r) repo = Some route"
    using assms(2,4) by (simp_all add: world_relay_hashes world_relay_route)
  note p = fs_relay.commit_publishes [OF assms(1) this(2) assms(3,5) this(1) assms(6), of p parent,
      unfolded world_backend_reads, OF assms(7,8)]
  show ?thesis
    using p(2-5) by (intro conjI) blast+
qed

text \<open>
  C13. A rejected commit leaves what the branch and the commits serve untouched.
  A commit that expects another parent changes nothing at all and names both
  commits; a commit that refers to LFS blobs that were never uploaded is refused
  with exactly the paths of those files, in order. Only when the final write to
  the backend itself fails does the branch depend on the backend.
\<close>

theorem Commit_rejected:
  assumes "Commit (world_relay routes r) now kind repo revision ops w = (Err e, w')"
    and "Router_For (rl_glob r) routes (repo_string repo) = Some route"
    and "rt_Primary route = world_backend i b" and "relay_hashes r"
    and "fs_good b kind repo (fst w i)"
  shows "((\<forall>x. e \<noteq> RlCommit x) \<longrightarrow> store_keeps (world_backend i b) kind repo w w') \<and>
    (\<forall>p q. e = RlParentMismatch p q \<longrightarrow>
       w' = w \<and> fs_ResolveRef b kind repo revision (fst w i) = Ok p \<and> q = co_ParentCommit ops \<and> q \<noteq> p) \<and>
    (\<forall>ps. e = RlLFSBlobMissing ps \<longrightarrow> ps \<noteq> [] \<and>
       ps = map cl_Path (filter (\<lambda>f. \<exists>x. fs_StatBlob b kind repo (SHA256Digest (cl_OID f)) (fst w' i) = Err x)
                          (co_LFSFiles ops)))"
proof -
  have "relay_hashes (world_relay routes r)" "rl_route (world_relay routes r) repo = Some route"
    using assms(2,4) by (simp_all add: world_relay_hashes world_relay_route)
  note p = fs_relay.commit_rejected [OF assms(1) this(2) assms(3,5) this(1), unfolded world_backend_reads]
  show ?thesis
    using p by (intro conjI allI impI) blast+
qed

text \<open>
  C12. A client that never saw the response of a commit without a parent commit
  and sends it again gets the same commit id, and the second request changes
  nothing: the retry cannot fork or advance the branch.
\<close>

theorem Commit_retry_converges:
  assumes "Commit (world_relay routes r) now kind repo revision ops w = (Ok sha, w')"
    and "Router_For (rl_glob r) routes (repo_string repo) = Some route"
    and "rt_Primary route = world_backend i b" and "relay_hashes r"
    and "fs_good b kind repo (fst w i)"
    and "\<forall>f \<in> set (co_LFSFiles ops). digestPattern (SHA256Digest (cl_OID f))"
    and "co_ParentCommit ops = []"
  shows "Commit (world_relay routes r) now' kind repo revision ops w' = (Ok sha, w')"
proof -
  have "relay_hashes (world_relay routes r)" "rl_route (world_relay routes r) repo = Some route"
    using assms(2,4) by (simp_all add: world_relay_hashes world_relay_route)
  from fs_relay.commit_retry(1) [OF assms(1) this(2) assms(3,5) this(1) assms(6,7)] show ?thesis .
qed

text \<open>
  The same retry is refused when the request names its parent commit: the
  branch has moved to the client's own first commit, so the second request fails
  with a parent mismatch and does not converge.
\<close>

theorem Commit_retry_with_parent:
  assumes "Commit (world_relay routes r) now kind repo revision ops w = (Ok sha, w')"
    and "Router_For (rl_glob r) routes (repo_string repo) = Some route"
    and "rt_Primary route = world_backend i b" and "relay_hashes r"
    and "fs_good b kind repo (fst w i)"
    and "\<forall>f \<in> set (co_LFSFiles ops). digestPattern (SHA256Digest (cl_OID f))"
    and "co_ParentCommit ops \<noteq> []" and "sha \<noteq> co_ParentCommit ops"
  shows "Commit (world_relay routes r) now' kind repo revision ops w' =
    (Err (RlParentMismatch sha (co_ParentCommit ops)), w')"
proof -
  have "relay_hashes (world_relay routes r)" "rl_route (world_relay routes r) repo = Some route"
    using assms(2,4) by (simp_all add: world_relay_hashes world_relay_route)
  from fs_relay.commit_retry(2) [OF assms(1) this(2) assms(3,5) this(1) assms(6-8)] show ?thesis .
qed

text \<open>
  A repository the relay created can be read at once: its main branch
  resolves to the seeded commit, whose manifest is stored and empty.
\<close>

theorem CreateRepo_readable:
  assumes "Relay_CreateRepo (world_relay routes r) now kind repo w = (Ok (), w')"
    and "Router_For (rl_glob r) routes (repo_string repo) = Some route"
    and "rt_Primary route = world_backend i b" and "relay_hashes r"
    and "fs_good b kind repo (fst w i)"
  shows "\<exists>m. localManifest (world_backend i b) kind repo DefaultRevision w' = Ok m \<and> mf_Files m = [] \<and>
    fs_ResolveRef b kind repo DefaultRevision (fst w' i) = Ok (mf_CommitSHA m)"
proof -
  have "relay_hashes (world_relay routes r)" "rl_route (world_relay routes r) repo = Some route"
    using assms(2,4) by (simp_all add: world_relay_hashes world_relay_route)
  from fs_relay.create_readable(2) [OF assms(1) this(2) assms(3,5) this(1)] show ?thesis by simp
qed

section \<open>Reads\<close>



end
