(* ===== verification/Relay_Queue.thy ===== *)
theory Relay_Queue
  imports Relay_Fs Replication_Steps
begin

text \<open>
  A commit through the relay, the replication queue and a replica: the queue of
  \<open>Replication\<close> as the relay's \<open>Replicator\<close> (the wiring of internal/app), and
  what the job it spools leaves on the replica.
\<close>

definition queue_error_text :: "queue_error \<Rightarrow> string" where
  "queue_error_text e =
     (case e of NoSpoolDir \<Rightarrow> ''replication: spool dir is required''
      | SpoolingJob \<Rightarrow> ''replication: spooling job'' | RenamingJob \<Rightarrow> ''replication: spooling job'')"

text \<open>\<open>draw\<close> gives each target the id of its job and the outcome of its persist.\<close>

definition queue_replicator ::
  "'c job_codec \<Rightarrow> int \<Rightarrow> (string \<Rightarrow> string \<times> 'c persist_outcome) \<Rightarrow> ('w, 'c) Queue Replicator" where
  "queue_replicator jc now draw =
     \<lparr>rp_EnqueueCommit = (\<lambda>kind repo src sha refs targets q.
        case EnqueueCommit jc kind repo src sha refs now (map (\<lambda>t. (t, draw t)) targets) q of
          (x, q') \<Rightarrow> (res_map_err queue_error_text x, q')),
      rp_EnqueueDeleteRepo = (\<lambda>kind repo src targets q.
        case EnqueueDeleteRepo jc kind repo src now (map (\<lambda>t. (t, draw t)) targets) q of
          (x, q') \<Rightarrow> (res_map_err queue_error_text x, q'))\<rparr>"

text \<open>The job a commit enqueues for a target.\<close>

definition commit_job ::
  "repo_kind \<Rightarrow> repo_id \<Rightarrow> string \<Rightarrow> string \<Rightarrow> (string \<times> string) list \<Rightarrow> int \<Rightarrow> string \<Rightarrow> string \<Rightarrow> Job" where
  "commit_job kind repo src sha refs now target i = fill_commit sha refs
     \<lparr>job_ID = i, job_Action = [], job_Kind = kind, job_Repo = repo_string repo, job_CommitSHA = [],
      job_Refs = [], job_Source = src, job_Target = target, job_CreatedAt = now, job_Attempts = 0,
      job_LastError = [], job_NextTry = now\<rparr>"

lemma commit_job_fields [simp]:
  "job_ID (commit_job kind repo src sha refs now target i) = i"
  "job_Action (commit_job kind repo src sha refs now target i) = ActionCommit"
  "job_Kind (commit_job kind repo src sha refs now target i) = kind"
  "job_Repo (commit_job kind repo src sha refs now target i) = repo_string repo"
  "job_CommitSHA (commit_job kind repo src sha refs now target i) = sha"
  "job_Refs (commit_job kind repo src sha refs now target i) = refs"
  "job_Source (commit_job kind repo src sha refs now target i) = src"
  "job_Target (commit_job kind repo src sha refs now target i) = target"
  by (simp_all add: commit_job_def fill_commit_def)

lemma enqueue_loop_jobs:
  "list_all (\<lambda>(t, i, out). out = PersistOK) ts \<Longrightarrow> distinct (map (\<lambda>(t, i, out). i) ts) \<Longrightarrow>
     \<exists>q'. enqueue_loop jc kind repo src (fill_commit sha refs) now ts q = (Ok (), q') \<and>
       (\<forall>(t, i, out) \<in> set ts. map_of (q_jobs q') i = Some (commit_job kind repo src sha refs now t i)) \<and>
       (\<forall>i. i \<notin> (\<lambda>(t, i, out). i) ` set ts \<longrightarrow> map_of (q_jobs q') i = map_of (q_jobs q) i)"
proof (induction ts arbitrary: q)
  case Nil
  then show ?case by simp
next
  case (Cons x ts)
  obtain t i out where x: "x = (t, i, out)" by (cases x)
  let ?job = "commit_job kind repo src sha refs now t i"
  have out: "out = PersistOK" using Cons.prems(1) x by simp
  let ?q = "q\<lparr>q_spool := snd (persist jc PersistOK ?job (q_spool q)), q_jobs := AList.update i ?job (q_jobs q)\<rparr>"
  have step: "enqueue_loop jc kind repo src (fill_commit sha refs) now (x # ts) q =
      enqueue_loop jc kind repo src (fill_commit sha refs) now ts ?q"
    by (simp add: x out commit_job_def fill_commit_def persist_def Let_def)
  have "list_all (\<lambda>(t, i, out). out = PersistOK) ts" "distinct (map (\<lambda>(t, i, out). i) ts)"
    using Cons.prems by simp_all
  from Cons.IH [OF this, of ?q] obtain q' where q': "enqueue_loop jc kind repo src (fill_commit sha refs) now ts ?q = (Ok (), q')"
    "\<forall>(t, i, out) \<in> set ts. map_of (q_jobs q') i = Some (commit_job kind repo src sha refs now t i)"
    "\<forall>i. i \<notin> (\<lambda>(t, i, out). i) ` set ts \<longrightarrow> map_of (q_jobs q') i = map_of (q_jobs ?q) i" by blast
  have fresh: "i \<notin> (\<lambda>(t, i, out). i) ` set ts" using Cons.prems(2) x by simp
  then have "map_of (q_jobs q') i = Some ?job" using q'(3) by (simp add: update_conv')
  moreover have "map_of (q_jobs q') j = map_of (q_jobs q) j" if "j \<notin> (\<lambda>(t, i, out). i) ` set (x # ts)" for j
    using that q'(3) by (simp add: x update_conv')
  ultimately show ?case
    unfolding step using q'(1,2) x by (intro exI [of _ q'] conjI) auto
qed

lemma fan_out_jobs:
  assumes "rl_replicator r = Some (queue_replicator jc qnow draw)"
    and "rep \<in> set (rt_Replicas route)"
    and "\<forall>t \<in> set (replica_names route). snd (draw t) = PersistOK"
    and "distinct (map (fst \<circ> draw) (replica_names route))"
  shows "map_of (q_jobs (snd (fanOutCommit (world_relay routes r) kind repo route sha refs w))) (fst (draw (bk_Name rep)))
    = Some (commit_job kind repo (bk_Name (rt_Primary route)) sha refs qnow (bk_Name rep) (fst (draw (bk_Name rep))))"
    and "fst (fanOutCommit (world_relay routes r) kind repo route sha refs w) = fst w"
proof -
  let ?ts = "map (\<lambda>t. (t, draw t)) (replica_names route)"
  have ok: "list_all (\<lambda>(t, i, out). out = PersistOK) ?ts"
    using assms(3) by (auto simp: list_all_iff split: prod.splits)
  have "map (\<lambda>(t, i, out). i) ?ts = map (fst \<circ> draw) (replica_names route)"
    by (auto split: prod.splits)
  then have d: "distinct (map (\<lambda>(t, i, out). i) ?ts)" using assms(4) by metis
  obtain q' where q': "enqueue_loop jc kind repo (bk_Name (rt_Primary route)) (fill_commit sha refs) qnow ?ts (snd w) = (Ok (), q')"
    "\<forall>(t, i, out) \<in> set ?ts. map_of (q_jobs q') i =
       Some (commit_job kind repo (bk_Name (rt_Primary route)) sha refs qnow t i)"
    using enqueue_loop_jobs [OF ok d, of jc kind repo "bk_Name (rt_Primary route)" sha refs qnow "snd w"]
    by blast
  have ne: "rt_Replicas route \<noteq> []" using assms(2) by auto
  then have "?ts \<noteq> []" by (simp add: replica_names_def)
  then have eq: "fanOutCommit (world_relay routes r) kind repo route sha refs w = (fst w, q'\<lparr>q_wake := True\<rparr>)"
    using ne q'(1) assms(1)
    by (simp add: fanOutCommit_def world_relay_def queue_replicator_def on_snd_def EnqueueCommit_def enqueue_def)
  have "(bk_Name rep, draw (bk_Name rep)) \<in> set ?ts" using assms(2) by (auto simp: replica_names_def)
  with q'(2) show "map_of (q_jobs (snd (fanOutCommit (world_relay routes r) kind repo route sha refs w))) (fst (draw (bk_Name rep)))
    = Some (commit_job kind repo (bk_Name (rt_Primary route)) sha refs qnow (bk_Name rep) (fst (draw (bk_Name rep))))"
    unfolding eq by (cases "draw (bk_Name rep)") auto
  show "fst (fanOutCommit (world_relay routes r) kind repo route sha refs w) = fst w" unfolding eq by simp
qed

text \<open>
  C2. A commit reaches every replica: when it has published a new commit and the
  spool accepted its jobs, the queue holds a job for each replica of the route,
  and whenever that job returns nil, from any later state of the trees in which
  the primary still serves the commit, the replica resolves the branch to the
  same commit, serves the same manifest, and opens every file of it with content
  that matches its digest.
\<close>

theorem Commit_reaches_replica:
  assumes "Commit (world_relay routes r) now kind repo revision ops w = (Ok sha, w')"
    and "Router_For (rl_glob r) routes (repo_string repo) = Some route"
    and "rt_Primary route = world_backend (fb_name src) src"
    and "world_backend (fb_name dst) dst \<in> set (rt_Replicas route)"
    and "rl_replicator r = Some (queue_replicator jc qnow draw)"
    and "\<forall>t \<in> set (replica_names route). snd (draw t) = PersistOK"
    and "distinct (map (fst \<circ> draw) (replica_names route))"
    and "relay_hashes r" and "fs_good src kind repo (fst w (fb_name src))"
    and "\<forall>f \<in> set (co_LFSFiles ops). digestPattern (SHA256Digest (cl_OID f))"
    and "fs_ResolveRef src kind repo revision (fst w (fb_name src)) = Ok p" and "sha \<noteq> p"
    and "fs_GetManifest src kind repo p (fst w (fb_name src)) = Ok parent"
    and "\<forall>f \<in> set (mf_Files parent). fe_Digest f = [] \<or> digestPattern (fe_Digest f)"
    and "valid_repo repo" and "conf (fb_name src) = Some src" and "conf (fb_name dst) = Some dst"
  shows "\<exists>job m. map_of (q_jobs (snd w')) (fst (draw (fb_name dst))) = Some job \<and> job_Target job = fb_name dst \<and>
    fs_GetManifest src kind repo sha (fst w' (fb_name src)) = Ok m \<and>
    (\<forall>t t'. runJob (fs_world conf) job t = (Ok (), t') \<longrightarrow> fs_good dst kind repo (t (fb_name dst)) \<longrightarrow>
       fs_GetManifest src kind repo sha (t (fb_name src)) = Ok m \<longrightarrow>
       fs_ResolveRef dst kind repo revision (t' (fb_name dst)) = Ok sha \<and>
       fs_GetManifest dst kind repo sha (t' (fb_name dst)) = Ok m \<and>
       (\<forall>f \<in> set (mf_Files m). fe_Digest f \<noteq> [] \<longrightarrow>
          (\<exists>c. fs_OpenBlob dst kind repo (fe_Digest f) (t' (fb_name dst)) = Ok c \<and>
               blob_ok (fb_env dst) (Digest_Hex (fe_Digest f)) c)))"
proof -
  let ?r = "world_relay routes r" and ?src = "world_backend (fb_name src) src"
  have hr: "relay_hashes ?r" "rl_route ?r repo = Some route"
    using assms(2,8) by (simp_all add: world_relay_hashes world_relay_route)
  obtain tree w1 m where rev: "\<not> IsCommitSHA revision"
    and a: "apply_ops ?r ?src kind repo ops (mf_Files parent) w = (Ok tree, w1)"
    and m: "fs_GetManifest src kind repo sha (fst w' (fb_name src)) = Ok m"
    and new: "mf_Files m = tree" "manifest_ok kind repo m" "mf_CommitSHA m = sha"
      "write_commit ?r route now kind repo revision (co_Summary ops) p tree w1 = (Ok sha, w')"
    by (rule fs_relay.commit_result [OF assms(1) hr(2) assms(3,9) hr(1), of p parent, unfolded world_backend_reads,
          OF assms(11,13)]) (use assms(12) in blast)
  have digests: "\<forall>f \<in> set (mf_Files m). fe_Digest f = [] \<or> digestPattern (fe_Digest f)"
    using fs_relay.commit_entries_stored [OF a assms(9) hr(1) assms(10)] assms(14) new(1) by blast
  let ?i = "fst (draw (fb_name dst))"
  let ?job = "commit_job kind repo (fb_name src) sha [(revision, sha)] qnow (fb_name dst) ?i"
  obtain w2 where w': "w' = fanOutCommit ?r kind repo route sha [(revision, sha)] w2"
    using new(4) unfolding write_commit_def Let_def by (auto split: res.splits prod.splits)
  have job: "map_of (q_jobs (snd w')) ?i = Some ?job"
    unfolding w' using fan_out_jobs(1) [OF assms(5,4,6,7)] by (simp add: assms(3))
  have "fs_ResolveRef dst kind repo revision (t' (fb_name dst)) = Ok sha \<and>
       fs_GetManifest dst kind repo sha (t' (fb_name dst)) = Ok m \<and>
       (\<forall>f \<in> set (mf_Files m). fe_Digest f \<noteq> [] \<longrightarrow>
          (\<exists>c. fs_OpenBlob dst kind repo (fe_Digest f) (t' (fb_name dst)) = Ok c \<and>
               blob_ok (fb_env dst) (Digest_Hex (fe_Digest f)) c))"
    if run: "runJob (fs_world conf) ?job t = (Ok (), t')" and good: "fs_good dst kind repo (t (fb_name dst))"
      and src: "fs_GetManifest src kind repo sha (t (fb_name src)) = Ok m" for t t'
  proof -
    have neq: "ActionCommit \<noteq> ActionDeleteRepo" by (simp add: ActionCommit_def ActionDeleteRepo_def)
    have rc: "run_commit (lift_backend (fb_name src) (Fsbackend src)) (lift_backend (fb_name dst) (Fsbackend dst))
        ?job repo t = (Ok (), t')"
      using run assms(16,17) neq ParseRepoID_repo_string [OF assms(15)] by (simp add: runJob_def fs_world_def)
    have "bk_GetManifest (lift_backend (fb_name src) (Fsbackend src)) kind repo (job_CommitSHA ?job) t = Ok m"
      using src by (simp add: lift_backend_def Fsbackend_def)
    note rep = lifted_fs.run_commit_replicates [OF rc good _ this new(2) _ digests]
    show ?thesis
      using rep(2-4) rev new(3) by (auto simp: lift_backend_def Fsbackend_def)
  qed
  with job m show ?thesis by (intro exI [of _ ?job] exI [of _ m]) simp
qed

end
