(* ===== verification/Relay_Demo.thy ===== *)
theory Relay_Demo
  imports Relay_Queue
begin

text \<open>
  A small world in which the properties of the relay apply: one repository on a
  filesystem backend with a replica, the queue, and constant hash functions.
  \<open>demo_begin\<close> holds an empty commit on main and one uploaded blob.
\<close>

section \<open>The backend before the commit\<close>

definition demo_start :: Manifest where
  "demo_start = \<lparr>mf_Repo = demo_repo, mf_Kind = RepoKindModel, mf_CommitSHA = demo_sha,
     mf_FetchedAt = 0, mf_CreatedAt = 0, mf_Files = []\<rparr>"

definition demo_begin :: tree where
  "demo_begin = [([''data''], FDir), ([''data'', ''models--org--m''], FDir),
     ([''data'', ''models--org--m'', ''blobs''], FDir),
     ([''data'', ''models--org--m'', ''blobs'', replicate 64 CHR ''2''], FFile [7]),
     ([''data'', ''.shpiel''], FDir), ([''data'', ''.shpiel'', ''models--org--m''], FDir),
     ([''data'', ''.shpiel'', ''models--org--m'', ''manifests''], FDir),
     ([''data'', ''.shpiel'', ''models--org--m'', ''manifests'', demo_sha @ ''.json''],
       FFile (enc_manifest (fb_env demo_fs) demo_start)),
     ([''data'', ''models--org--m'', ''refs''], FDir),
     ([''data'', ''models--org--m'', ''refs'', ''main''], FFile (to_bytes demo_sha))]"

lemma demo_dir: "repoDirName RepoKindModel demo_repo = ''models--org--m''"
  by code_simp

lemma demo_io: "io_ok (fb_env demo_fs) p" "io_symlink (fb_env demo_fs) p"
  by (simp_all add: demo_fs_def demo_env_def)

lemma demo_paths:
  "blobPath demo_fs RepoKindModel demo_repo demo_digest = [''data'', ''models--org--m'', ''blobs'', replicate 64 CHR ''2'']"
  "repoDir demo_fs RepoKindModel demo_repo = [''data'', ''models--org--m'']"
  "IsCommitSHA sha \<Longrightarrow> manifestPath demo_fs RepoKindModel demo_repo sha =
     [''data'', ''.shpiel'', ''models--org--m'', ''manifests'', sha @ ''.json'']"
  by (simp_all add: blobPath_digest manifestPath_commit repoDir_def metaDir_def demo_dir demo_fs_def)

lemma demo_main: "safeJoin [''data'', ''models--org--m'', ''refs''] ''main'' = Some [''data'', ''models--org--m'', ''refs'', ''main'']"
proof -
  have "validRelPath ''main''" by (simp add: validRelPath_iff plain_seg_def)
  then show ?thesis by (simp add: safeJoin_Some_iff)
qed

lemmas demo_fs_eval = repo_is_zero_def demo_paths demo_main demo_io writeFileAtomic_def os_MkdirAll_def
  lookup_def os_Stat_def follow_def below_file_def upt_rec

lemma demo_begin_put:
  "fs_PutManifest demo_fs demo_start [(''main'', demo_sha)] demo_tree = (Ok (), demo_begin)"
proof -
  have fields: "mf_Repo demo_start = demo_repo" "mf_Kind demo_start = RepoKindModel"
    "mf_CommitSHA demo_start = demo_sha" "mf_Files demo_start = []"
    by (simp_all add: demo_start_def)
  show ?thesis
    unfolding fs_PutManifest_def Let_def fields demo_begin_def
    by (simp add: demo_commit_sha demo_tree_eq demo_fs_eval)
qed

lemma demo_start_ok [simp]: "manifest_ok RepoKindModel demo_repo demo_start"
  by (simp add: manifest_ok_def demo_start_def)

lemma demo_begin_good: "fs_good demo_fs RepoKindModel demo_repo demo_begin"
  by (rule fs_PutManifest_good [OF demo_begin_put demo_tree_good demo_start_ok])

lemma demo_begin_reads:
  "fs_GetManifest demo_fs RepoKindModel demo_repo demo_sha demo_begin = Ok demo_start"
  "fs_ResolveRef demo_fs RepoKindModel demo_repo ''main'' demo_begin = Ok demo_sha"
  "fs_OpenBlob demo_fs RepoKindModel demo_repo demo_digest demo_begin = Ok [7]"
proof -
  have nc: "\<not> IsCommitSHA ''main''" by code_simp
  have put: "bk_PutManifest (Fsbackend demo_fs) demo_start [(''main'', demo_sha)] demo_tree = (Ok (), demo_begin)"
    by (simp add: Fsbackend_def demo_begin_put)
  have d: "distinct (map fst [(''main'', demo_sha)])" by simp
  have sha: "mf_CommitSHA demo_start = demo_sha" by (simp add: demo_start_def)
  show "fs_GetManifest demo_fs RepoKindModel demo_repo demo_sha demo_begin = Ok demo_start"
    using fs_contract.put_manifest_stored [OF demo_tree_good demo_start_ok d put TrueI] sha by (simp add: Fsbackend_def)
  show "fs_ResolveRef demo_fs RepoKindModel demo_repo ''main'' demo_begin = Ok demo_sha"
    using fs_contract.put_manifest_refs [OF demo_tree_good demo_start_ok d put _ nc] by (simp add: Fsbackend_def)
  show "fs_OpenBlob demo_fs RepoKindModel demo_repo demo_digest demo_begin = Ok [7]"
    using fs_contract.put_manifest_blobs [OF demo_tree_good demo_start_ok d put demo_digest_ok, of "[7]"] demo_OpenBlob
    by (simp add: Fsbackend_def)
qed

lemma demo_begin_blob:
  "fs_PutBlob demo_fs RepoKindModel demo_repo demo_digest c n demo_begin = (Ok (), demo_begin)"
  "\<exists>i. fs_StatBlob demo_fs RepoKindModel demo_repo demo_digest demo_begin = Ok i"
proof -
  show "fs_PutBlob demo_fs RepoKindModel demo_repo demo_digest c n demo_begin = (Ok (), demo_begin)"
    using fs_contract.put_blob_again [OF demo_begin_good demo_digest_ok, of "[7]"] demo_begin_reads(3)
    by (simp add: Fsbackend_def)
  show "\<exists>i. fs_StatBlob demo_fs RepoKindModel demo_repo demo_digest demo_begin = Ok i"
    using fs_contract.stat_iff_open [OF demo_begin_good demo_digest_ok] demo_begin_reads(3)
    by (simp add: Fsbackend_def)
qed

section \<open>The relay and a commit\<close>

abbreviation (input) "demo_new \<equiv> replicate 40 CHR ''1''"

definition demo_replica :: fs_backend where
  "demo_replica = demo_fs\<lparr>fb_name := ''copy''\<rparr>"

definition demo_route :: "((string \<Rightarrow> tree) \<times> (string \<Rightarrow> tree, Job option) Queue) Route" where
  "demo_route = \<lparr>rt_Match = ''*'', rt_Primary = world_backend ''disk'' demo_fs,
     rt_Replicas = [world_backend ''copy'' demo_replica]\<rparr>"

definition demo_relay :: "(string \<Rightarrow> tree, Job option) Queue Relay" where
  "demo_relay = \<lparr>rl_routes = [], rl_glob = (\<lambda>_ _. False), rl_upstream = None, rl_refreshInterval = 0,
     rl_metrics = True,
     rl_replicator = Some (queue_replicator unary_job_codec 0 (\<lambda>t. (t, PersistOK))),
     rl_sha1hex = (\<lambda>_. demo_new), rl_sha256hex = (\<lambda>_. replicate 64 CHR ''2'')\<rparr>"

definition demo_ops :: "string \<Rightarrow> CommitOps" where
  "demo_ops pc = \<lparr>co_Summary = ''add'', co_ParentCommit = pc,
     co_Files = [\<lparr>cf_Path = ''cfg'', cf_Content = [7]\<rparr>],
     co_LFSFiles = [\<lparr>cl_Path = ''a.bin'', cl_OID = replicate 64 CHR ''2'', cl_Size = 1\<rparr>],
     co_DeletedFiles = [''old''], co_DeletedFolders = [''tmp/'']\<rparr>"

definition demo_world :: "(string \<Rightarrow> tree) \<times> (string \<Rightarrow> tree, Job option) Queue" where
  "demo_world = ((\<lambda>_. [])(''disk'' := demo_begin),
     \<lparr>q_backends = (\<lambda>_. None), q_workers = 1, q_maxBackoff = second, q_jobs = [], q_inflight = {},
      q_spool = [], q_wake = False\<rparr>)"

definition demo_files :: "FileEntry list" where
  "demo_files =
     [\<lparr>fe_Path = ''a.bin'', fe_Size = 1, fe_Digest = demo_digest, fe_OID = demo_new,
       fe_LFS = Some \<lparr>lfs_SHA256 = replicate 64 CHR ''2'', lfs_OID = replicate 64 CHR ''2'', lfs_Size = 1,
                      lfs_PointerSize = int (length (lfsPointerContent (replicate 64 CHR ''2'') 1))\<rparr>\<rparr>,
      \<lparr>fe_Path = ''cfg'', fe_Size = 1, fe_Digest = demo_digest, fe_OID = demo_new, fe_LFS = None\<rparr>]"

definition demo_next :: Manifest where
  "demo_next = \<lparr>mf_Repo = demo_repo, mf_Kind = RepoKindModel, mf_CommitSHA = demo_new,
     mf_FetchedAt = 5, mf_CreatedAt = 5, mf_Files = demo_files\<rparr>"

lemma demo_new_sha: "IsCommitSHA demo_new"
  by code_simp

lemma demo_relay_hashes: "relay_hashes demo_relay"
proof -
  have "list_all is_lower_hex (replicate 64 CHR ''2'')" by code_simp
  with demo_new_sha show ?thesis by (simp add: relay_hashes_def demo_relay_def)
qed

lemma demo_next_put: "fst (fs_PutManifest demo_fs demo_next [(''main'', demo_new)] demo_begin) = Ok ()"
proof -
  have v: "validRelPath ''a.bin''" "validRelPath ''cfg''"
    by (simp_all add: validRelPath_iff plain_seg_def)
  have sj: "safeJoin (join_clean [''data'', ''models--org--m'', ''snapshots''] demo_new) ''a.bin'' =
      Some [''data'', ''models--org--m'', ''snapshots'', demo_new, ''a.bin'']"
    "safeJoin (join_clean [''data'', ''models--org--m'', ''snapshots''] demo_new) ''cfg'' =
      Some [''data'', ''models--org--m'', ''snapshots'', demo_new, ''cfg'']"
    using IsCommitSHA_seg [OF demo_new_sha] v
    by (simp_all add: safeJoin_Some_iff join_clean_plain)
  have nz: "\<not> Digest_IsZero demo_digest" by (simp add: Digest_IsZero_def demo_digest_def)
  have fields: "mf_Repo demo_next = demo_repo" "mf_Kind demo_next = RepoKindModel"
    "mf_CommitSHA demo_next = demo_new" "mf_Files demo_next = demo_files"
    by (simp_all add: demo_next_def)
  show ?thesis
    unfolding fs_PutManifest_def Let_def fields demo_begin_def demo_files_def
    by (simp add: demo_new_sha v demo_fs_eval nz linkSnapshotFile_def sj os_Remove_def link_at_def Let_def)
qed

definition demo_end :: tree where
  "demo_end = snd (fs_PutManifest demo_fs demo_next [(''main'', demo_new)] demo_begin)"

lemma demo_next_put_eq:
  "fs_PutManifest demo_fs demo_next [(''main'', demo_new)] demo_begin = (Ok (), demo_end)"
  using demo_next_put unfolding demo_end_def by (metis prod.collapse)

abbreviation (input) "demo_wr \<equiv> world_relay [demo_route] demo_relay"

definition demo_after :: "(string \<Rightarrow> tree) \<times> (string \<Rightarrow> tree, Job option) Queue" where
  "demo_after = fanOutCommit demo_wr RepoKindModel demo_repo demo_route demo_new [(''main'', demo_new)]
     ((\<lambda>_. [])(''disk'' := demo_end), snd demo_world)"

lemma demo_digest_of: "SHA256_of demo_wr c = demo_digest" "SHA256Digest (replicate 64 CHR ''2'') = demo_digest"
proof -
  show "SHA256Digest (replicate 64 CHR ''2'') = demo_digest" by code_simp
  then show "SHA256_of demo_wr c = demo_digest"
    by (simp add: SHA256_of_def world_relay_def demo_relay_def)
qed

lemma demo_sha1: "rl_sha1hex demo_wr c = demo_new"
  by (simp add: world_relay_def demo_relay_def)

lemma demo_Router_For: "Router_For (rl_glob demo_relay) [demo_route] (repo_string demo_repo) = Some demo_route"
  by (simp add: demo_route_def)

lemma demo_primary: "rt_Primary demo_route = world_backend ''disk'' demo_fs"
  by (simp add: demo_route_def)

lemma demo_entries:
  "inline_entry demo_wr \<lparr>cf_Path = ''cfg'', cf_Content = [7]\<rparr> = demo_files ! 1"
  "lfs_entry demo_wr \<lparr>cl_Path = ''a.bin'', cl_OID = replicate 64 CHR ''2'', cl_Size = 1\<rparr> = demo_files ! 0"
  by (simp_all add: inline_entry_def lfs_entry_def Let_def gitBlobOID_def demo_sha1 demo_digest_of demo_files_def)

lemma demo_write_put:
  "bk_PutBlob (world_backend ''disk'' demo_fs) RepoKindModel demo_repo demo_digest c n demo_world = (Ok (), demo_world)"
  by (simp add: world_backend_def fst_backend_def on_fst_def lift_backend_def lift_op_def Fsbackend_def
      demo_world_def demo_begin_blob(1))

lemma demo_apply:
  "apply_ops demo_wr (world_backend ''disk'' demo_fs) RepoKindModel demo_repo (demo_ops pc) [] demo_world = (Ok demo_files, demo_world)"
proof -
  obtain i where st: "fs_StatBlob demo_fs RepoKindModel demo_repo demo_digest (fst demo_world ''disk'') = Ok i"
    using demo_begin_blob(2) by (auto simp: demo_world_def)
  have paths: "fe_Path (demo_files ! 0) = ''a.bin''" "fe_Path (demo_files ! Suc 0) = ''cfg''"
    and all: "[demo_files ! 0, demo_files ! Suc 0] = demo_files"
    by (simp_all add: demo_files_def)
  have less: "''a.bin'' \<le> ''cfg''" "\<not> ''cfg'' \<le> ''a.bin''" by code_simp+
  show ?thesis
    by (simp add: apply_ops_def demo_ops_def parent_map_def delete_files_def delete_folders_def demo_digest_of
        demo_write_put demo_entries st)
      (simp add: paths less all)
qed

lemma demo_Commit:
  assumes "pc = [] \<or> pc = demo_sha"
  shows "Commit demo_wr 5 RepoKindModel demo_repo ''main'' (demo_ops pc) demo_world = (Ok demo_new, demo_after)"
proof -
  have nc: "\<not> IsCommitSHA ''main''" by code_simp
  have start: "mf_Files demo_start = []" by (simp add: demo_start_def)
  have route: "rl_route demo_wr demo_repo = Some demo_route" unfolding world_relay_route by (rule demo_Router_For)
  have parent: "\<not> (co_ParentCommit (demo_ops pc) \<noteq> [] \<and> co_ParentCommit (demo_ops pc) \<noteq> demo_sha)"
    using assms by (simp add: demo_ops_def)
  have sha: "mf_CommitSHA demo_next = demo_new" by (simp add: demo_next_def)
  have reads: "fs_ResolveRef demo_fs RepoKindModel demo_repo ''main'' (fst demo_world ''disk'') = Ok demo_sha"
    "fs_GetManifest demo_fs RepoKindModel demo_repo demo_sha (fst demo_world ''disk'') = Ok demo_start"
    using demo_begin_reads by (simp_all add: demo_world_def)
  have differ: "\<not> sameTree [] demo_files" by (simp add: sameTree_def demo_files_def)
  have next_eq: "\<lparr>mf_Repo = demo_repo, mf_Kind = RepoKindModel, mf_CommitSHA = demo_new, mf_FetchedAt = 5,
      mf_CreatedAt = 5, mf_Files = demo_files\<rparr> = demo_next" by (simp add: demo_next_def)
  have put: "bk_PutManifest (world_backend ''disk'' demo_fs) demo_next [(''main'', demo_new)] demo_world =
      (Ok (), ((\<lambda>_. [])(''disk'' := demo_end), snd demo_world))"
    by (simp add: world_backend_def fst_backend_def on_fst_def lift_backend_def lift_op_def Fsbackend_def
        demo_world_def demo_next_put_eq)
  have "write_commit demo_wr demo_route 5 RepoKindModel demo_repo ''main'' (co_Summary (demo_ops pc)) demo_sha demo_files
      demo_world = (Ok demo_new, demo_after)"
    unfolding write_commit_def mintCommitSHA_def demo_sha1 Let_def next_eq demo_primary
    by (simp add: sha put demo_after_def)
  with nc route parent reads start differ show ?thesis
    by (auto simp: Commit_def demo_primary demo_apply Let_def)
qed

lemma demo_world_good: "fs_good demo_fs RepoKindModel demo_repo (fst demo_world ''disk'')"
  by (simp add: demo_world_def demo_begin_good)

lemma demo_lfs_ok: "\<forall>f \<in> set (co_LFSFiles (demo_ops pc)). digestPattern (SHA256Digest (cl_OID f))"
  using demo_digest_ok by (simp add: demo_ops_def demo_digest_of)

lemma demo_world_reads:
  "fs_ResolveRef demo_fs RepoKindModel demo_repo ''main'' (fst demo_world ''disk'') = Ok demo_sha"
  "fs_GetManifest demo_fs RepoKindModel demo_repo demo_sha (fst demo_world ''disk'') = Ok demo_start"
  using demo_begin_reads by (simp_all add: demo_world_def)

theorem Commit_publishes_witness:
  "fs_ResolveRef demo_fs RepoKindModel demo_repo ''main'' (fst demo_after ''disk'') = Ok demo_new \<and>
   (\<exists>m. fs_GetManifest demo_fs RepoKindModel demo_repo demo_new (fst demo_after ''disk'') = Ok m)"
  using Commit_publishes [OF demo_Commit [OF disjI1 [OF refl]] demo_Router_For demo_primary demo_relay_hashes
      demo_world_good demo_lfs_ok demo_world_reads] by blast

lemma demo_Commit_mismatch:
  "Commit demo_wr 5 RepoKindModel demo_repo ''main'' (demo_ops demo_new) demo_world =
     (Err (RlParentMismatch demo_sha demo_new), demo_world)"
proof -
  have nc: "\<not> IsCommitSHA ''main''" by code_simp
  have route: "rl_route demo_wr demo_repo = Some demo_route" unfolding world_relay_route by (rule demo_Router_For)
  have "co_ParentCommit (demo_ops demo_new) = demo_new" "demo_new \<noteq> demo_sha" "demo_new \<noteq> []"
    by (simp_all add: demo_ops_def)
  with nc route demo_world_reads show ?thesis by (simp add: Commit_def demo_primary)
qed

theorem Commit_rejected_witness:
  "snd (Commit demo_wr 5 RepoKindModel demo_repo ''main'' (demo_ops demo_new) demo_world) = demo_world \<and>
   store_keeps (world_backend ''disk'' demo_fs) RepoKindModel demo_repo demo_world
     (snd (Commit demo_wr 5 RepoKindModel demo_repo ''main'' (demo_ops demo_new) demo_world))"
  using Commit_rejected [OF demo_Commit_mismatch demo_Router_For demo_primary demo_relay_hashes demo_world_good]
  by (simp add: demo_Commit_mismatch)

theorem Commit_retry_converges_witness:
  "Commit demo_wr 6 RepoKindModel demo_repo ''main'' (demo_ops []) demo_after = (Ok demo_new, demo_after)"
  by (rule Commit_retry_converges [OF demo_Commit [OF disjI1 [OF refl]] demo_Router_For demo_primary demo_relay_hashes
      demo_world_good demo_lfs_ok]) (simp add: demo_ops_def)

theorem Commit_retry_with_parent_witness:
  "Commit demo_wr 6 RepoKindModel demo_repo ''main'' (demo_ops demo_sha) demo_after =
     (Err (RlParentMismatch demo_new demo_sha), demo_after)"
proof -
  have "co_ParentCommit (demo_ops demo_sha) = demo_sha" by (simp add: demo_ops_def)
  with Commit_retry_with_parent [OF demo_Commit [OF disjI2 [OF refl]] demo_Router_For demo_primary demo_relay_hashes
      demo_world_good demo_lfs_ok] show ?thesis by simp
qed

theorem Commit_reaches_replica_witness:
  "\<exists>job m. map_of (q_jobs (snd demo_after)) ''copy'' = Some job \<and> job_Target job = ''copy'' \<and>
     fs_GetManifest demo_fs RepoKindModel demo_repo demo_new (fst demo_after ''disk'') = Ok m"
proof -
  define conf where "conf n = (if n = ''disk'' then Some demo_fs else if n = ''copy'' then Some demo_replica else None)" for n
  have names: "fb_name demo_fs = ''disk''" "fb_name demo_replica = ''copy''"
    by (simp_all add: demo_fs_def demo_replica_def)
  have rep: "replica_names demo_route = [''copy'']" "world_backend ''copy'' demo_replica \<in> set (rt_Replicas demo_route)"
    using names by (simp_all add: replica_names_def demo_route_def)
  have q: "rl_replicator demo_relay = Some (queue_replicator unary_job_codec 0 (\<lambda>t. (t, PersistOK)))"
    by (simp add: demo_relay_def)
  have v: "valid_repo demo_repo" by code_simp
  have c: "conf ''disk'' = Some demo_fs" "conf ''copy'' = Some demo_replica" by (simp_all add: conf_def)
  note w = Commit_reaches_replica [where src = demo_fs and dst = demo_replica and conf = conf, unfolded names,
      OF demo_Commit [OF disjI1 [OF refl]] demo_Router_For demo_primary rep(2) q _ _ demo_relay_hashes demo_world_good
      demo_lfs_ok demo_world_reads(1) _ demo_world_reads(2) _ v c]
  show ?thesis
    using w by (simp add: rep(1) demo_start_def) blast
qed

section \<open>A created repository\<close>

definition demo_init :: Manifest where
  "demo_init = \<lparr>mf_Repo = demo_repo, mf_Kind = RepoKindModel, mf_CommitSHA = demo_new,
     mf_FetchedAt = 5, mf_CreatedAt = 5, mf_Files = []\<rparr>"

definition demo_fresh :: tree where
  "demo_fresh = [([''data''], FDir), ([''data'', ''models--org--m''], FDir), ([''data'', ''models--org--m'', ''refs''], FDir)]"

lemma demo_create: "fs_CreateRepo demo_fs RepoKindModel demo_repo [] = (Ok (), demo_fresh)"
  by (simp add: fs_CreateRepo_def demo_fs_eval demo_fresh_def)

lemma demo_init_put: "fst (fs_PutManifest demo_fs demo_init [(''main'', demo_new)] demo_fresh) = Ok ()"
proof -
  have fields: "mf_Repo demo_init = demo_repo" "mf_Kind demo_init = RepoKindModel"
    "mf_CommitSHA demo_init = demo_new" "mf_Files demo_init = []"
    by (simp_all add: demo_init_def)
  show ?thesis
    unfolding fs_PutManifest_def Let_def fields demo_fresh_def
    by (simp add: demo_new_sha demo_fs_eval)
qed

definition demo_empty_world :: "(string \<Rightarrow> tree) \<times> (string \<Rightarrow> tree, Job option) Queue" where
  "demo_empty_world = ((\<lambda>_. []), snd demo_world)"

lemma demo_CreateRepo:
  "\<exists>w'. Relay_CreateRepo demo_wr 5 RepoKindModel demo_repo demo_empty_world = (Ok (), w')"
proof -
  have route: "rl_route demo_wr demo_repo = Some demo_route" unfolding world_relay_route by (rule demo_Router_For)
  have init: "\<lparr>mf_Repo = demo_repo, mf_Kind = RepoKindModel, mf_CommitSHA = demo_new, mf_FetchedAt = 5,
      mf_CreatedAt = 5, mf_Files = []\<rparr> = demo_init" "mf_CommitSHA demo_init = demo_new"
    by (simp_all add: demo_init_def)
  have main: "DefaultRevision = ''main''" by (simp add: DefaultRevision_def)
  obtain t where put: "fs_PutManifest demo_fs demo_init [(''main'', demo_new)] demo_fresh = (Ok (), t)"
    using demo_init_put by (metis prod.collapse)
  have c: "bk_CreateRepo (world_backend ''disk'' demo_fs) RepoKindModel demo_repo demo_empty_world =
      (Ok (), ((\<lambda>_. [])(''disk'' := demo_fresh), snd demo_world))"
    by (simp add: world_backend_def fst_backend_def on_fst_def lift_backend_def lift_op_def Fsbackend_def
        demo_empty_world_def demo_create)
  have p: "bk_PutManifest (world_backend ''disk'' demo_fs) demo_init [(''main'', demo_new)]
      ((\<lambda>_. [])(''disk'' := demo_fresh), snd demo_world) = (Ok (), ((\<lambda>_. [])(''disk'' := t), snd demo_world))"
    by (simp add: world_backend_def fst_backend_def on_fst_def lift_backend_def lift_op_def Fsbackend_def put)
  show ?thesis
    unfolding Relay_CreateRepo_def route option.case demo_primary c prod.case res.case mintCommitSHA_def demo_sha1
      Let_def init main
    by (simp add: init(2) p)
qed

theorem CreateRepo_readable_witness:
  "\<exists>w' m. Relay_CreateRepo demo_wr 5 RepoKindModel demo_repo demo_empty_world = (Ok (), w') \<and>
     localManifest (world_backend ''disk'' demo_fs) RepoKindModel demo_repo DefaultRevision w' = Ok m \<and> mf_Files m = []"
proof -
  obtain w' where c: "Relay_CreateRepo demo_wr 5 RepoKindModel demo_repo demo_empty_world = (Ok (), w')"
    using demo_CreateRepo by blast
  have good: "fs_good demo_fs RepoKindModel demo_repo (fst demo_empty_world ''disk'')"
    by (simp add: demo_empty_world_def)
  from CreateRepo_readable [OF c demo_Router_For demo_primary demo_relay_hashes good] c show ?thesis by blast
qed

section \<open>A pulled regular file\<close>

definition demo_git :: digest where
  "demo_git = ''sha1:'' @ demo_new"

definition demo_pulled :: Manifest where
  "demo_pulled = demo_start\<lparr>mf_Files :=
     [\<lparr>fe_Path = ''cfg'', fe_Size = 1, fe_Digest = demo_git, fe_OID = [], fe_LFS = None\<rparr>]\<rparr>"

definition demo_rekeyed :: Manifest where
  "demo_rekeyed = demo_start\<lparr>mf_Files :=
     [\<lparr>fe_Path = ''cfg'', fe_Size = 1, fe_Digest = demo_digest, fe_OID = demo_new, fe_LFS = None\<rparr>]\<rparr>"

definition demo_up :: "(string \<Rightarrow> tree, Job option) Queue upstream_conn" where
  "demo_up = \<lparr>uc_http = (\<lambda>rq q. (Ok \<lparr>rs_StatusCode = 200, rs_Header = (\<lambda>_. []), rs_ContentLength = 1,
      rs_Body = [7]\<rparr>, q)), uc_version = [], uc_client = Upstream_New ''http://hub'' [], uc_decode = (\<lambda>_. None)\<rparr>"

definition demo_pull_relay :: "(string \<Rightarrow> tree, Job option) Queue Relay" where
  "demo_pull_relay = demo_relay\<lparr>rl_upstream := Some demo_up\<rparr>"

abbreviation (input) "demo_pr \<equiv> world_relay [demo_route] demo_pull_relay"

lemma demo_git_parts: "digestPattern demo_git" "Digest_Algo demo_git = ''sha1''" "Digest_Hex demo_git = demo_new"
  by code_simp+

lemma demo_rekeyed_put:
  "\<exists>t. fs_PutManifest demo_fs demo_rekeyed [] demo_begin = (Ok (), t) \<and>
     fs_OpenBlob demo_fs RepoKindModel demo_repo demo_git t = Err ErrBlobNotFound"
proof -
  have v: "validRelPath ''cfg''" by (simp add: validRelPath_iff plain_seg_def)
  have sj: "safeJoin (join_clean [''data'', ''models--org--m'', ''snapshots''] demo_sha) ''cfg'' =
      Some [''data'', ''models--org--m'', ''snapshots'', demo_sha, ''cfg'']"
    using IsCommitSHA_seg [OF demo_commit_sha] v by (simp add: safeJoin_Some_iff join_clean_plain)
  have nz: "\<not> Digest_IsZero demo_digest" by (simp add: Digest_IsZero_def demo_digest_def)
  have gp: "blobPath demo_fs RepoKindModel demo_repo demo_git = [''data'', ''models--org--m'', ''blobs'', demo_new]"
    by (simp add: blobPath_digest demo_git_parts repoDir_def demo_dir demo_fs_def)
  have ne: "replicate 64 CHR ''2'' \<noteq> demo_new" by simp
  have fields: "mf_Repo demo_rekeyed = demo_repo" "mf_Kind demo_rekeyed = RepoKindModel"
    "mf_CommitSHA demo_rekeyed = demo_sha" "mf_Files demo_rekeyed =
       [\<lparr>fe_Path = ''cfg'', fe_Size = 1, fe_Digest = demo_digest, fe_OID = demo_new, fe_LFS = None\<rparr>]"
    by (simp_all add: demo_rekeyed_def demo_start_def)
  show ?thesis
    unfolding fs_PutManifest_def Let_def fields demo_begin_def
    by (simp add: demo_commit_sha v demo_fs_eval nz linkSnapshotFile_def sj os_Remove_def link_at_def Let_def
        fs_OpenBlob_def gp)
qed

lemma demo_pr_route: "rl_route demo_pr demo_repo = Some demo_route" "Router_For (rl_glob demo_pull_relay) [demo_route] (repo_string demo_repo) = Some demo_route"
  by (simp_all add: world_relay_route demo_route_def)

lemma demo_pr_up:
  "\<exists>u. rl_upstream demo_pr = Some u \<and>
     (\<exists>meta. Upstream_OpenFile (uc_http u) (uc_version u) (uc_client u) RepoKindModel demo_repo demo_sha ''cfg'' [] w =
       (Ok ([7], meta), w))"
proof -
  have e: "errorFromResponse \<lparr>rs_StatusCode = 200, rs_Header = (\<lambda>_. []), rs_ContentLength = 1, rs_Body = [7]\<rparr> = None"
    by (simp add: errorFromResponse_def)
  show ?thesis
    by (cases w) (simp add: world_relay_def demo_pull_relay_def demo_up_def Upstream_OpenFile_def up_call_def on_snd_def e)
qed

lemma demo_pulled_entry: "mf_Files demo_pulled ! 0 = \<lparr>fe_Path = ''cfg'', fe_Size = 1, fe_Digest = demo_git, fe_OID = [], fe_LFS = None\<rparr>"
  "mf_CommitSHA demo_pulled = demo_sha" "Manifest_File demo_pulled ''cfg'' = Some 0"
  by (simp_all add: demo_pulled_def demo_start_def Manifest_File_def)

lemma demo_world_git: "fs_OpenBlob demo_fs RepoKindModel demo_repo demo_git (fst demo_world ''disk'') = Err ErrBlobNotFound"
proof -
  have gp: "blobPath demo_fs RepoKindModel demo_repo demo_git = [''data'', ''models--org--m'', ''blobs'', demo_new]"
    by (simp add: blobPath_digest demo_git_parts repoDir_def demo_dir demo_fs_def)
  show ?thesis by (simp add: demo_world_def demo_begin_def fs_OpenBlob_def gp demo_fs_eval)
qed

lemma demo_store_regular:
  "\<exists>w'. storeRegularBlob demo_pr (world_backend ''disk'' demo_fs) RepoKindModel demo_repo demo_pulled 0 [7] demo_world =
       (Ok (), demo_rekeyed, w') \<and>
     fs_OpenBlob demo_fs RepoKindModel demo_repo demo_git (fst w' ''disk'') = Err ErrBlobNotFound \<and>
     fs_OpenBlob demo_fs RepoKindModel demo_repo demo_digest (fst w' ''disk'') = Ok [7]"
proof -
  obtain t where t: "fs_PutManifest demo_fs demo_rekeyed [] demo_begin = (Ok (), t)"
    "fs_OpenBlob demo_fs RepoKindModel demo_repo demo_git t = Err ErrBlobNotFound" using demo_rekeyed_put by blast
  have ok: "manifest_ok RepoKindModel demo_repo demo_rekeyed" by (simp add: manifest_ok_def demo_rekeyed_def demo_start_def)
  have blob: "fs_OpenBlob demo_fs RepoKindModel demo_repo demo_digest t = Ok [7]"
    using fs_contract.put_manifest_blobs [OF demo_begin_good ok _ _ demo_digest_ok, of "[]" "Ok ()" t "[7]"] t(1) demo_begin_reads(3)
    by (simp add: Fsbackend_def)
  have oid: "gitBlobOID demo_pr c = demo_new" "SHA256_of demo_pr c = demo_digest" for c
    using demo_digest_of(2) by (simp_all add: gitBlobOID_def SHA256_of_def world_relay_def demo_pull_relay_def demo_relay_def)
  have small: "take (maxRegularFileSize + 1) [7 :: byte] = [7]" "0 < maxRegularFileSize" by (simp_all add: maxRegularFileSize_def)
  have set: "set_entry demo_pulled 0 ((mf_Files demo_pulled ! 0)\<lparr>fe_OID := demo_new, fe_Digest := demo_digest, fe_Size := 1\<rparr>) = demo_rekeyed"
    by (simp add: set_entry_def demo_pulled_def demo_rekeyed_def)
  have put: "bk_PutManifest (world_backend ''disk'' demo_fs) demo_rekeyed [] demo_world =
      (Ok (), ((\<lambda>_. [])(''disk'' := t), snd demo_world))"
    by (simp add: world_backend_def fst_backend_def on_fst_def lift_backend_def lift_op_def Fsbackend_def demo_world_def t(1))
  have "storeRegularBlob demo_pr (world_backend ''disk'' demo_fs) RepoKindModel demo_repo demo_pulled 0 [7] demo_world =
      (Ok (), demo_rekeyed, ((\<lambda>_. [])(''disk'' := t), snd demo_world))"
    unfolding storeRegularBlob_def Let_def small(1) oid demo_write_put
    using set by (simp add: demo_pulled_entry demo_git_parts small put)
  then show ?thesis using t(2) blob by simp
qed

lemma demo_OpenFile:
  "\<exists>w'. Relay_OpenFile None demo_pr RepoKindModel demo_repo demo_pulled ''cfg'' [] demo_world =
       (Ok ([7], 0, SourceUpstream), demo_rekeyed, w') \<and>
     fs_OpenBlob demo_fs RepoKindModel demo_repo demo_git (fst w' ''disk'') = Err ErrBlobNotFound"
proof -
  obtain u meta where u: "rl_upstream demo_pr = Some u"
    "Upstream_OpenFile (uc_http u) (uc_version u) (uc_client u) RepoKindModel demo_repo demo_sha ''cfg'' [] demo_world =
       (Ok ([7], meta), demo_world)" using demo_pr_up by blast
  obtain w' where w': "storeRegularBlob demo_pr (world_backend ''disk'' demo_fs) RepoKindModel demo_repo demo_pulled 0 [7] demo_world =
       (Ok (), demo_rekeyed, w')"
    "fs_OpenBlob demo_fs RepoKindModel demo_repo demo_git (fst w' ''disk'') = Err ErrBlobNotFound"
    "fs_OpenBlob demo_fs RepoKindModel demo_repo demo_digest (fst w' ''disk'') = Ok [7]" using demo_store_regular by blast
  have ens: "EnsureEntry demo_pr RepoKindModel demo_repo demo_pulled ''cfg'' [] demo_world = (Ok 0, demo_pulled, demo_world)"
    by (simp add: EnsureEntry_def demo_pr_route demo_pulled_entry Digest_IsZero_def demo_git_def)
  have count: "count_bytes demo_pr n = Ok ()" if "0 \<le> n" for n
    using that by (simp add: count_bytes_def)
  have body: "fetch_blob_body demo_pr u (world_backend ''disk'' demo_fs) RepoKindModel demo_repo demo_pulled 0 [] demo_world =
      (Ok (), demo_rekeyed, w')"
    by (simp add: fetch_blob_body_def Let_def demo_pulled_entry u(2) demo_git_parts w'(1) count)
  have d: "fe_Digest (mf_Files demo_rekeyed ! 0) = demo_digest" by (simp add: demo_rekeyed_def)
  have "Relay_OpenFile None demo_pr RepoKindModel demo_repo demo_pulled ''cfg'' [] demo_world =
      (Ok ([7], 0, SourceUpstream), demo_rekeyed, w')"
    by (simp add: Relay_OpenFile_def demo_pr_route demo_primary ens demo_pulled_entry demo_world_git u(1) fetchBlob_def
        body d w'(3) Let_def)
  with w'(2) show ?thesis by blast
qed



end
