(* ===== verification/Server_Base.thy ===== *)
theory Server_Base
  imports Relay_Write Replication Hfapi_Route Go_Base64
begin

text \<open>
  Package internal/server, the parts the handlers share: requests and responses,
  the error mapping (errors.go), bearer tokens (middleware.go), token validation
  against the upstream (authz.go), the audit trail (internal/audit) and the
  transfer slots (server.go). JSON decoders are fields of the server; a decoder
  of a request body has the byte limit of \<open>http.MaxBytesReader\<close> as its first
  argument. Times are seconds.
\<close>

section \<open>Requests, payloads, responses\<close>

record http_req =
  hq_Method :: string
  hq_EscapedPath :: string
  hq_Query :: "string \<Rightarrow> string"
  hq_Header :: "string \<Rightarrow> string"
  hq_Host :: string
  hq_TLS :: bool
  hq_Body :: "byte list"

record TreeEntry =
  te_Type :: string
  te_OID :: string
  te_Size :: int
  te_Path :: string
  te_LFS :: "LFSInfo option"

record CreateRepoRequest =
  cr_Name :: string
  cr_Organization :: string
  cr_Type :: string

record PreuploadFile =
  pu_Path :: string
  pu_Size :: int
  pu_Sample :: string

record LFSBatchObject =
  bo_OID :: string
  bo_Size :: int

record LFSBatchRequest =
  bq_Operation :: string
  bq_Objects :: "LFSBatchObject list"

text \<open>The outcome for one object: an error, an upload action (href, header), or nothing.\<close>

datatype batch_action = BatchError nat string | BatchUpload string "(string \<times> string) list" | BatchNone

datatype ndjson_error =
  NdLine | NdHeader | NdFile | NdEncoding string | NdBase64 string | NdInlineLimit string
| NdLfsFile | NdAlgo string string | NdOID string | NdDeletedFile | NdDeletedFolder
| NdKey string | NdRead | NdNoHeader

text \<open>An error body holds the error whose text it carries where that text is composed.\<close>

datatype body =
  NoBody | ErrorMsg string | ErrorRelay relay_error | ErrorNdjson ndjson_error
| ErrorRepoID id_error | ErrorRepoType string | TextBody string | RawBody "byte list"
| ModelInfoBody string ModelInfo | TreeBody "TreeEntry list" | WhoAmIBody
| ServeContent "byte list" int | RepoConflict string string | RepoCreated string string | RepoDeleted
| BackendsBody "(string \<times> backend_error option) list" | ReplicationBody bool nat "Job list" | KickedBody nat
| PreuploadBody "(string \<times> string) list" | BatchBody "(LFSBatchObject \<times> batch_action) list"
| CommitBody string string | CardBody "string list" "string list" | RootBody | XetTokenBody

record http_resp =
  sr_Status :: nat
  sr_Header :: "(string \<times> string) list"
  sr_Body :: body

definition writeJSON :: "nat \<Rightarrow> body \<Rightarrow> http_resp" where
  "writeJSON status b = \<lparr>sr_Status = status, sr_Header = [(''Content-Type'', ''application/json'')], sr_Body = b\<rparr>"

section \<open>Errors (errors.go)\<close>

definition hf_error :: "nat \<Rightarrow> string \<Rightarrow> body \<Rightarrow> http_resp" where
  "hf_error status code b =
     \<lparr>sr_Status = status,
      sr_Header = (if code \<noteq> [] then [(''X-Error-Code'', code)] else []) @ [(''Content-Type'', ''application/json'')],
      sr_Body = b\<rparr>"

definition writeHFError :: "nat \<Rightarrow> string \<Rightarrow> string \<Rightarrow> http_resp" where
  "writeHFError status code msg = hf_error status code (ErrorMsg msg)"

text \<open>\<open>errors.Is\<close> on the relay's errors: the errors that wrap one of the backend.\<close>

fun wrapped_backend :: "relay_error \<Rightarrow> backend_error option" where
  "wrapped_backend (RlBackend e) = Some e"
| "wrapped_backend (RlPersist e) = Some e"
| "wrapped_backend (RlInitial e) = Some e"
| "wrapped_backend (RlInline p e) = Some e"
| "wrapped_backend (RlCommit e) = Some e"
| "wrapped_backend (RlVanished d e) = Some e"
| "wrapped_backend (RlDigestMismatch p) = Some ErrDigestMismatch"
| "wrapped_backend _ = None"

definition isMappedError :: "relay_error \<Rightarrow> bool" where
  "isMappedError e \<longleftrightarrow>
     (case e of
        RlRepoNotFound \<Rightarrow> True | RlNoRoute _ \<Rightarrow> True | RlRevisionNotFound \<Rightarrow> True | RlEntryNotFound \<Rightarrow> True
      | RlRepoExists \<Rightarrow> True | RlParentMismatch _ _ \<Rightarrow> True | RlLFSBlobMissing _ \<Rightarrow> True | RlBadRevision \<Rightarrow> True
      | _ \<Rightarrow> wrapped_backend e = Some ErrDigestMismatch \<or> e = RlUpstream UpUnauthorized)"

definition writeRelayError :: "relay_error \<Rightarrow> http_resp" where
  "writeRelayError e =
     (case e of
        RlRepoNotFound \<Rightarrow> writeHFError 404 ''RepoNotFound''
          ''Repository not found. If the repo is private or gated, make sure you are authenticated.''
      | RlNoRoute _ \<Rightarrow> writeHFError 404 ''RepoNotFound''
          ''Repository not found. If the repo is private or gated, make sure you are authenticated.''
      | RlRevisionNotFound \<Rightarrow> writeHFError 404 ''RevisionNotFound'' ''Revision not found.''
      | RlEntryNotFound \<Rightarrow> writeHFError 404 ''EntryNotFound'' ''Entry not found.''
      | RlRepoExists \<Rightarrow> writeHFError 409 [] ''You already created this model repo''
      | RlParentMismatch _ _ \<Rightarrow> hf_error 412 [] (ErrorRelay e)
      | RlLFSBlobMissing _ \<Rightarrow> hf_error 400 ''BadRequest'' (ErrorRelay e)
      | RlBadRevision \<Rightarrow> hf_error 400 ''BadRequest'' (ErrorRelay e)
      | _ \<Rightarrow>
          if wrapped_backend e = Some ErrDigestMismatch then
            writeHFError 400 ''BadRequest'' ''Uploaded content does not match the declared digest.''
          else if e = RlUpstream UpUnauthorized then writeHFError 401 [] ''Unauthorized by upstream.''
          else writeHFError 500 [] ''Internal error.'')"

section \<open>Tokens (middleware.go, authz.go)\<close>

definition bearerToken :: "http_req \<Rightarrow> string" where
  "bearerToken r =
     (let auth = hq_Header r ''Authorization'' in
      if 7 < length auth \<and> take 7 auth = ''Bearer '' then drop 7 auth else [])"

record tokenVerdict =
  tv_ok :: bool
  tv_name :: string
  tv_expires :: int

type_synonym verdicts = "(string \<times> tokenVerdict) list"

definition newTokenValidator_ttl :: "int \<Rightarrow> int" where
  "newTokenValidator_ttl ttl = (if ttl \<le> 0 then 300 else ttl)"

definition tv_get :: "int \<Rightarrow> string \<Rightarrow> verdicts \<Rightarrow> tokenVerdict option \<times> verdicts" where
  "tv_get now token entries =
     (case map_of entries token of
        None \<Rightarrow> (None, entries)
      | Some v \<Rightarrow> if tv_expires v < now then (None, AList.delete token entries) else (Some v, entries))"

definition tv_put :: "int \<Rightarrow> int \<Rightarrow> string \<Rightarrow> bool \<Rightarrow> string \<Rightarrow> verdicts \<Rightarrow> verdicts" where
  "tv_put ttl now token ok name entries =
     (let es = (if 10000 < length entries then [] else entries) in
      AList.update token \<lparr>tv_ok = ok, tv_name = name, tv_expires = now + ttl\<rparr> es)"

section \<open>The server\<close>

record audit_rec =
  au_Action :: string
  au_Actor :: string
  au_Repo :: string
  au_Revision :: string
  au_Commit :: string
  au_Digest :: string

record 'w xet_hooks =
  xh_FileHashBySHA256 :: "string \<Rightarrow> 'w \<Rightarrow> string option"
  xh_WriteTokenResponse :: "http_req \<Rightarrow> string \<Rightarrow> repo_kind \<Rightarrow> repo_id \<Rightarrow> string \<Rightarrow> (string \<times> string) list"

record 'w repl_hooks =
  rh_Depth :: "'w \<Rightarrow> nat"
  rh_Snapshot :: "'w \<Rightarrow> Job list"
  rh_RetryNow :: "int \<Rightarrow> 'w \<Rightarrow> nat \<times> 'w"

record ('w, 'j) Server =
  sv_authMode :: string
  sv_ttl :: int
  sv_relay :: "'w Relay"
  sv_upstream :: "'w upstream_conn option"
  sv_audit :: bool
  sv_xet :: "'w xet_hooks option"
  sv_repl :: "'w repl_hooks option"
  sv_adminToken :: string
  sv_mime :: "string \<Rightarrow> string"
  sv_yaml :: "string \<Rightarrow> (string, bool option) res"
  sv_whoami_name :: "byte list \<Rightarrow> string option"
  sv_dec_create :: "nat \<Rightarrow> byte list \<Rightarrow> CreateRepoRequest option"
  sv_dec_delete :: "nat \<Rightarrow> byte list \<Rightarrow> CreateRepoRequest option"
  sv_dec_preupload :: "nat \<Rightarrow> byte list \<Rightarrow> PreuploadFile list option"
  sv_dec_batch :: "nat \<Rightarrow> byte list \<Rightarrow> LFSBatchRequest option"
  sv_dec_card :: "nat \<Rightarrow> byte list \<Rightarrow> string option"
  sv_form_content :: "nat \<Rightarrow> byte list \<Rightarrow> string option"
  sv_line :: "string \<Rightarrow> (string \<times> 'j) option"
  sv_header :: "'j \<Rightarrow> (string \<times> string) option"
  sv_file :: "'j \<Rightarrow> (string \<times> string \<times> string) option"
  sv_lfs :: "'j \<Rightarrow> (string \<times> string \<times> string \<times> int) option"
  sv_deleted :: "'j \<Rightarrow> string option"

record 'w sstate =
  st_world :: 'w
  st_tokens :: verdicts
  st_audit :: "audit_rec list"

definition audit_Record :: "('w, 'j) Server \<Rightarrow> audit_rec \<Rightarrow> 'w sstate \<Rightarrow> 'w sstate" where
  "audit_Record s ev st =
     (if \<not> sv_audit s then st
      else st\<lparr>st_audit := st_audit st @
        [ev\<lparr>au_Actor := (if au_Actor ev = [] then ''anonymous'' else au_Actor ev)\<rparr>]\<rparr>)"

text \<open>
  \<open>validateToken\<close>: the verdict and the name; an upstream that cannot be reached
  is an error and leaves no verdict.
\<close>

definition validateToken ::
  "('w, 'j) Server \<Rightarrow> int \<Rightarrow> string \<Rightarrow> 'w sstate \<Rightarrow> (upstream_error, bool \<times> string) res \<times> 'w sstate" where
  "validateToken s now token st =
     (case tv_get now token (st_tokens st) of
        (Some v, es) \<Rightarrow> (Ok (tv_ok v, tv_name v), st\<lparr>st_tokens := es\<rparr>)
      | (None, es) \<Rightarrow>
          (case sv_upstream s of
             None \<Rightarrow> (Ok (False, []), st\<lparr>st_tokens := es\<rparr>)
           | Some u \<Rightarrow>
               (case Upstream_WhoAmI (uc_http u) (uc_version u) (uc_client u) token (st_world st) of
                  (Err e, w) \<Rightarrow> (Err e, st\<lparr>st_world := w, st_tokens := es\<rparr>)
                | (Panic, w) \<Rightarrow> (Panic, st\<lparr>st_world := w, st_tokens := es\<rparr>)
                | (Ok (status, bd), w) \<Rightarrow>
                    (let ok = (status = 200);
                         name = (if ok then (case sv_whoami_name s bd of None \<Rightarrow> [] | Some n \<Rightarrow> n) else [])
                     in (Ok (ok, name),
                         st\<lparr>st_world := w, st_tokens := tv_put (sv_ttl s) now token ok name es\<rparr>)))))"

text \<open>\<open>authorizeWrite\<close>: the actor, or the response that was written.\<close>

definition authorizeWrite ::
  "('w, 'j) Server \<Rightarrow> int \<Rightarrow> http_req \<Rightarrow> 'w sstate \<Rightarrow> (http_resp, string) res \<times> 'w sstate" where
  "authorizeWrite s now r st =
     (if sv_authMode s \<noteq> ''passthrough'' then (Ok ''anonymous'', st)
      else
        let token = bearerToken r in
        if token = [] then (Err (writeHFError 401 [] ''Invalid credentials in Authorization header''), st)
        else case validateToken s now token st of
               (Err _, st') \<Rightarrow> (Err (writeHFError 502 [] ''Token validation against upstream failed.''), st')
             | (Panic, st') \<Rightarrow> (Panic, st')
             | (Ok (ok, name), st') \<Rightarrow>
                 if ok then (Ok name, st') else (Err (writeHFError 401 [] ''Invalid user token.''), st'))"

definition repoKindFromType :: "string \<Rightarrow> repo_kind option" where
  "repoKindFromType t =
     (if t = [] \<or> t = ''model'' then Some RepoKindModel
      else if t = ''dataset'' then Some RepoKindDataset else None)"

text \<open>A handler: its response, or a panic (the connection is dropped), and the state.\<close>

type_synonym 'w outcome = "(unit, http_resp) res \<times> 'w sstate"

text \<open>The guard at the start of every write handler.\<close>

definition with_actor ::
  "('w, 'j) Server \<Rightarrow> int \<Rightarrow> http_req \<Rightarrow> (string \<Rightarrow> 'w sstate \<Rightarrow> 'w outcome) \<Rightarrow> 'w sstate \<Rightarrow> 'w outcome" where
  "with_actor s now r f st =
     (case authorizeWrite s now r st of
        (Err resp, st') \<Rightarrow> (Ok resp, st')
      | (Panic, st') \<Rightarrow> (Panic, st')
      | (Ok actor, st') \<Rightarrow> f actor st')"

text \<open>A relay operation on the world part of the state.\<close>

definition on_world :: "('w \<Rightarrow> 'a \<times> 'w) \<Rightarrow> 'w sstate \<Rightarrow> 'a \<times> 'w sstate" where
  "on_world f st = (case f (st_world st) of (a, w) \<Rightarrow> (a, st\<lparr>st_world := w\<rparr>))"

definition requestSchemeHost :: "http_req \<Rightarrow> string \<times> string" where
  "requestSchemeHost r =
     (if hq_Header r ''X-Forwarded-Proto'' \<noteq> [] then hq_Header r ''X-Forwarded-Proto''
      else if hq_TLS r then ''https'' else ''http'', hq_Host r)"

definition base_url :: "http_req \<Rightarrow> string" where
  "base_url r = fst (requestSchemeHost r) @ ''://'' @ snd (requestSchemeHost r)"

section \<open>Transfer slots (server.go)\<close>

text \<open>
  The semaphore is its capacity (\<open>None\<close>: unlimited) and the number of slots
  taken. \<open>None\<close> as the outcome of \<open>acquireSlot\<close> means that it blocks; when both
  branches of the select are ready, \<open>pick\<close> says whether the send is chosen.
\<close>

definition acquireSlot :: "nat option \<Rightarrow> bool \<Rightarrow> bool \<Rightarrow> nat \<Rightarrow> (bool \<times> nat) option" where
  "acquireSlot cap canceled pick n =
     (case cap of
        None \<Rightarrow> Some (True, n)
      | Some c \<Rightarrow>
          if n < c \<and> (\<not> canceled \<or> pick) then Some (True, Suc n)
          else if canceled then Some (False, n) else None)"

definition releaseSlot :: "nat option \<Rightarrow> nat \<Rightarrow> nat" where
  "releaseSlot cap n = (case cap of None \<Rightarrow> n | Some c \<Rightarrow> n - 1)"

definition slot_capacity :: "int \<Rightarrow> nat option" where
  "slot_capacity n = (if 0 < n then Some (nat n) else None)"

end
