(* ===== verification/Server.thy ===== *)
theory Server
  imports Server_Base "HOL-Library.Sublist"
begin

text \<open>
  Package internal/server, the read side (handlers.go). A handler is a function
  of the request and the server's state; what concurrency decides for it (the clock, a flight of the
  relay it joins, whether a transfer slot was granted) is the record \<open>req_env\<close>.
  \<open>http.ServeContent\<close> is the body \<open>ServeContent\<close> (net/http evaluates the range
  and the conditions). The Link header of a tree page is the query of its URL.
\<close>

section \<open>Paths and 64-bit sums\<close>

text \<open>\<open>path.Ext\<close> and \<open>path.Base\<close>.\<close>

definition path_Ext :: "string \<Rightarrow> string" where
  "path_Ext p =
     (let seg = last (split_on CHR ''/'' p) in
      if CHR ''.'' \<in> set seg then CHR ''.'' # rev (takeWhile (\<lambda>c. c \<noteq> CHR ''.'') (rev seg)) else [])"

definition path_Base :: "string \<Rightarrow> string" where
  "path_Base p =
     (if p = [] then ''.''
      else let q = trim_right_char CHR ''/'' p in
           if q = [] then ''/'' else last (split_on CHR ''/'' q))"

record req_env =
  en_now :: int
  en_manifestFlight :: "(relay_error, Manifest) res option"
  en_blobFlight :: "(relay_error, unit) res option"
  en_slot :: bool

definition revision_of :: "route \<Rightarrow> string" where
  "revision_of rt = (if Revision rt = [] then DefaultRevision else Revision rt)"

text \<open>\<open>Header.Set\<close> for each header of a response on top of those already set.\<close>

definition set_headers :: "(string \<times> string) list \<Rightarrow> http_resp \<Rightarrow> http_resp" where
  "set_headers h resp = resp\<lparr>sr_Header := fold (\<lambda>(k, v). AList.update k v) (sr_Header resp) h\<rparr>"

definition resolve_manifest ::
  "('w, 'j) Server \<Rightarrow> req_env \<Rightarrow> route \<Rightarrow> http_req \<Rightarrow> 'w sstate \<Rightarrow> (relay_error, Manifest) res \<times> 'w sstate" where
  "resolve_manifest s env rt r st =
     on_world (ResolveManifest (en_manifestFlight env) (sv_relay s) (en_now env) (RepoKind rt) (Repo rt)
       (revision_of rt) (bearerToken r)) st"

section \<open>Model info\<close>

definition sibling_of :: "FileEntry \<Rightarrow> Sibling" where
  "sibling_of f =
     \<lparr>sb_RFilename = fe_Path f, sb_Size = (if 0 < fe_Size f then Some (fe_Size f) else None),
      sb_BlobID = fe_OID f,
      sb_LFS = map_option (\<lambda>l. \<lparr>lfs_SHA256 = lfs_SHA256 l, lfs_OID = lfs_SHA256 l, lfs_Size = lfs_Size l,
                                 lfs_PointerSize = lfs_PointerSize l\<rparr>) (fe_LFS f)\<rparr>"

definition modelInfoFromManifest :: "Manifest \<Rightarrow> ModelInfo" where
  "modelInfoFromManifest m =
     \<lparr>mi_SHA = mf_CommitSHA m, mi_LastModified = mf_CreatedAt m,
      mi_Siblings = sort_key sb_RFilename (map sibling_of (mf_Files m))\<rparr>"

definition handleModelInfo ::
  "('w, 'j) Server \<Rightarrow> req_env \<Rightarrow> route \<Rightarrow> http_req \<Rightarrow> 'w sstate \<Rightarrow> 'w outcome" where
  "handleModelInfo s env rt r st =
     (case resolve_manifest s env rt r st of
        (Err e, st') \<Rightarrow> (Ok (writeRelayError e), st')
      | (Panic, st') \<Rightarrow> (Panic, st')
      | (Ok m, st') \<Rightarrow>
          (Ok (writeJSON 200 (ModelInfoBody (repo_string (mf_Repo m)) (modelInfoFromManifest m))), st'))"

section \<open>Trees\<close>

definition syntheticOID :: "(byte list \<Rightarrow> string) \<Rightarrow> string \<Rightarrow> string \<Rightarrow> string" where
  "syntheticOID sha1 commitSHA dirPath = sha1 (to_bytes (commitSHA @ '':'' @ dirPath))"

definition file_entry :: "FileEntry \<Rightarrow> TreeEntry" where
  "file_entry f =
     \<lparr>te_Type = ''file'', te_OID = (if fe_OID f = [] then Digest_Hex (fe_Digest f) else fe_OID f),
      te_Size = fe_Size f, te_Path = fe_Path f,
      te_LFS = map_option (\<lambda>l. \<lparr>lfs_SHA256 = lfs_SHA256 l, lfs_OID = lfs_SHA256 l, lfs_Size = lfs_Size l,
                                 lfs_PointerSize = lfs_PointerSize l\<rparr>) (fe_LFS f)\<rparr>"

definition dir_entry :: "(byte list \<Rightarrow> string) \<Rightarrow> string \<Rightarrow> string \<Rightarrow> TreeEntry" where
  "dir_entry sha1 commitSHA p =
     \<lparr>te_Type = ''directory'', te_OID = syntheticOID sha1 commitSHA p, te_Size = 0, te_Path = p, te_LFS = None\<rparr>"

text \<open>The path of a file relative to the listed directory; \<open>None\<close> if it is not below it.\<close>

definition rel_to :: "string \<Rightarrow> string \<Rightarrow> string option" where
  "rel_to pre p = (if pre \<noteq> [] then cut_prefix (pre @ ''/'') p else Some p)"

definition dir_path :: "string \<Rightarrow> string \<Rightarrow> string" where
  "dir_path pre head = (if pre \<noteq> [] then pre @ ''/'' @ head else head)"

fun tree_loop ::
  "(byte list \<Rightarrow> string) \<Rightarrow> string \<Rightarrow> string \<Rightarrow> bool \<Rightarrow> FileEntry list \<Rightarrow> string list \<Rightarrow> TreeEntry list \<Rightarrow> TreeEntry list" where
  "tree_loop sha1 commitSHA pre recursive [] dirs out = out"
| "tree_loop sha1 commitSHA pre recursive (f # fs) dirs out =
     (case rel_to pre (fe_Path f) of
        None \<Rightarrow> tree_loop sha1 commitSHA pre recursive fs dirs out
      | Some rel \<Rightarrow>
          (case cut_on CHR ''/'' rel of
             Some (head, rest) \<Rightarrow>
               if \<not> recursive then
                 let p = dir_path pre head in
                 if p \<in> set dirs then tree_loop sha1 commitSHA pre recursive fs dirs out
                 else tree_loop sha1 commitSHA pre recursive fs (p # dirs)
                        (out @ [dir_entry sha1 commitSHA p])
               else tree_loop sha1 commitSHA pre recursive fs dirs (out @ [file_entry f])
           | None \<Rightarrow> tree_loop sha1 commitSHA pre recursive fs dirs (out @ [file_entry f])))"

definition treeEntries :: "(byte list \<Rightarrow> string) \<Rightarrow> Manifest \<Rightarrow> string \<Rightarrow> bool \<Rightarrow> TreeEntry list" where
  "treeEntries sha1 m pre recursive =
     sort_key te_Path (tree_loop sha1 (mf_CommitSHA m) pre recursive (mf_Files m) [] [])"

text \<open>The query parameters of a listing.\<close>

definition tree_recursive :: "(string \<Rightarrow> string) \<Rightarrow> bool" where
  "tree_recursive q \<longleftrightarrow> q ''recursive'' = ''true'' \<or> q ''recursive'' = ''True''"

definition tree_limit :: "(string \<Rightarrow> string) \<Rightarrow> int" where
  "tree_limit q =
     (case parse_int64 (q ''limit'') of
        Some v \<Rightarrow> if 0 < v \<and> v \<le> 1000 then v else 1000
      | None \<Rightarrow> 1000)"

definition tree_offset :: "(string \<Rightarrow> string) \<Rightarrow> int" where
  "tree_offset q =
     (let cur = q ''cursor'' in
      if cur = [] then 0
      else case b64_decode URLAlphabet True cur of
             None \<Rightarrow> 0
           | Some bs \<Rightarrow> (case parse_int64 (of_bytes bs) of Some v \<Rightarrow> if 0 \<le> v then v else 0 | None \<Rightarrow> 0))"

definition tree_cursor :: "int \<Rightarrow> string" where
  "tree_cursor e = b64_encode URLAlphabet True (to_bytes (format_int e))"

text \<open>The page \<open>entries[offset:end]\<close>, and the query of the next one.\<close>

definition tree_page ::
  "(string \<Rightarrow> string) \<Rightarrow> TreeEntry list \<Rightarrow> (unit, TreeEntry list \<times> (string \<Rightarrow> string) option) res" where
  "tree_page q entries =
     (let n = int (length entries); limit = tree_limit q; offset = tree_offset q;
          e = min (int64 (offset + limit)) n;
          off = (if n < offset then n else offset)
      in if off \<le> e then
           Ok (gslice (nat off) (nat e) entries,
               if e < n then Some (q(''cursor'' := tree_cursor e, ''limit'' := format_int limit)) else None)
         else Panic)"

definition handleTree ::
  "('w, 'j) Server \<Rightarrow> req_env \<Rightarrow> route \<Rightarrow> http_req \<Rightarrow> 'w sstate
   \<Rightarrow> (unit, http_resp \<times> (string \<Rightarrow> string) option) res \<times> 'w sstate" where
  "handleTree s env rt r st =
     (case resolve_manifest s env rt r st of
        (Err e, st') \<Rightarrow> (Ok (writeRelayError e, None), st')
      | (Panic, st') \<Rightarrow> (Panic, st')
      | (Ok m, st') \<Rightarrow>
          (let subpath = trim_char CHR ''/'' (Path rt);
               entries = treeEntries (rl_sha1hex (sv_relay s)) m subpath (tree_recursive (hq_Query r))
           in if subpath \<noteq> [] \<and> entries = [] then
                (Ok (writeHFError 404 ''EntryNotFound'' ''Entry not found.'', None), st')
              else (res_map (\<lambda>(page, nxt). (writeJSON 200 (TreeBody page), nxt)) (tree_page (hq_Query r) entries), st')))"

section \<open>Files\<close>

definition contentTypeFor :: "(string \<Rightarrow> string) \<Rightarrow> string \<Rightarrow> string" where
  "contentTypeFor mime p =
     (let ct = mime (path_Ext p) in
      if ct \<noteq> [] \<and> path_Ext p = ''.json'' then ct else ''application/octet-stream'')"

definition quoted :: "string \<Rightarrow> string" where
  "quoted v = [CHR 0x22] @ v @ [CHR 0x22]"

definition resolve_headers ::
  "('w, 'j) Server \<Rightarrow> route \<Rightarrow> http_req \<Rightarrow> Manifest \<Rightarrow> FileEntry \<Rightarrow> 'w \<Rightarrow> (string \<times> string) list" where
  "resolve_headers s rt r m f w =
     [(''X-Repo-Commit'', mf_CommitSHA m), (''ETag'', quoted (FileEntry_ETag f))] @
     (case fe_LFS f of
        None \<Rightarrow> []
      | Some l \<Rightarrow>
          [(''X-Linked-Etag'', quoted (lfs_SHA256 l)), (''X-Linked-Size'', format_int (fe_Size f))] @
          (case sv_xet s of
             None \<Rightarrow> []
           | Some x \<Rightarrow>
               (case xh_FileHashBySHA256 x (lfs_SHA256 l) w of
                  None \<Rightarrow> []
                | Some h \<Rightarrow>
                    [(''X-Xet-Hash'', h),
                     (''X-Xet-Refresh-Route'', base_url r @ ''/api/'' @ APIPrefix (RepoKind rt) @ ''/'' @
                        repo_string (Repo rt) @ ''/xet-read-token/'' @ mf_CommitSHA m)]))) @
     [(''Accept-Ranges'', ''bytes''), (''Content-Type'', contentTypeFor (sv_mime s) (fe_Path f)),
      (''Content-Disposition'', ''inline; filename*=UTF-8'' @ [CHR 0x27, CHR 0x27] @ path_escape (path_Base (fe_Path f)))]"

definition handleResolve ::
  "('w, 'j) Server \<Rightarrow> req_env \<Rightarrow> route \<Rightarrow> http_req \<Rightarrow> 'w sstate \<Rightarrow> 'w outcome" where
  "handleResolve s env rt r st =
     (let token = bearerToken r in
      case resolve_manifest s env rt r st of
        (Err e, st1) \<Rightarrow> (Ok (writeRelayError e), st1)
      | (Panic, st1) \<Rightarrow> (Panic, st1)
      | (Ok m, st1) \<Rightarrow>
          (case EnsureEntry (sv_relay s) (RepoKind rt) (Repo rt) m (Path rt) token (st_world st1) of
             (Err e, m1, w) \<Rightarrow> (Ok (writeRelayError e), st1\<lparr>st_world := w\<rparr>)
           | (Panic, m1, w) \<Rightarrow> (Panic, st1\<lparr>st_world := w\<rparr>)
           | (Ok i, m1, w) \<Rightarrow>
               (let f = mf_Files m1 ! i; h = resolve_headers s rt r m1 f w; st2 = st1\<lparr>st_world := w\<rparr> in
                if hq_Method r = ''HEAD'' then
                  (Ok \<lparr>sr_Status = 200, sr_Header = h @ [(''Content-Length'', format_int (fe_Size f))],
                       sr_Body = NoBody\<rparr>, st2)
                else if \<not> en_slot env then
                  (Ok (set_headers h (writeHFError 503 [] ''Server is at its concurrent download limit.'')), st2)
                else
                  case Relay_OpenFile (en_blobFlight env) (sv_relay s) (RepoKind rt) (Repo rt) m1 (Path rt) token w of
                    (Err e, m2, w2) \<Rightarrow> (Ok (set_headers h (writeRelayError e)), st2\<lparr>st_world := w2\<rparr>)
                  | (Panic, m2, w2) \<Rightarrow> (Panic, st2\<lparr>st_world := w2\<rparr>)
                  | (Ok (content, _, src), m2, w2) \<Rightarrow>
                      (Ok \<lparr>sr_Status = 200, sr_Header = h, sr_Body = ServeContent content (mf_CreatedAt m2)\<rparr>,
                       st2\<lparr>st_world := w2\<rparr>))))"

section \<open>Tokens, identity, model cards, health\<close>

definition handleXetToken ::
  "('w, 'j) Server \<Rightarrow> req_env \<Rightarrow> route \<Rightarrow> http_req \<Rightarrow> 'w sstate \<Rightarrow> 'w outcome" where
  "handleXetToken s env rt r st =
     (case sv_xet s of
        None \<Rightarrow> (Ok (writeHFError 404 [] ''Xet is not enabled on this endpoint. Set HF_HUB_DISABLE_XET=1 to upload via LFS, or enable xet in the Shpiel config.''), st)
      | Some x \<Rightarrow>
          (let scope = Path rt;
               reply = (\<lambda>actor st'. (Ok \<lparr>sr_Status = 200,
                          sr_Header = xh_WriteTokenResponse x r scope (RepoKind rt) (Repo rt) actor,
                          sr_Body = XetTokenBody\<rparr>, st'))
           in if scope = ''write'' then with_actor s (en_now env) r reply st
              else if scope = ''read'' \<and> sv_authMode s = ''passthrough'' then
                (case validateToken s (en_now env) (bearerToken r) st of
                   (Ok (True, name), st') \<Rightarrow> reply name st'
                 | (Panic, st') \<Rightarrow> (Panic, st')
                 | (_, st') \<Rightarrow> (Ok (writeHFError 401 [] ''Invalid user token.''), st'))
              else reply ''anonymous'' st))"

definition handleWhoAmI :: "('w, 'j) Server \<Rightarrow> http_req \<Rightarrow> 'w sstate \<Rightarrow> 'w outcome" where
  "handleWhoAmI s r st =
     (case (sv_authMode s = ''passthrough'', sv_upstream s) of
        (True, Some u) \<Rightarrow>
          (let token = bearerToken r in
           if token = [] then (Ok (writeHFError 401 [] ''Invalid credentials in Authorization header''), st)
           else case Upstream_WhoAmI (uc_http u) (uc_version u) (uc_client u) token (st_world st) of
                  (Err _, w) \<Rightarrow> (Ok (writeHFError 502 [] ''Upstream whoami failed.''), st\<lparr>st_world := w\<rparr>)
                | (Panic, w) \<Rightarrow> (Panic, st\<lparr>st_world := w\<rparr>)
                | (Ok (status, bd), w) \<Rightarrow> (Ok (writeJSON status (RawBody bd)), st\<lparr>st_world := w\<rparr>))
      | _ \<Rightarrow> (Ok (writeJSON 200 WhoAmIBody), st))"

text \<open>
  \<open>cardYAMLBlock\<close>: the first group takes as many line ends as lead to a match,
  the second as few characters as possible.
\<close>

definition is_nl :: "char \<Rightarrow> bool" where
  "is_nl c \<longleftrightarrow> c = CHR 0x0A \<or> c = CHR 0x0D"

definition re_space :: "char \<Rightarrow> bool" where
  "re_space c \<longleftrightarrow> c = CHR 0x09 \<or> c = CHR 0x0A \<or> c = CHR 0x0C \<or> c = CHR 0x0D \<or> c = CHR '' ''"

definition closes_card :: "string \<Rightarrow> bool" where
  "closes_card s \<longleftrightarrow>
     s \<noteq> [] \<and> is_nl (hd s) \<and>
     (let t = dropWhile is_nl s; u = drop 3 t in
      has_prefix ''---'' t \<and> (u = [] \<or> has_prefix [CHR 0x0D, CHR 0x0A] u \<or> has_prefix [CHR 0x0A] u))"

fun card_body :: "string \<Rightarrow> string option" where
  "card_body s =
     (if closes_card s then Some []
      else case s of [] \<Rightarrow> None | c # cs \<Rightarrow> map_option (Cons c) (card_body cs))"

declare card_body.simps [simp del]

fun card_from :: "nat \<Rightarrow> string \<Rightarrow> string option" where
  "card_from 0 s = None"
| "card_from (Suc k) s =
     (case card_body (drop (Suc k) s) of Some b \<Rightarrow> Some b | None \<Rightarrow> card_from k s)"

definition cardYAMLBlock :: "string \<Rightarrow> string option" where
  "cardYAMLBlock content =
     (let s = dropWhile re_space content in
      if has_prefix ''---'' s then
        (let t = drop 3 s in card_from (length (takeWhile is_nl t)) t)
      else None)"

definition validateCardYAML :: "(string \<Rightarrow> (string, bool option) res) \<Rightarrow> string \<Rightarrow> (string, string) res" where
  "validateCardYAML yaml content =
     (let emptyMetadata = ''empty or missing yaml metadata in card'' in
      case cardYAMLBlock content of
        None \<Rightarrow> Ok emptyMetadata
      | Some b \<Rightarrow>
          (case yaml b of
             Err e \<Rightarrow> Err (''invalid YAML in card metadata: '' @ e)
           | Panic \<Rightarrow> Panic
           | Ok None \<Rightarrow> Ok emptyMetadata
           | Ok (Some mapping) \<Rightarrow> if mapping then Ok [] else Err ''card metadata must be a YAML mapping''))"

definition maxInlineFileSize :: nat where
  "maxInlineFileSize = 10 * 2 ^ 20"

definition handleValidateYAML :: "('w, 'j) Server \<Rightarrow> http_req \<Rightarrow> (unit, http_resp) res" where
  "handleValidateYAML s r =
     (let isJSON = sublist ''json'' (hq_Header r ''Content-Type'') in
      case (if isJSON then sv_dec_card s maxInlineFileSize (hq_Body r)
            else sv_form_content s maxInlineFileSize (hq_Body r)) of
        None \<Rightarrow> Ok (writeHFError 400 ''BadRequest'' (if isJSON then ''Invalid JSON body.'' else ''Invalid form body.''))
      | Some content \<Rightarrow>
          (case validateCardYAML (sv_yaml s) content of
             Panic \<Rightarrow> Panic
           | Err e \<Rightarrow> Ok (hf_error 400 ''BadRequest'' (CardBody [] [e]))
           | Ok warning \<Rightarrow> Ok (writeJSON 200 (CardBody (if warning \<noteq> [] then [warning] else []) []))))"

definition text_resp :: "nat \<Rightarrow> string \<Rightarrow> http_resp" where
  "text_resp status b = \<lparr>sr_Status = status, sr_Header = [(''Content-Type'', ''text/plain'')], sr_Body = TextBody b\<rparr>"

definition handleHealthz :: "'w sstate \<Rightarrow> 'w outcome" where
  "handleHealthz st = (Ok (text_resp 200 ''ok''), st)"

definition handleRoot :: "'w sstate \<Rightarrow> 'w outcome" where
  "handleRoot st = (Ok (writeJSON 200 RootBody), st)"

text \<open>The body names every backend that does not answer.\<close>

definition handleReadyz :: "('w, 'j) Server \<Rightarrow> 'w sstate \<Rightarrow> (unit, http_resp) res" where
  "handleReadyz s st =
     (case Relay_Ping (sv_relay s) (st_world st) of
        Ok _ \<Rightarrow> Ok (text_resp 200 ''ready'')
      | Err es \<Rightarrow> Ok (text_resp 503 (concat (map (\<lambda>(n, _). ''backend '' @ n) es)))
      | Panic \<Rightarrow> Panic)"

end
