(* ===== verification/Server_Write.thy ===== *)
theory Server_Write
  imports Server
begin

text \<open>
  Package internal/server: the write side (write_handlers.go), the admin API
  (admin.go) and the dispatch on the Hub's URL grammar (server.go). The commit
  payload is read line by line as \<open>bufio.Scanner\<close> does on a limited reader.
  \<open>strings.ToLower\<close> is the ASCII one. An audit record is kept without its
  detail map.
\<close>

section \<open>Repositories\<close>

definition repoFromCreatePayload :: "string \<Rightarrow> string \<Rightarrow> (id_error, repo_id) res" where
  "repoFromCreatePayload name organization =
     ParseRepoID (if organization \<noteq> [] \<and> CHR ''/'' \<notin> set name then organization @ ''/'' @ name else name)"

definition repo_event :: "string \<Rightarrow> string \<Rightarrow> repo_id \<Rightarrow> audit_rec" where
  "repo_event action actor repo =
     \<lparr>au_Action = action, au_Actor = actor, au_Repo = repo_string repo,
      au_Revision = [], au_Commit = [], au_Digest = []\<rparr>"

text \<open>The common head of the two repository handlers: the decoded kind and identifier.\<close>

definition repo_payload :: "CreateRepoRequest option \<Rightarrow> (http_resp, repo_kind \<times> repo_id) res" where
  "repo_payload dec =
     (case dec of
        None \<Rightarrow> Err (writeHFError 400 ''BadRequest'' ''Invalid JSON body.'')
      | Some req \<Rightarrow>
          (case repoKindFromType (cr_Type req) of
             None \<Rightarrow> Err (hf_error 400 ''BadRequest'' (ErrorRepoType (cr_Type req)))
           | Some kind \<Rightarrow>
               (case repoFromCreatePayload (cr_Name req) (cr_Organization req) of
                  Err e \<Rightarrow> Err (hf_error 400 ''BadRequest'' (ErrorRepoID e))
                | Panic \<Rightarrow> Panic
                | Ok repo \<Rightarrow> Ok (kind, repo))))"

definition handleCreateRepo ::
  "('w, 'j) Server \<Rightarrow> req_env \<Rightarrow> http_req \<Rightarrow> 'w sstate \<Rightarrow> 'w outcome" where
  "handleCreateRepo s env r =
     with_actor s (en_now env) r (\<lambda>actor st.
       case repo_payload (sv_dec_create s (2 ^ 20) (hq_Body r)) of
         Err resp \<Rightarrow> (Ok resp, st)
       | Panic \<Rightarrow> (Panic, st)
       | Ok (kind, repo) \<Rightarrow>
           (let repoURL = base_url r @ ''/'' @ repo_string repo in
            case on_world (Relay_CreateRepo (sv_relay s) (en_now env) kind repo) st of
              (Err e, st1) \<Rightarrow>
                (Ok (if e = RlRepoExists then writeJSON 409 (RepoConflict repoURL (repo_string repo))
                     else writeRelayError e), st1)
            | (Panic, st1) \<Rightarrow> (Panic, st1)
            | (Ok _, st1) \<Rightarrow>
                (Ok (writeJSON 200 (RepoCreated repoURL (repo_string repo))),
                 audit_Record s (repo_event ''repo_create'' actor repo) st1)))"

definition handleDeleteRepo ::
  "('w, 'j) Server \<Rightarrow> req_env \<Rightarrow> http_req \<Rightarrow> 'w sstate \<Rightarrow> 'w outcome" where
  "handleDeleteRepo s env r =
     with_actor s (en_now env) r (\<lambda>actor st.
       case repo_payload (sv_dec_delete s (2 ^ 20) (hq_Body r)) of
         Err resp \<Rightarrow> (Ok resp, st)
       | Panic \<Rightarrow> (Panic, st)
       | Ok (kind, repo) \<Rightarrow>
           (case on_world (Relay_DeleteRepo (sv_relay s) kind repo) st of
              (Err e, st1) \<Rightarrow> (Ok (writeRelayError e), st1)
            | (Panic, st1) \<Rightarrow> (Panic, st1)
            | (Ok _, st1) \<Rightarrow>
                (Ok (writeJSON 200 RepoDeleted),
                 audit_Record s (repo_event ''repo_delete'' actor repo) st1)))"

section \<open>Preupload and the LFS batch API\<close>

definition lfsExtensions :: "string list" where
  "lfsExtensions =
     [''.safetensors'', ''.bin'', ''.pt'', ''.pth'', ''.ckpt'', ''.gguf'', ''.onnx'', ''.h5'',
      ''.msgpack'', ''.parquet'', ''.arrow'', ''.npy'', ''.npz'', ''.tflite'', ''.pb'', ''.pickle'',
      ''.pkl'', ''.model'', ''.zip'', ''.tar'', ''.gz'']"

definition uploadModeFor :: "string \<Rightarrow> int \<Rightarrow> string \<Rightarrow> string" where
  "uploadModeFor p sz sampleB64 =
     (if to_lower (path_Ext p) \<in> set lfsExtensions then ''lfs''
      else if int maxInlineFileSize < sz then ''lfs''
      else case b64_decode StdAlphabet True sampleB64 of
             Some sample \<Rightarrow> if 0 \<in> set sample then ''lfs'' else ''regular''
           | None \<Rightarrow> ''regular'')"

definition handlePreupload ::
  "('w, 'j) Server \<Rightarrow> req_env \<Rightarrow> route \<Rightarrow> http_req \<Rightarrow> 'w sstate \<Rightarrow> 'w outcome" where
  "handlePreupload s env rt r =
     with_actor s (en_now env) r (\<lambda>_ st.
       case resolve_manifest s env rt r st of
         (Err e, st1) \<Rightarrow> (Ok (writeRelayError e), st1)
       | (Panic, st1) \<Rightarrow> (Panic, st1)
       | (Ok _, st1) \<Rightarrow>
           (Ok (case sv_dec_preupload s (32 * 2 ^ 20) (hq_Body r) of
                  None \<Rightarrow> writeHFError 400 ''BadRequest'' ''Invalid JSON body.''
                | Some files \<Rightarrow>
                    writeJSON 200 (PreuploadBody
                      (map (\<lambda>f. (pu_Path f, uploadModeFor (pu_Path f) (pu_Size f) (pu_Sample f))) files))), st1))"

definition isSHA256Hex :: "string \<Rightarrow> bool" where
  "isSHA256Hex t \<longleftrightarrow> length t = 64 \<and> list_all is_lower_hex t"

definition upload_href :: "http_req \<Rightarrow> route \<Rightarrow> LFSBatchObject \<Rightarrow> string" where
  "upload_href r rt ob =
     base_url r @ ''/shpiel-lfs/'' @ APIPrefix (RepoKind rt) @ ''/'' @ repo_string (Repo rt) @ ''/'' @
     bo_OID ob @ ''?size='' @ format_int (bo_Size ob)"

definition batch_object ::
  "('w, 'j) Server \<Rightarrow> route \<Rightarrow> http_req \<Rightarrow> 'w \<Rightarrow> LFSBatchObject \<Rightarrow> LFSBatchObject \<times> batch_action" where
  "batch_object s rt r w ob =
     (ob,
      if \<not> isSHA256Hex (bo_OID ob) then BatchError 422 ''oid must be 64 hex chars (sha256)''
      else if HasLFSBlob (sv_relay s) (RepoKind rt) (Repo rt) (bo_OID ob) w then BatchNone
      else BatchUpload (upload_href r rt ob)
             (let auth = hq_Header r ''Authorization'' in
              if auth \<noteq> [] then [(''Authorization'', auth)] else []))"

definition handleLFSBatch ::
  "('w, 'j) Server \<Rightarrow> req_env \<Rightarrow> route \<Rightarrow> http_req \<Rightarrow> 'w sstate \<Rightarrow> 'w outcome" where
  "handleLFSBatch s env rt r =
     with_actor s (en_now env) r (\<lambda>_ st.
       (Ok (case sv_dec_batch s (32 * 2 ^ 20) (hq_Body r) of
              None \<Rightarrow> writeHFError 400 ''BadRequest'' ''Invalid JSON body.''
            | Some req \<Rightarrow>
                if bq_Operation req \<noteq> ''upload'' then
                  writeHFError 422 [] ''Only the upload operation is supported.''
                else \<lparr>sr_Status = 200, sr_Header = [(''Content-Type'', ''application/vnd.git-lfs+json'')],
                       sr_Body = BatchBody (map (batch_object s rt r (st_world st)) (bq_Objects req))\<rparr>), st))"

text \<open>The path values \<open>kind\<close> and \<open>rest\<close> come from the mux pattern.\<close>

definition lfs_upload_target ::
  "string \<Rightarrow> string \<Rightarrow> (http_resp, repo_kind \<times> repo_id \<times> string) res" where
  "lfs_upload_target kind rest =
     (let segs = split_on CHR ''/'' (trim_char CHR ''/'' rest) in
      if length segs < 2 \<or> 3 < length segs then Err (writeHFError 404 [] ''Not found.'')
      else case (if kind = ''models'' then Some RepoKindModel
                 else if kind = ''datasets'' then Some RepoKindDataset else None) of
        None \<Rightarrow> Err (writeHFError 404 [] ''Not found.'')
      | Some k \<Rightarrow>
          (let oid = last segs in
           case ParseRepoID (join_on ''/'' (butlast segs)) of
             Ok repo \<Rightarrow>
               if isSHA256Hex oid then Ok (k, repo, oid)
               else Err (writeHFError 400 ''BadRequest'' ''Invalid LFS upload path.'')
           | _ \<Rightarrow> Err (writeHFError 400 ''BadRequest'' ''Invalid LFS upload path.'')))"

definition handleLFSUpload ::
  "('w, 'j) Server \<Rightarrow> req_env \<Rightarrow> string \<Rightarrow> string \<Rightarrow> http_req \<Rightarrow> 'w sstate \<Rightarrow> 'w outcome" where
  "handleLFSUpload s env kind rest r =
     with_actor s (en_now env) r (\<lambda>actor st.
       case lfs_upload_target kind rest of
         Err resp \<Rightarrow> (Ok resp, st)
       | Panic \<Rightarrow> (Panic, st)
       | Ok (k, repo, oid) \<Rightarrow>
           (let sz = (case parse_int64 (hq_Query r ''size'') of Some v \<Rightarrow> v | None \<Rightarrow> -1) in
            if \<not> en_slot env then
              (Ok (writeHFError 503 [] ''Server is at its concurrent upload limit.''), st)
            else case on_world (PutLFSBlob (sv_relay s) k repo oid sz (hq_Body r)) st of
              (Err e, st1) \<Rightarrow> (Ok (writeRelayError e), st1)
            | (Panic, st1) \<Rightarrow> (Panic, st1)
            | (Ok _, st1) \<Rightarrow>
                (Ok \<lparr>sr_Status = 200, sr_Header = [], sr_Body = NoBody\<rparr>,
                 audit_Record s ((repo_event ''lfs_upload'' actor repo)\<lparr>au_Digest := ''sha256:'' @ oid\<rparr>) st1)))"

section \<open>Commits\<close>

text \<open>
  The scanner. A line is what ends with a line feed or with the input; one of
  \<open>maxLine\<close> bytes or more stops the scanner. At the reader's limit the rest of the
  buffer still comes as a line, and the error shows after it.
\<close>

definition maxLine :: nat where
  "maxLine = 10 * 2 ^ 20 * 3 div 2 + 2 ^ 20"

definition maxCommitBody :: nat where
  "maxCommitBody = 512 * 2 ^ 20"

definition scan_token :: "string \<Rightarrow> string" where
  "scan_token line = trim_space (trim_suffix [CHR 0x0D] line)"

definition empty_ops :: CommitOps where
  "empty_ops = \<lparr>co_Summary = [], co_ParentCommit = [], co_Files = [], co_LFSFiles = [],
                co_DeletedFiles = [], co_DeletedFolders = []\<rparr>"

text \<open>One line; the flag says whether a header was seen.\<close>

definition commit_line ::
  "('w, 'j) Server \<Rightarrow> string \<Rightarrow> CommitOps \<times> bool \<Rightarrow> (ndjson_error, CommitOps \<times> bool) res" where
  "commit_line s line acc =
     (case acc of (ops, sawHeader) \<Rightarrow>
      case sv_line s line of
        None \<Rightarrow> Err NdLine
      | Some (key, v) \<Rightarrow>
          if key = ''header'' then
            (case sv_header s v of
               None \<Rightarrow> Err NdHeader
             | Some (summary, parent) \<Rightarrow> Ok (ops\<lparr>co_Summary := summary, co_ParentCommit := parent\<rparr>, True))
          else if key = ''file'' then
            (case sv_file s v of
               None \<Rightarrow> Err NdFile
             | Some (path, enc, content) \<Rightarrow>
                 if enc \<noteq> [] \<and> enc \<noteq> ''base64'' then Err (NdEncoding enc)
                 else (case b64_decode StdAlphabet True content of
                   None \<Rightarrow> Err (NdBase64 path)
                 | Some bs \<Rightarrow>
                     if maxInlineFileSize < length bs then Err (NdInlineLimit path)
                     else Ok (ops\<lparr>co_Files := co_Files ops @ [\<lparr>cf_Path = path, cf_Content = bs\<rparr>]\<rparr>, sawHeader)))
          else if key = ''lfsFile'' then
            (case sv_lfs s v of
               None \<Rightarrow> Err NdLfsFile
             | Some (path, algo, oid, sz) \<Rightarrow>
                 if algo \<noteq> [] \<and> algo \<noteq> ''sha256'' then Err (NdAlgo path algo)
                 else if \<not> isSHA256Hex oid then Err (NdOID path)
                 else Ok (ops\<lparr>co_LFSFiles := co_LFSFiles ops @ [\<lparr>cl_Path = path, cl_OID = oid, cl_Size = sz\<rparr>]\<rparr>,
                          sawHeader))
          else if key = ''deletedFile'' then
            (case sv_deleted s v of
               None \<Rightarrow> Err NdDeletedFile
             | Some path \<Rightarrow> Ok (ops\<lparr>co_DeletedFiles := co_DeletedFiles ops @ [path]\<rparr>, sawHeader))
          else if key = ''deletedFolder'' then
            (case sv_deleted s v of
               None \<Rightarrow> Err NdDeletedFolder
             | Some path \<Rightarrow> Ok (ops\<lparr>co_DeletedFolders := co_DeletedFolders ops @ [path]\<rparr>, sawHeader))
          else Err (NdKey key))"

fun commit_lines ::
  "('w, 'j) Server \<Rightarrow> string list \<Rightarrow> bool \<Rightarrow> CommitOps \<times> bool \<Rightarrow> (ndjson_error, CommitOps) res" where
  "commit_lines s [] truncated acc =
     (if truncated then Err NdRead else if \<not> snd acc then Err NdNoHeader else Ok (fst acc))"
| "commit_lines s (line # rest) truncated acc =
     (if maxLine \<le> length line then Err NdRead
      else if scan_token line = [] then commit_lines s rest truncated acc
      else case commit_line s (scan_token line) acc of
             Err e \<Rightarrow> Err e
           | Panic \<Rightarrow> Panic
           | Ok acc' \<Rightarrow> commit_lines s rest truncated acc')"

definition parseCommitNDJSON :: "('w, 'j) Server \<Rightarrow> byte list \<Rightarrow> (ndjson_error, CommitOps) res" where
  "parseCommitNDJSON s body =
     commit_lines s (split_on CHR 0x0A (of_bytes (take maxCommitBody body))) (maxCommitBody < length body)
       (empty_ops, False)"

definition handleCommit ::
  "('w, 'j) Server \<Rightarrow> req_env \<Rightarrow> route \<Rightarrow> http_req \<Rightarrow> 'w sstate \<Rightarrow> 'w outcome" where
  "handleCommit s env rt r =
     with_actor s (en_now env) r (\<lambda>actor st.
       if hq_Query r ''create_pr'' = ''1'' then
         (Ok (writeHFError 400 ''BadRequest'' ''Pull requests are not supported by Shpiel.''), st)
       else case parseCommitNDJSON s (hq_Body r) of
         Err e \<Rightarrow> (Ok (hf_error 400 ''BadRequest'' (ErrorNdjson e)), st)
       | Panic \<Rightarrow> (Panic, st)
       | Ok ops \<Rightarrow>
           (case on_world (Commit (sv_relay s) (en_now env) (RepoKind rt) (Repo rt) (revision_of rt) ops) st of
              (Err e, st1) \<Rightarrow> (Ok (writeRelayError e), st1)
            | (Panic, st1) \<Rightarrow> (Panic, st1)
            | (Ok sha, st1) \<Rightarrow>
                (Ok (writeJSON 200 (CommitBody
                      (base_url r @ ''/'' @ repo_string (Repo rt) @ ''/commit/'' @ sha) sha)),
                 audit_Record s ((repo_event ''commit'' actor (Repo rt))
                                   \<lparr>au_Revision := revision_of rt, au_Commit := sha\<rparr>) st1)))"

section \<open>Admin API (admin.go)\<close>

definition requireAuth :: "('w, 'j) Server \<Rightarrow> http_req \<Rightarrow> ('w sstate \<Rightarrow> 'w outcome) \<Rightarrow> 'w sstate \<Rightarrow> 'w outcome" where
  "requireAuth s r nxt st =
     (if bearerToken r \<noteq> sv_adminToken s then (Ok (writeHFError 401 [] ''Invalid admin token.''), st)
      else nxt st)"

definition backend_status :: "'w Backend \<Rightarrow> 'w \<Rightarrow> string \<times> backend_error option" where
  "backend_status bk w = (bk_Name bk, case bk_Ping bk w of Err e \<Rightarrow> Some e | _ \<Rightarrow> None)"

definition handleAdminBackends :: "('w, 'j) Server \<Rightarrow> http_req \<Rightarrow> 'w sstate \<Rightarrow> 'w outcome" where
  "handleAdminBackends s r =
     requireAuth s r (\<lambda>st.
       (Ok (writeJSON 200 (BackendsBody (map (\<lambda>bk. backend_status bk (st_world st)) (Relay_Backends (sv_relay s))))), st))"

definition handleAdminReplication :: "('w, 'j) Server \<Rightarrow> http_req \<Rightarrow> 'w sstate \<Rightarrow> 'w outcome" where
  "handleAdminReplication s r =
     requireAuth s r (\<lambda>st.
       (Ok (writeJSON 200 (case sv_repl s of
              None \<Rightarrow> ReplicationBody False 0 []
            | Some q \<Rightarrow> ReplicationBody True (rh_Depth q (st_world st)) (rh_Snapshot q (st_world st)))), st))"

definition handleAdminReplicationRetry ::
  "('w, 'j) Server \<Rightarrow> req_env \<Rightarrow> http_req \<Rightarrow> 'w sstate \<Rightarrow> 'w outcome" where
  "handleAdminReplicationRetry s env r =
     requireAuth s r (\<lambda>st.
       case sv_repl s of
         None \<Rightarrow> (Ok (writeJSON 200 (KickedBody 0)), st)
       | Some q \<Rightarrow>
           (case on_world (rh_RetryNow q (en_now env)) st of
              (n, st1) \<Rightarrow>
                (Ok (writeJSON 200 (KickedBody n)),
                 audit_Record s \<lparr>au_Action = ''admin_replication_retry'', au_Actor = ''admin'', au_Repo = [],
                                 au_Revision = [], au_Commit = [], au_Digest = []\<rparr> st1)))"

section \<open>Dispatch (server.go)\<close>

definition dispatchHF :: "('w, 'j) Server \<Rightarrow> req_env \<Rightarrow> http_req \<Rightarrow> 'w sstate \<Rightarrow> 'w outcome" where
  "dispatchHF s env r st =
     (case ParseRoute (hq_EscapedPath r) of
        None \<Rightarrow> (Ok (writeHFError 404 [] ''Not found.''), st)
      | Some rt \<Rightarrow>
          if RepoKind rt \<noteq> RepoKindModel then
            (Ok (writeHFError 404 ''RepoNotFound'' ''Dataset repos are not supported yet.''), st)
          else let k = Kind rt; m = hq_Method r in
            if k = RouteRepoInfo \<and> m = ''GET'' then handleModelInfo s env rt r st
            else if k = RouteTree \<and> m = ''GET'' then
              (case handleTree s env rt r st of (resp, st') \<Rightarrow> (res_map fst resp, st'))
            else if k = RouteResolve \<and> (m = ''GET'' \<or> m = ''HEAD'') then handleResolve s env rt r st
            else if k = RoutePreupload \<and> m = ''POST'' then handlePreupload s env rt r st
            else if k = RouteCommit \<and> m = ''POST'' then handleCommit s env rt r st
            else if k = RouteLFSBatch \<and> m = ''POST'' then handleLFSBatch s env rt r st
            else if k = RouteXetToken then handleXetToken s env rt r st
            else (Ok (writeHFError 405 [] ''Method not allowed.''), st))"

end
