(* ===== verification/Server_Auth.thy ===== *)
theory Server_Auth
  imports Server_Write
begin

text \<open>
  Passthrough authentication over time: the verdicts the upstream gave, the cache
  that keeps them, and what a write request is granted on.
\<close>

section \<open>The cache\<close>

lemma length_delete_le: "length (AList.delete k xs) \<le> length xs"
  by (simp add: AList.delete_eq)

lemma length_update_le: "length (AList.update k v xs) \<le> Suc (length xs)"
  by (induction xs) auto

lemma tv_get_length: "tv_get now token es = (v, es') \<Longrightarrow> length es' \<le> length es"
  using length_delete_le [of token es] by (auto simp: tv_get_def split: option.splits if_splits)

lemma tv_get_sub: "tv_get now token es = (v, es') \<Longrightarrow> map_of es' \<subseteq>\<^sub>m map_of es"
  by (auto simp: tv_get_def delete_conv' map_le_def split: option.splits if_splits)

lemma tv_get_Some: "tv_get now token es = (Some v, es') \<Longrightarrow>
    map_of es token = Some v \<and> now \<le> tv_expires v \<and> es' = es"
  by (auto simp: tv_get_def split: option.splits if_splits)

lemma tv_put_length: "length es \<le> 10001 \<Longrightarrow> length (tv_put ttl now token ok name es) \<le> 10001"
  using length_update_le [of token "\<lparr>tv_ok = ok, tv_name = name, tv_expires = now + ttl\<rparr>" es]
  by (auto simp: tv_put_def Let_def)

lemma tv_put_lookup:
  "map_of (tv_put ttl now token ok name es) t = Some v \<Longrightarrow>
    (t = token \<and> v = \<lparr>tv_ok = ok, tv_name = name, tv_expires = now + ttl\<rparr>) \<or> map_of es t = Some v"
  by (auto simp: tv_put_def Let_def update_conv' split: if_splits)

section \<open>Histories\<close>

text \<open>
  One answer of the upstream about a token: when, which, and the status and body.
  \<open>asked\<close> is what a validation asks: nothing when the cache answers.
\<close>

type_synonym verdict_event = "int \<times> string \<times> nat \<times> byte list"

definition asked :: "('w, 'j) Server \<Rightarrow> int \<Rightarrow> string \<Rightarrow> 'w sstate \<Rightarrow> verdict_event list" where
  "asked s now token st =
     (case (fst (tv_get now token (st_tokens st)), sv_upstream s) of
        (None, Some u) \<Rightarrow>
          (case fst (Upstream_WhoAmI (uc_http u) (uc_version u) (uc_client u) token (st_world st)) of
             Ok (status, bd) \<Rightarrow> [(now, token, status, bd)]
           | _ \<Rightarrow> [])
      | _ \<Rightarrow> [])"

definition whoami_name :: "('w, 'j) Server \<Rightarrow> byte list \<Rightarrow> string" where
  "whoami_name s bd = (case sv_whoami_name s bd of None \<Rightarrow> [] | Some n \<Rightarrow> n)"

definition verdict_of :: "('w, 'j) Server \<Rightarrow> verdict_event \<Rightarrow> tokenVerdict" where
  "verdict_of s ev =
     (case ev of (t, _, status, bd) \<Rightarrow>
        \<lparr>tv_ok = (status = 200), tv_name = (if status = 200 then whoami_name s bd else []),
         tv_expires = t + sv_ttl s\<rparr>)"

text \<open>
  The runs of a server: it starts with an empty cache, validates tokens in any
  order, and between validations the world and the audit trail change freely.
\<close>

inductive token_run :: "('w, 'j) Server \<Rightarrow> 'w sstate \<Rightarrow> verdict_event list \<Rightarrow> bool" for s where
  start: "st_tokens st = [] \<Longrightarrow> token_run s st []"
| validate: "token_run s st h \<Longrightarrow> validateToken s now token st = (v, st') \<Longrightarrow>
    token_run s st' (h @ asked s now token st)"
| other: "token_run s st h \<Longrightarrow> st_tokens st' = st_tokens st \<Longrightarrow> token_run s st' h"

definition cache_vouched :: "('w, 'j) Server \<Rightarrow> 'w sstate \<Rightarrow> verdict_event list \<Rightarrow> bool" where
  "cache_vouched s st h \<longleftrightarrow>
     length (st_tokens st) \<le> 10001 \<and>
     (\<forall>token v. map_of (st_tokens st) token = Some v \<longrightarrow>
        (\<exists>ev \<in> set h. fst (snd ev) = token \<and> v = verdict_of s ev))"

text \<open>The cases of a validation: the cache answers, nobody does, or the upstream does.\<close>

lemma validateToken_cases:
  assumes "validateToken s now token st = (v, st')"
  shows "(\<exists>tv. tv_get now token (st_tokens st) = (Some tv, st_tokens st) \<and> v = Ok (tv_ok tv, tv_name tv) \<and>
            st' = st \<and> asked s now token st = []) \<or>
    (\<exists>es. tv_get now token (st_tokens st) = (None, es) \<and> st_tokens st' = es \<and> asked s now token st = [] \<and>
       (\<forall>name. v \<noteq> Ok (True, name))) \<or>
    (\<exists>es status bd. tv_get now token (st_tokens st) = (None, es) \<and>
       asked s now token st = [(now, token, status, bd)] \<and>
       v = Ok (status = 200, if status = 200 then whoami_name s bd else []) \<and>
       st_tokens st' = tv_put (sv_ttl s) now token (status = 200) (if status = 200 then whoami_name s bd else []) es)"
proof -
  obtain tv es where g: "tv_get now token (st_tokens st) = (tv, es)" by (cases "tv_get now token (st_tokens st)")
  show ?thesis
  proof (cases tv)
    case (Some x)
    then have "es = st_tokens st" using tv_get_Some g by blast
    then show ?thesis using assms g Some by (simp add: validateToken_def asked_def)
  next
    case None
    show ?thesis
    proof (cases "sv_upstream s")
      case None
      with assms g \<open>tv = None\<close> show ?thesis by (auto simp: validateToken_def asked_def)
    next
      case (Some u)
      obtain a w where a: "Upstream_WhoAmI (uc_http u) (uc_version u) (uc_client u) token (st_world st) = (a, w)"
        by (cases "Upstream_WhoAmI (uc_http u) (uc_version u) (uc_client u) token (st_world st)")
      show ?thesis
      proof (cases a)
        case (Ok z)
        then show ?thesis using assms g \<open>tv = None\<close> Some a
          by (cases z) (auto simp: validateToken_def asked_def whoami_name_def Let_def)
      qed (use assms g \<open>tv = None\<close> Some a in \<open>auto simp: validateToken_def asked_def\<close>)
    qed
  qed
qed

lemma cache_vouched_validate:
  assumes "cache_vouched s st h" and "validateToken s now token st = (v, st')"
  shows "cache_vouched s st' (h @ asked s now token st)"
  using validateToken_cases [OF assms(2)]
proof (elim disjE exE conjE, goal_cases)
  case (1 tv)
  with assms(1) show ?case by simp
next
  case (2 es)
  with assms(1) tv_get_sub [OF 2(1)] tv_get_length [OF 2(1)] show ?case
    by (auto simp: cache_vouched_def map_le_def dom_def)
next
  case (3 es status bd)
  let ?v = "\<lparr>tv_ok = (status = 200), tv_name = (if status = 200 then whoami_name s bd else []),
            tv_expires = now + sv_ttl s\<rparr>"
  have ev: "verdict_of s (now, token, status, bd) = ?v" by (simp add: verdict_of_def)
  have old: "\<exists>ev \<in> set h. fst (snd ev) = t \<and> x = verdict_of s ev" if "map_of es t = Some x" for t x
    using that assms(1) tv_get_sub [OF 3(1)] unfolding cache_vouched_def map_le_def by (metis domI)
  have len: "length es \<le> 10001"
    using assms(1) tv_get_length [OF 3(1)] by (simp add: cache_vouched_def)
  show ?case unfolding cache_vouched_def 3(2,4)
  proof (intro conjI allI impI)
    show "length (tv_put (sv_ttl s) now token (status = 200) (if status = 200 then whoami_name s bd else []) es) \<le> 10001"
      by (rule tv_put_length [OF len])
    fix t x
    assume "map_of (tv_put (sv_ttl s) now token (status = 200) (if status = 200 then whoami_name s bd else []) es) t = Some x"
    from tv_put_lookup [OF this] show "\<exists>ev \<in> set (h @ [(now, token, status, bd)]). fst (snd ev) = t \<and> x = verdict_of s ev"
      using ev old by auto
  qed
qed

lemma token_run_vouched: "token_run s st h \<Longrightarrow> cache_vouched s st h"
proof (induction rule: token_run.induct)
  case (validate st h now token v st')
  show ?case using validate.IH validate.hyps(2) by (rule cache_vouched_validate)
qed (simp_all add: cache_vouched_def)

section \<open>The audit trail\<close>

lemma validateToken_audit: "validateToken s now token st = (v, st') \<Longrightarrow> st_audit st' = st_audit st"
  by (auto simp: validateToken_def Let_def split: prod.splits option.splits res.splits)

lemma authorizeWrite_audit: "authorizeWrite s now r st = (v, st') \<Longrightarrow> st_audit st' = st_audit st"
  by (auto simp: authorizeWrite_def Let_def dest: validateToken_audit
      split: if_splits prod.splits res.splits)

lemma on_world_audit [simp]: "on_world f st = (a, st') \<Longrightarrow> st_audit st' = st_audit st"
  by (auto simp: on_world_def split: prod.splits)

lemma writeRelayError_body [simp]:
  "sr_Body (writeRelayError e) \<noteq> CommitBody url sha" "sr_Body (writeRelayError e) \<noteq> RepoCreated url name"
  "sr_Body (writeRelayError e) \<noteq> RepoDeleted" "sr_Body (writeRelayError e) \<noteq> NoBody"
  by (cases e; simp add: writeRelayError_def writeHFError_def hf_error_def)+

lemma repo_payload_body:
  "repo_payload dec = Err resp \<Longrightarrow>
     sr_Body resp \<noteq> RepoCreated url name \<and> sr_Body resp \<noteq> RepoDeleted"
  by (auto simp: repo_payload_def writeHFError_def hf_error_def split: option.splits res.splits)

lemma lfs_upload_target_body: "lfs_upload_target kind rest = Err resp \<Longrightarrow> sr_Body resp \<noteq> NoBody"
  by (auto simp: lfs_upload_target_def writeHFError_def hf_error_def Let_def
      split: option.splits res.splits if_splits)

text \<open>
  The record a response owes: \<open>what\<close> names the action, the repository, the
  revision, the commit and the digest of a body that reports a change.
\<close>

definition audit_of ::
  "('w, 'j) Server \<Rightarrow> req_env \<Rightarrow> http_req \<Rightarrow> 'w sstate \<Rightarrow> (unit, http_resp) res
   \<Rightarrow> (body \<Rightarrow> (string \<times> string \<times> string \<times> string \<times> string) option) \<Rightarrow> audit_rec list" where
  "audit_of s env r st out what =
     (case (out, fst (authorizeWrite s (en_now env) r st)) of
        (Ok resp, Ok actor) \<Rightarrow>
          (case what (sr_Body resp) of
             Some (action, repo, revision, sha, d) \<Rightarrow>
               if sv_audit s then
                 [\<lparr>au_Action = action, au_Actor = (if actor = [] then ''anonymous'' else actor), au_Repo = repo,
                   au_Revision = revision, au_Commit = sha, au_Digest = d\<rparr>]
               else []
           | None \<Rightarrow> [])
      | _ \<Rightarrow> [])"

lemmas audit_simps = with_actor_def audit_of_def audit_Record_def repo_event_def
  writeHFError_def hf_error_def writeJSON_def

lemma commit_audit:
  "st_audit (snd (handleCommit s env rt r st)) =
     st_audit st @ audit_of s env r st (fst (handleCommit s env rt r st))
       (\<lambda>b. case b of CommitBody url sha \<Rightarrow>
          Some (''commit'', repo_string (Repo rt), revision_of rt, sha, []) | _ \<Rightarrow> None)"
proof (cases "authorizeWrite s (en_now env) r st")
  case (Pair v st1)
  with authorizeWrite_audit [OF Pair] show ?thesis
    by (cases v) (auto simp: handleCommit_def audit_simps split: res.splits prod.splits body.splits)
qed

lemma upload_audit:
  "st_audit (snd (handleLFSUpload s env kind rest r st)) =
     st_audit st @ audit_of s env r st (fst (handleLFSUpload s env kind rest r st))
       (\<lambda>b. case (b, lfs_upload_target kind rest) of (NoBody, Ok (k, repo, oid)) \<Rightarrow>
          Some (''lfs_upload'', repo_string repo, [], [], ''sha256:'' @ oid) | _ \<Rightarrow> None)"
proof (cases "authorizeWrite s (en_now env) r st")
  case (Pair v st1)
  with authorizeWrite_audit [OF Pair] show ?thesis
    by (cases v) (auto simp: handleLFSUpload_def audit_simps Let_def dest: lfs_upload_target_body
        split: res.splits prod.splits body.splits)
qed

lemma create_audit:
  "st_audit (snd (handleCreateRepo s env r st)) =
     st_audit st @ audit_of s env r st (fst (handleCreateRepo s env r st))
       (\<lambda>b. case b of RepoCreated url name \<Rightarrow> Some (''repo_create'', name, [], [], []) | _ \<Rightarrow> None)"
proof (cases "authorizeWrite s (en_now env) r st")
  case (Pair v st1)
  with authorizeWrite_audit [OF Pair] show ?thesis
    by (cases v) (auto simp: handleCreateRepo_def audit_simps Let_def dest: repo_payload_body
        split: res.splits prod.splits body.splits)
qed

lemma delete_audit:
  "st_audit (snd (handleDeleteRepo s env r st)) =
     st_audit st @ audit_of s env r st (fst (handleDeleteRepo s env r st))
       (\<lambda>b. case (b, repo_payload (sv_dec_delete s (2 ^ 20) (hq_Body r))) of (RepoDeleted, Ok (k, repo)) \<Rightarrow>
          Some (''repo_delete'', repo_string repo, [], [], []) | _ \<Rightarrow> None)"
proof (cases "authorizeWrite s (en_now env) r st")
  case (Pair v st1)
  with authorizeWrite_audit [OF Pair] show ?thesis
    by (cases v) (auto simp: handleDeleteRepo_def audit_simps Let_def dest: repo_payload_body
        split: res.splits prod.splits body.splits)
qed

section \<open>Properties\<close>

text \<open>
  Whatever tokens were validated in whatever order, the cache holds at most
  10001 verdicts, and every one of them is an answer the upstream gave for that
  very token, expiring one cache lifetime after the answer.
\<close>

theorem token_cache_vouched:
  assumes "token_run s st h"
  shows "length (st_tokens st) \<le> 10001 \<and>
    (\<forall>token v. map_of (st_tokens st) token = Some v \<longrightarrow>
       (\<exists>t status bd. (t, token, status, bd) \<in> set h \<and> tv_ok v = (status = 200) \<and> tv_expires v = t + sv_ttl s))"
  using token_run_vouched [OF assms] unfolding cache_vouched_def verdict_of_def by fastforce

text \<open>
  C8. In passthrough mode a write is granted only for a token the upstream
  accepted with status 200, either now or within the cache lifetime, and the actor
  is the name in that answer. Without an answer nothing is granted.
\<close>

theorem authorizeWrite_vouched:
  assumes "token_run s st h" and "sv_authMode s = ''passthrough''" and "sv_ttl s = newTokenValidator_ttl ttl"
    and "authorizeWrite s now r st = (Ok actor, st')"
  shows "bearerToken r \<noteq> [] \<and>
    (\<exists>t bd. (t, bearerToken r, 200, bd) \<in> set (h @ asked s now (bearerToken r) st) \<and>
       now \<le> t + sv_ttl s \<and> actor = whoami_name s bd)"
proof -
  have ttl: "0 \<le> sv_ttl s" using assms(3) by (simp add: newTokenValidator_ttl_def)
  have tok: "bearerToken r \<noteq> []" and v: "validateToken s now (bearerToken r) st = (Ok (True, actor), st')"
    using assms(2,4) by (auto simp: authorizeWrite_def Let_def split: if_splits prod.splits res.splits)
  show ?thesis
    using validateToken_cases [OF v]
  proof (elim disjE exE conjE, goal_cases)
    case (1 tv)
    then have "map_of (st_tokens st) (bearerToken r) = Some tv" "now \<le> tv_expires tv"
      using tv_get_Some by blast+
    with token_run_vouched [OF assms(1)] obtain ev where
      "ev \<in> set h" "fst (snd ev) = bearerToken r" "tv = verdict_of s ev"
      unfolding cache_vouched_def by blast
    with 1 \<open>now \<le> tv_expires tv\<close> tok show ?case
      by (cases ev) (auto simp: verdict_of_def split: if_splits)
  next
    case (3 es status bd)
    with ttl tok show ?case by (auto intro!: exI [of _ now] exI [of _ bd])
  qed auto
qed

text \<open>
  C21. Any answer of the upstream other than 200 is a verdict: a good token is
  refused with 401, not 502, when the upstream is overloaded or failing, and the
  refusal stays for the cache lifetime whatever the upstream would answer then.
\<close>

theorem failed_answer_is_cached:
  assumes "sv_authMode s = ''passthrough''" and "sv_upstream s = Some u" and "bearerToken r \<noteq> []"
    and "map_of (st_tokens st) (bearerToken r) = None"
    and "Upstream_WhoAmI (uc_http u) (uc_version u) (uc_client u) (bearerToken r) (st_world st) = (Ok (status, bd), w)"
    and "status \<noteq> 200" and "later \<le> now + sv_ttl s"
  shows "\<exists>es. authorizeWrite s now r st =
      (Err (writeHFError 401 [] ''Invalid user token.''), st\<lparr>st_world := w, st_tokens := es\<rparr>) \<and>
    authorizeWrite s later r (st\<lparr>st_world := w2, st_tokens := es\<rparr>) =
      (Err (writeHFError 401 [] ''Invalid user token.''), st\<lparr>st_world := w2, st_tokens := es\<rparr>)"
  using assms
  by (auto simp: authorizeWrite_def validateToken_def tv_get_def tv_put_def Let_def update_conv')

text \<open>
  A write that is not authorized gets the refusal and does nothing else: no
  write handler decodes its payload, calls the relay or records an event.
\<close>

theorem refused_writes_do_nothing:
  assumes "authorizeWrite s (en_now env) r st = (Err resp, st')"
  shows "handleCreateRepo s env r st = (Ok resp, st') \<and>
    handleDeleteRepo s env r st = (Ok resp, st') \<and>
    handlePreupload s env rt r st = (Ok resp, st') \<and>
    handleLFSBatch s env rt r st = (Ok resp, st') \<and>
    handleLFSUpload s env kind rest r st = (Ok resp, st') \<and>
    handleCommit s env rt r st = (Ok resp, st') \<and>
    400 \<le> sr_Status resp \<and> st_audit st' = st_audit st"
proof -
  have "400 \<le> sr_Status resp"
    using assms by (auto simp: authorizeWrite_def writeHFError_def hf_error_def Let_def
        split: if_splits prod.splits res.splits)
  then show ?thesis using assms authorizeWrite_audit [OF assms]
    by (simp add: handleCreateRepo_def handleDeleteRepo_def handlePreupload_def handleLFSBatch_def
        handleLFSUpload_def handleCommit_def with_actor_def)
qed


end
