(* ===== verification/Server_Commit.thy ===== *)
theory Server_Commit
  imports Server_Auth Relay_Fs
begin

text \<open>
  The write side end to end: what a commit payload can decode to, the upload
  handshake of the LFS batch API, and what the commit handler has done to a
  filesystem backend when it answers with a commit id.
\<close>

section \<open>Payloads\<close>

lemma isSHA256Hex_digest: "isSHA256Hex oid \<Longrightarrow> digestPattern (SHA256Digest oid)"
  unfolding SHA256Digest_def NewDigest_def digestPattern_iff isSHA256Hex_def
  by (intro exI [of _ "''sha256''"] exI [of _ "to_lower oid"]) simp

definition ops_ok :: "CommitOps \<Rightarrow> bool" where
  "ops_ok ops \<longleftrightarrow>
     list_all (\<lambda>f. length (cf_Content f) \<le> 10485760) (co_Files ops) \<and>
     list_all (\<lambda>f. digestPattern (SHA256Digest (cl_OID f)) \<and> to_lower (cl_OID f) = cl_OID f) (co_LFSFiles ops)"

lemma commit_line_ok:
  assumes "commit_line s line (ops, h) = Ok (ops', h')" and "ops_ok ops"
  shows "ops_ok ops'"
proof -
  have m: "maxInlineFileSize = 10485760" by (simp add: maxInlineFileSize_def)
  have x: "digestPattern (SHA256Digest oid) \<and> to_lower oid = oid" if "isSHA256Hex oid" for oid
    using that isSHA256Hex_digest by (simp add: isSHA256Hex_def)
  show ?thesis
    using assms x unfolding commit_line_def m
    by (auto simp: ops_ok_def split: option.splits if_splits)
qed

lemma commit_line_not_Panic [simp]: "commit_line s line acc \<noteq> Panic"
  by (auto simp: commit_line_def split: option.splits prod.splits)

lemma commit_lines_ok:
  "commit_lines s ls tr (ops, h) = Ok ops' \<Longrightarrow> ops_ok ops \<Longrightarrow> ops_ok ops'"
proof (induction ls arbitrary: ops h)
  case (Cons l ls)
  show ?case
  proof (cases "scan_token l = []")
    case True
    with Cons show ?thesis by (simp split: if_splits)
  next
    case False
    with Cons.prems(1) obtain ops1 h1 where l: "commit_line s (scan_token l) (ops, h) = Ok (ops1, h1)"
      and ls: "commit_lines s ls tr (ops1, h1) = Ok ops'"
      by (auto split: if_splits res.splits)
    from Cons.IH [OF ls commit_line_ok [OF l Cons.prems(2)]] show ?thesis .
  qed
qed (simp split: if_splits)

lemma commit_lines_not_Panic: "commit_lines s ls tr acc \<noteq> Panic"
  by (induction ls arbitrary: acc) (auto split: res.splits)

lemma parseCommitNDJSON_ops_ok: "parseCommitNDJSON s body = Ok ops \<Longrightarrow> ops_ok ops"
  by (auto simp: parseCommitNDJSON_def ops_ok_def empty_ops_def dest!: commit_lines_ok)

lemma parseCommitNDJSON_not_Panic: "parseCommitNDJSON s body \<noteq> Panic"
  by (simp add: parseCommitNDJSON_def commit_lines_not_Panic)

lemma ops_ok_lfs: "ops_ok ops \<Longrightarrow> \<forall>f \<in> set (co_LFSFiles ops). digestPattern (SHA256Digest (cl_OID f))"
  by (auto simp: ops_ok_def list_all_iff)

text \<open>
  C20. A commit payload decodes to operations the relay may rely on, or to an
  error: inline contents within the 10 MiB limit, LFS identifiers that are
  sha256 digests in lower case; decoding never crashes.
\<close>

theorem parseCommitNDJSON_typed:
  "case parseCommitNDJSON s body of
     Ok ops \<Rightarrow> ops_ok ops
   | Err e \<Rightarrow> True
   | Panic \<Rightarrow> False"
  using parseCommitNDJSON_ops_ok [of s body] parseCommitNDJSON_not_Panic [of s body]
  by (simp split: res.split)

section \<open>Authorization leaves the disks alone\<close>

definition upstream_off_disk :: "('x world, 'j) Server \<Rightarrow> bool" where
  "upstream_off_disk s \<longleftrightarrow>
     (\<forall>u rq w. sv_upstream s = Some u \<longrightarrow> fst (snd (uc_http u rq w)) = fst w)"

lemma whoami_disk:
  assumes "upstream_off_disk s" and "sv_upstream s = Some u"
    and "Upstream_WhoAmI (uc_http u) version c token w = (a, w')"
  shows "fst w' = fst w"
proof -
  obtain rq x y where h: "uc_http u rq w = (x, y)" "y = w'"
    using assms(3) by (auto simp: Upstream_WhoAmI_def split: prod.splits res.splits)
  then show ?thesis using assms(1,2) unfolding upstream_off_disk_def by (metis fst_conv snd_conv)
qed

lemma validateToken_disk:
  assumes "upstream_off_disk s" and "validateToken s now token st = (v, st')"
  shows "fst (st_world st') = fst (st_world st)"
  using assms(2)
  by (auto simp: validateToken_def Let_def dest!: whoami_disk [OF assms(1)]
      split: prod.splits option.splits res.splits)

lemma authorizeWrite_disk:
  "upstream_off_disk s \<Longrightarrow> authorizeWrite s now r st = (v, st') \<Longrightarrow> fst (st_world st') = fst (st_world st)"
  by (auto simp: authorizeWrite_def Let_def dest: validateToken_disk split: if_splits prod.splits res.splits)

lemma audit_Record_world [simp]: "st_world (audit_Record s ev st) = st_world st"
  by (simp add: audit_Record_def)

section \<open>Commits\<close>

text \<open>What a commit response says was done, step by step.\<close>

lemma handleCommit_run:
  assumes "handleCommit s env rt r st = (Ok resp, st')" and "sr_Body resp = CommitBody url sha"
  shows "\<exists>actor st1 ops. authorizeWrite s (en_now env) r st = (Ok actor, st1) \<and>
    parseCommitNDJSON s (hq_Body r) = Ok ops \<and>
    Commit (sv_relay s) (en_now env) (RepoKind rt) (Repo rt) (revision_of rt) ops (st_world st1) =
      (Ok sha, st_world st')"
proof -
  have a: "\<And>resp1 st1. authorizeWrite s (en_now env) r st = (Err resp1, st1) \<Longrightarrow> sr_Body resp1 \<noteq> CommitBody url sha"
    by (auto simp: authorizeWrite_def Let_def writeHFError_def hf_error_def split: if_splits prod.splits res.splits)
  show ?thesis
    using assms a
    by (auto simp: handleCommit_def with_actor_def on_world_def writeHFError_def hf_error_def writeJSON_def
        split: res.splits prod.splits if_splits)
qed

text \<open>
  C1. A commit request that is answered with a commit id has published it: the
  payload decoded, the branch resolves to the id, and the manifest behind it has
  the tree the payload describes on top of the parent's, each new file opening
  with content that matches its digest; older commits and blobs read as before. No
  assumption on the payload is needed, as its decoder establishes the digests.
\<close>

theorem handleCommit_publishes:
  assumes "handleCommit s env rt r st = (Ok resp, st')" and "sr_Body resp = CommitBody url sha"
    and "sv_relay s = world_relay routes rl" and "upstream_off_disk s"
    and "Router_For (rl_glob rl) routes (repo_string (Repo rt)) = Some route"
    and "rt_Primary route = world_backend i b" and "relay_hashes rl"
    and "fs_good b (RepoKind rt) (Repo rt) (fst (st_world st) i)"
    and "fs_ResolveRef b (RepoKind rt) (Repo rt) (revision_of rt) (fst (st_world st) i) = Ok p"
    and "fs_GetManifest b (RepoKind rt) (Repo rt) p (fst (st_world st) i) = Ok parent"
  shows "fs_ResolveRef b (RepoKind rt) (Repo rt) (revision_of rt) (fst (st_world st') i) = Ok sha \<and>
    (\<exists>ops m. parseCommitNDJSON s (hq_Body r) = Ok ops \<and>
       fs_GetManifest b (RepoKind rt) (Repo rt) sha (fst (st_world st') i) = Ok m \<and>
       sorted_wrt (<) (map fe_Path (mf_Files m)) \<and>
       (\<forall>path. map_option entry_id (tree_of (mf_Files m) path) =
               map_option entry_id (commit_tree (sv_relay s) ops (tree_of (mf_Files parent)) path)) \<and>
       (\<forall>f \<in> set (mf_Files m). f \<notin> set (mf_Files parent) \<longrightarrow>
          (\<exists>c. fs_OpenBlob b (RepoKind rt) (Repo rt) (fe_Digest f) (fst (st_world st') i) = Ok c \<and>
               blob_ok (fb_env b) (Digest_Hex (fe_Digest f)) c))) \<and>
    (\<forall>old m. IsCommitSHA old \<longrightarrow> old \<noteq> sha \<longrightarrow>
       fs_GetManifest b (RepoKind rt) (Repo rt) old (fst (st_world st) i) = Ok m \<longrightarrow>
       fs_GetManifest b (RepoKind rt) (Repo rt) old (fst (st_world st') i) = Ok m) \<and>
    (\<forall>d c. digestPattern d \<longrightarrow> fs_OpenBlob b (RepoKind rt) (Repo rt) d (fst (st_world st) i) = Ok c \<longrightarrow>
       fs_OpenBlob b (RepoKind rt) (Repo rt) d (fst (st_world st') i) = Ok c)"
proof -
  obtain actor st1 ops where auth: "authorizeWrite s (en_now env) r st = (Ok actor, st1)"
    and ops: "parseCommitNDJSON s (hq_Body r) = Ok ops"
    and run: "Commit (world_relay routes rl) (en_now env) (RepoKind rt) (Repo rt) (revision_of rt) ops (st_world st1) =
      (Ok sha, st_world st')"
    using handleCommit_run [OF assms(1,2)] assms(3) by auto
  have disk: "fst (st_world st1) = fst (st_world st)" by (rule authorizeWrite_disk [OF assms(4) auth])
  have rel: "relay_hashes (world_relay routes rl)" "rl_route (world_relay routes rl) (Repo rt) = Some route"
    using assms(5,7) by (simp_all add: world_relay_hashes world_relay_route)
  note p = fs_relay.commit_publishes [OF run rel(2) assms(6) assms(8) [folded disk] rel(1)
      ops_ok_lfs [OF parseCommitNDJSON_ops_ok [OF ops]], of p parent, unfolded world_backend_reads disk,
      OF assms(9,10)]
  show ?thesis
    unfolding assms(3) using p(2-5) ops by (intro conjI) blast+
qed

section \<open>The upload handshake\<close>

lemma uploaded_run:
  assumes "handleLFSUpload s env kind rest r st = (Ok resp, st')" and "sr_Body resp = NoBody"
    and "lfs_upload_target kind rest = Ok (k, repo, oid)"
  shows "\<exists>actor st1 sz. authorizeWrite s (en_now env) r st = (Ok actor, st1) \<and>
    PutLFSBlob (sv_relay s) k repo oid sz (hq_Body r) (st_world st1) = (Ok (), st_world st')"
proof -
  have a: "\<And>resp1 st1. authorizeWrite s (en_now env) r st = (Err resp1, st1) \<Longrightarrow> sr_Body resp1 \<noteq> NoBody"
    by (auto simp: authorizeWrite_def Let_def writeHFError_def hf_error_def split: if_splits prod.splits res.splits)
  show ?thesis
    using assms a
    by (auto simp: handleLFSUpload_def with_actor_def on_world_def writeHFError_def hf_error_def Let_def
        split: res.splits prod.splits if_splits)
qed

lemma split_trim_join:
  assumes "ss \<noteq> []" and "[] \<notin> set ss" and "\<forall>s \<in> set ss. CHR ''/'' \<notin> set s"
  shows "split_on CHR ''/'' (trim_char CHR ''/'' (join_on ''/'' ss)) = ss"
proof -
  have m: "hd ss \<in> set ss" "last ss \<in> set ss" using assms(1) by auto
  then have ne: "hd ss \<noteq> []" "last ss \<noteq> []" using assms(2) by metis+
  have "hd (hd ss) \<noteq> CHR ''/''" "last (last ss) \<noteq> CHR ''/''"
    using m assms(3) hd_in_set [OF ne(1)] last_in_set [OF ne(2)] by metis+
  moreover have "\<forall>s \<in> set ss. s \<noteq> []" using assms(2) by metis
  ultimately have "trim_char CHR ''/'' (join_on ''/'' ss) = join_on ''/'' ss"
    using assms ne by (intro trim_char_id) (simp_all only: join_on_nonempty hd_join_on last_join_on not_False_eq_True)
  then show ?thesis using assms by (simp add: split_join)
qed

lemma isSHA256Hex_seg: "isSHA256Hex oid \<Longrightarrow> oid \<noteq> [] \<and> CHR ''/'' \<notin> set oid"
  by (auto simp: isSHA256Hex_def list_all_iff is_lower_hex_iff)

lemma lfs_upload_target_href:
  assumes "valid_repo repo" and "isSHA256Hex oid" and "kind \<noteq> RepoKindNone"
  shows "lfs_upload_target (APIPrefix kind) (repo_string repo @ ''/'' @ oid) = Ok (kind, repo, oid)"
proof -
  let ?ss = "repo_segs repo @ [oid]"
  have "\<forall>s \<in> set ?ss. CHR ''/'' \<notin> set s" "[] \<notin> set ?ss"
    using assms isSHA256Hex_seg [OF assms(2)] repo_segs_valid(1) [OF assms(1)]
    by (auto simp: repo_segs_def valid_repo_def dest: repoNamePattern_no_slash)
  then have "split_on CHR ''/'' (trim_char CHR ''/'' (join_on ''/'' ?ss)) = ?ss"
    by (intro split_trim_join) auto
  moreover have "join_on ''/'' ?ss = repo_string repo @ ''/'' @ oid"
    using repo_segs_valid(3) [OF assms(1)] by (simp add: join_on_append)
  moreover have "APIPrefix RepoKindModel = ''models''" "APIPrefix RepoKindDataset = ''datasets''"
    by code_simp+
  moreover have "length (repo_segs repo) = 1 \<or> length (repo_segs repo) = 2" by (simp add: repo_segs_def)
  ultimately show ?thesis
    using assms(2,3) repo_segs_valid(3) [OF assms(1)] ParseRepoID_repo_string [OF assms(1)]
    by (cases kind) (auto simp: lfs_upload_target_def Let_def)
qed

text \<open>
  The href of the batch API is what the upload handler reads back: behind the
  fixed prefix and the kind it holds the repository and the digest, and its size
  parameter is the declared size.
\<close>

theorem upload_href_target:
  assumes "valid_repo (Repo rt)" and "isSHA256Hex (bo_OID ob)" and "RepoKind rt \<noteq> RepoKindNone"
    and "- (2 ^ 63) \<le> bo_Size ob" and "bo_Size ob < 2 ^ 63"
  shows "\<exists>kind rest n. upload_href r rt ob = base_url r @ ''/shpiel-lfs/'' @ kind @ ''/'' @ rest @ ''?size='' @ n \<and>
    lfs_upload_target kind rest = Ok (RepoKind rt, Repo rt, bo_OID ob) \<and> parse_int64 n = Some (bo_Size ob)"
  using lfs_upload_target_href [OF assms(1-3)] parse_format_int [OF assms(4,5)]
  by (intro exI [of _ "APIPrefix (RepoKind rt)"] exI [of _ "repo_string (Repo rt) @ ''/'' @ bo_OID ob"]
      exI [of _ "format_int (bo_Size ob)"]) (simp add: upload_href_def)

text \<open>
  An upload that succeeds makes the batch API skip the object from then on,
  and the stored content matches the digest in the URL.
\<close>

theorem uploaded_object_is_skipped:
  assumes "handleLFSUpload s env kind rest r st = (Ok resp, st')" and "sr_Body resp = NoBody"
    and "lfs_upload_target kind rest = Ok (RepoKind rt, Repo rt, bo_OID ob)"
    and "sv_relay s = world_relay routes rl" and "upstream_off_disk s"
    and "Router_For (rl_glob rl) routes (repo_string (Repo rt)) = Some route"
    and "rt_Primary route = world_backend i b"
    and "fs_good b (RepoKind rt) (Repo rt) (fst (st_world st) i)"
  shows "batch_object s rt r2 (st_world st') ob = (ob, BatchNone) \<and>
    (\<exists>c. fs_OpenBlob b (RepoKind rt) (Repo rt) (SHA256Digest (bo_OID ob)) (fst (st_world st') i) = Ok c \<and>
         sha256hex (fb_env b) c = bo_OID ob)"
proof -
  obtain actor st1 sz where auth: "authorizeWrite s (en_now env) r st = (Ok actor, st1)"
    and put: "PutLFSBlob (world_relay routes rl) (RepoKind rt) (Repo rt) (bo_OID ob) sz (hq_Body r) (st_world st1) =
      (Ok (), st_world st')"
    using uploaded_run [OF assms(1-3)] assms(4) by auto
  let ?d = "SHA256Digest (bo_OID ob)" and ?k = "RepoKind rt" and ?r = "Repo rt"
  have hex: "isSHA256Hex (bo_OID ob)"
    using assms(3) by (auto simp: lfs_upload_target_def Let_def split: if_splits option.splits res.splits)
  note d = isSHA256Hex_digest [OF hex]
  have disk: "fst (st_world st1) = fst (st_world st)" by (rule authorizeWrite_disk [OF assms(5) auth])
  have good: "fs_good b ?k ?r (fst (st_world st1) i)" using assms(8) disk by simp
  have rt: "rl_route (world_relay routes rl) ?r = Some route" using assms(6) by (simp add: world_relay_route)
  have "bk_PutBlob (world_backend i b) ?k ?r ?d (hq_Body r) sz (st_world st1) = (Ok (), st_world st')"
    using put rt assms(7) by (auto simp: PutLFSBlob_def split: prod.splits res.splits)
  note put = fs_relay.put_blob_good [OF good d this] fs_relay.put_blob_stored [OF good d this]
  then obtain c where c: "bk_OpenBlob (world_backend i b) ?k ?r ?d (st_world st') = Ok c" by auto
  have "HasLFSBlob (world_relay routes rl) ?k ?r (bo_OID ob) (st_world st')"
    using fs_relay.stat_iff_open [OF put(1) d] c rt assms(7) by (auto simp: HasLFSBlob_def split: res.splits)
  moreover have "blob_ok (fb_env b) (Digest_Hex ?d) c"
    by (rule fs_relay.open_content [OF put(1) d c])
  ultimately show ?thesis
    using c hex assms(4) by (auto simp: batch_object_def blob_ok_def isSHA256Hex_def)
qed

text \<open>
  The errors that are logged are exactly those that surface as an opaque 500,
  and no error of the relay is answered with a success status.
\<close>

theorem isMappedError_iff:
  "(isMappedError e \<longleftrightarrow> sr_Status (writeRelayError e) \<noteq> 500) \<and> 400 \<le> sr_Status (writeRelayError e)"
  by (cases e) (auto simp: isMappedError_def writeRelayError_def writeHFError_def hf_error_def)

end
