(* ===== verification/Server_Tree.thy ===== *)
theory Server_Tree
  imports Server
begin

text \<open>
  Listings: the pages of a tree and the loop of a client that follows them, and
  the entries of a listing against their description.
\<close>

section \<open>Pages\<close>

lemma tree_limit_bounds: "0 < tree_limit q" "tree_limit q \<le> 1000"
  by (auto simp: tree_limit_def split: option.split)

lemma tree_offset_bounds: "0 \<le> tree_offset q" "tree_offset q < 2 ^ 63"
  by (auto simp: tree_offset_def Let_def dest: parse_int64_range split: option.split)

lemma int64_over: "2 ^ 63 \<le> n \<Longrightarrow> n < 2 ^ 64 \<Longrightarrow> int64 n = n - 2 ^ 64"
proof -
  assume n: "2 ^ 63 \<le> n" "n < 2 ^ 64"
  have "(n + 2 ^ 63) mod 2 ^ 64 = (n - 2 ^ 63) mod 2 ^ 64"
    by (rule mod_eq_dvd_iff [THEN iffD2]) simp
  also have "\<dots> = n - 2 ^ 63" using n by simp
  finally show ?thesis by (simp add: int64_def)
qed

lemma int64_range: "- (2 ^ 63) \<le> int64 n" "int64 n < 2 ^ 63"
  using pos_mod_bound [of "2 ^ 64" "n + 2 ^ 63"] pos_mod_sign [of "2 ^ 64" "n + 2 ^ 63"]
  by (simp_all add: int64_def)

text \<open>The sum of the offset and the limit wraps for a cursor near the largest integer.\<close>

definition cursor_overflows :: "(string \<Rightarrow> string) \<Rightarrow> bool" where
  "cursor_overflows q \<longleftrightarrow> 2 ^ 63 \<le> tree_offset q + tree_limit q"

lemma int64_cursor:
  "int64 (tree_offset q + tree_limit q) =
     (if cursor_overflows q then tree_offset q + tree_limit q - 2 ^ 64 else tree_offset q + tree_limit q)"
  using tree_limit_bounds [of q] tree_offset_bounds [of q]
    int64_id [of "tree_offset q + tree_limit q"] int64_over [of "tree_offset q + tree_limit q"]
  by (simp add: cursor_overflows_def)

lemma int64_cursor_neg: "cursor_overflows q \<Longrightarrow> int64 (tree_offset q + tree_limit q) < 0"
  using tree_limit_bounds [of q] tree_offset_bounds [of q] by (simp add: int64_cursor)

lemma tree_page_Panic_iff: "tree_page q es = Panic \<longleftrightarrow> cursor_overflows q"
  using tree_limit_bounds [of q] tree_offset_bounds [of q] int64_cursor_neg [of q]
  by (auto simp: tree_page_def Let_def int64_cursor)

lemma tree_page_not_Err: "tree_page q es \<noteq> Err e"
  by (auto simp: tree_page_def Let_def)

text \<open>The page that is served, and whether another follows.\<close>

lemma tree_page_ok:
  assumes "\<not> cursor_overflows q"
  shows "tree_page q es =
    (let off = nat (tree_offset q); e = off + nat (tree_limit q) in
     Ok (take (nat (tree_limit q)) (drop off es),
         if e < length es then Some (q(''cursor'' := tree_cursor (int e), ''limit'' := format_int (tree_limit q)))
         else None))"
proof -
  obtain l where l: "tree_limit q = int l" "0 < l"
    using tree_limit_bounds(1) [of q] by (metis zero_less_imp_eq_int)
  obtain k where k: "tree_offset q = int k"
    using tree_offset_bounds(1) [of q] by (metis zero_le_imp_eq_int)
  have w: "int64 (int k + int l) = int (k + l)"
    using assms int64_cursor [of q] l k by simp
  show ?thesis
  proof (cases "length es < k")
    case True
    then show ?thesis by (simp add: tree_page_def Let_def l(1) k w gslice_def)
  next
    case False
    have "take (min (k + l) (length es) - k) (drop k es) = take l (drop k es)"
      using False by (cases "k + l \<le> length es") (simp_all add: min_def)
    with False show ?thesis
      by (auto simp: tree_page_def Let_def l(1) k w gslice_def min_def nat_int_add split: if_splits)
  qed
qed

lemma tree_cursor_nonempty: "tree_cursor e \<noteq> []"
proof
  assume "tree_cursor e = []"
  then have "b64_decode URLAlphabet True [] = Some (to_bytes (format_int e))"
    using b64_decode_encode [of URLAlphabet True "to_bytes (format_int e)"] by (simp add: tree_cursor_def)
  then show False
    by (auto simp: b64_decode_def b64_unpad_def has_suffix_def to_bytes_def format_int_def split: if_splits)
qed

lemma tree_offset_cursor: "0 \<le> e \<Longrightarrow> e < 2 ^ 63 \<Longrightarrow> q ''cursor'' = tree_cursor e \<Longrightarrow> tree_offset q = e"
  using parse_format_int [of e] tree_cursor_nonempty [of e]
  by (simp add: tree_offset_def) (simp add: tree_cursor_def)

text \<open>The next page starts where this one ends, with the same limit.\<close>

lemma tree_page_next:
  assumes "tree_page q es = Ok (page, Some q')"
  shows "tree_limit q' = tree_limit q \<and> tree_offset q' = tree_offset q + tree_limit q \<and>
    tree_offset q' < int (length es) \<and> page = take (nat (tree_limit q)) (drop (nat (tree_offset q)) es)"
proof -
  have b: "0 < tree_limit q" "tree_limit q \<le> 1000" "0 \<le> tree_offset q"
    by (fact tree_limit_bounds tree_offset_bounds)+
  have n: "\<not> cursor_overflows q" using assms tree_page_Panic_iff [of q es] by auto
  then have s: "tree_offset q + tree_limit q < 2 ^ 63" by (simp add: cursor_overflows_def)
  have q': "q' = q(''cursor'' := tree_cursor (tree_offset q + tree_limit q), ''limit'' := format_int (tree_limit q))"
    and l: "tree_offset q + tree_limit q < int (length es)"
    and pg: "page = take (nat (tree_limit q)) (drop (nat (tree_offset q)) es)"
    using assms b by (auto simp: tree_page_ok [OF n] Let_def split: if_splits)
  have "tree_offset q' = tree_offset q + tree_limit q"
    using b s q' by (intro tree_offset_cursor) auto
  moreover have "q' ''limit'' = format_int (tree_limit q)" by (simp add: q')
  then have "tree_limit q' = tree_limit q"
    using b(1,2) parse_format_int [of "tree_limit q"] by (simp add: tree_limit_def [of q'])
  ultimately show ?thesis using l pg by simp
qed

text \<open>A client that follows the cursors: the pages it is served.\<close>

function tree_walk :: "(string \<Rightarrow> string) \<Rightarrow> TreeEntry list \<Rightarrow> TreeEntry list list" where
  "tree_walk q es =
     (case tree_page q es of
        Ok (page, nxt) \<Rightarrow> page # (case nxt of None \<Rightarrow> [] | Some q' \<Rightarrow> tree_walk q' es)
      | _ \<Rightarrow> [])"
  by pat_completeness auto
termination
proof (relation "measure (\<lambda>(q, es). nat (int (length es) - tree_offset q))", goal_cases)
  case (2 q es z page nxt q')
  then have "tree_page q es = Ok (page, Some q')" by simp
  from tree_page_next [OF this] tree_limit_bounds(1) [of q] show ?case by simp
qed simp

declare tree_walk.simps [simp del]

lemma tree_walk_pages:
  assumes "\<not> cursor_overflows q" and "int (length es) + 1000 \<le> 2 ^ 63"
  shows "concat (tree_walk q es) = drop (nat (tree_offset q)) es \<and> tree_walk q es \<noteq> [] \<and>
    list_all (\<lambda>p. length p = nat (tree_limit q)) (butlast (tree_walk q es)) \<and>
    length (last (tree_walk q es)) \<le> nat (tree_limit q)"
  using assms
proof (induction q es rule: tree_walk.induct)
  case (1 q es)
  let ?k = "nat (tree_limit q)" and ?o = "nat (tree_offset q)"
  obtain page nxt where pg: "tree_page q es = Ok (page, nxt)" by (simp add: tree_page_ok [OF 1(2)] Let_def)
  show ?case
  proof (cases nxt)
    case None
    then have "length es \<le> ?o + ?k" "page = take ?k (drop ?o es)"
      using pg by (auto simp: tree_page_ok [OF 1(2)] Let_def split: if_splits)
    then show ?thesis using pg None by (subst (1 2 3 4) tree_walk.simps) simp
  next
    case (Some q')
    note nx = tree_page_next [OF pg [unfolded Some]]
    have l: "drop ?o es \<noteq> []" "?o + ?k < length es"
      using nx tree_limit_bounds(1) [of q] tree_offset_bounds(1) [of q] by auto
    have "\<not> cursor_overflows q'"
      using nx 1(3) tree_limit_bounds(2) [of q'] by (auto simp: cursor_overflows_def)
    with 1(1) [OF pg refl Some] 1(3) have ih: "concat (tree_walk q' es) = drop (nat (tree_offset q')) es"
      "tree_walk q' es \<noteq> []" "list_all (\<lambda>p. length p = nat (tree_limit q')) (butlast (tree_walk q' es))"
      "length (last (tree_walk q' es)) \<le> nat (tree_limit q')" by auto
    have o: "nat (tree_offset q') = ?k + ?o"
      using nx tree_limit_bounds(1) [of q] tree_offset_bounds(1) [of q] by (simp add: nat_add_distrib)
    have w: "tree_walk q es = page # tree_walk q' es"
      using pg Some by (subst tree_walk.simps) simp
    have "take ?k (drop ?o es) @ drop (?k + ?o) es = drop ?o es"
      by (metis append_take_drop_id drop_drop)
    then show ?thesis using ih nx l o by (simp add: w)
  qed
qed

lemma cursor_overflows_max: "q ''cursor'' = tree_cursor (2 ^ 63 - 1) \<Longrightarrow> cursor_overflows q"
  using tree_offset_cursor [of "2 ^ 63 - 1" q] tree_limit_bounds(1) [of q]
  by (simp add: cursor_overflows_def)

section \<open>Entries\<close>

text \<open>
  The description of a listing: the files below the directory (only its direct
  children unless the listing is recursive), and each subdirectory with a file
  below it once.
\<close>

definition listed_file :: "string \<Rightarrow> bool \<Rightarrow> FileEntry \<Rightarrow> bool" where
  "listed_file pre recursive f \<longleftrightarrow>
     (case rel_to pre (fe_Path f) of None \<Rightarrow> False | Some rel \<Rightarrow> recursive \<or> CHR ''/'' \<notin> set rel)"

definition sub_dir :: "string \<Rightarrow> FileEntry \<Rightarrow> string option" where
  "sub_dir pre f =
     Option.bind (rel_to pre (fe_Path f)) (\<lambda>rel. map_option (\<lambda>(head, _). dir_path pre head) (cut_on CHR ''/'' rel))"

definition sub_dirs :: "string \<Rightarrow> FileEntry list \<Rightarrow> string set" where
  "sub_dirs pre fs = set (List.map_filter (sub_dir pre) fs)"

lemma sub_dirs_simps [simp]:
  "sub_dirs pre [] = {}"
  "sub_dirs pre (f # fs) = (case sub_dir pre f of None \<Rightarrow> {} | Some d \<Rightarrow> {d}) \<union> sub_dirs pre fs"
  by (auto simp: sub_dirs_def List.map_filter_simps split: option.split)

lemma finite_sub_dirs [simp]: "finite (sub_dirs pre fs)"
  by (simp add: sub_dirs_def)

lemma tree_loop_entries:
  "mset (tree_loop sha1 c pre recursive fs dirs out) =
     mset out + image_mset file_entry (mset (filter (listed_file pre recursive) fs)) +
     (if recursive then {#} else image_mset (dir_entry sha1 c) (mset_set (sub_dirs pre fs - set dirs)))"
proof (induction sha1 c pre recursive fs dirs out rule: tree_loop.induct)
  case (2 sha1 c pre recursive f fs dirs out)
  show ?case
  proof (cases "rel_to pre (fe_Path f)")
    case None
    with 2(1) show ?thesis by (simp add: listed_file_def sub_dir_def)
  next
    case (Some rel)
    show ?thesis
    proof (cases "cut_on CHR ''/'' rel")
      case None
      then have "CHR ''/'' \<notin> set rel" by (simp add: cut_on_None_iff)
      with 2(2) [OF Some] Some None show ?thesis
        by (cases recursive) (simp_all add: listed_file_def sub_dir_def)
    next
      case (Some z)
      obtain head rest where z: "z = (head, rest)" by (cases z)
      have s: "CHR ''/'' \<in> set rel" using Some cut_on_None_iff [of "CHR ''/''" rel] by auto
      let ?p = "dir_path pre head" and ?D = "sub_dirs pre fs"
      have e: "?D - set dirs = insert ?p ?D - set dirs" if "?p \<in> set dirs" using that by auto
      have n: "insert ?p ?D - set dirs = insert ?p (?D - set (?p # dirs))" if "?p \<notin> set dirs"
        using that by auto
      show ?thesis
      proof (cases recursive)
        case True
        with 2(5) [OF \<open>rel_to pre (fe_Path f) = Some rel\<close> Some z [symmetric]] Some z \<open>rel_to pre (fe_Path f) = Some rel\<close>
        show ?thesis by (simp add: listed_file_def)
      next
        case False
        note ih = 2(3,4) [OF \<open>rel_to pre (fe_Path f) = Some rel\<close> Some z [symmetric] _ refl]
        have D: "sub_dirs pre (f # fs) = insert ?p ?D"
          using Some z \<open>rel_to pre (fe_Path f) = Some rel\<close> by (simp add: sub_dir_def)
        have F: "filter (listed_file pre recursive) (f # fs) = filter (listed_file pre recursive) fs"
          using False s \<open>rel_to pre (fe_Path f) = Some rel\<close> by (simp add: listed_file_def)
        have L: "tree_loop sha1 c pre recursive (f # fs) dirs out =
          (if ?p \<in> set dirs then tree_loop sha1 c pre recursive fs dirs out
           else tree_loop sha1 c pre recursive fs (?p # dirs) (out @ [dir_entry sha1 c ?p]))"
          using False Some z \<open>rel_to pre (fe_Path f) = Some rel\<close> by (simp add: Let_def)
        show ?thesis
        proof (cases "?p \<in> set dirs")
          case True
          show ?thesis
            unfolding L F D using ih(1) [OF False True] True by (simp only: e [OF True] if_True)
        next
          case new: False
          have "mset_set (insert ?p ?D - set dirs) = add_mset ?p (mset_set (?D - set (?p # dirs)))"
            using n [OF new] by simp
          then show ?thesis
            unfolding L F D using ih(2) [OF False new] new False by simp
        qed
      qed
    qed
  qed
qed simp

lemma sorted_treeEntries: "sorted (map te_Path (treeEntries sha1 m pre recursive))"
  by (simp add: treeEntries_def)

section \<open>Properties\<close>


text \<open>
  C17. A client that starts without a cursor and follows the Link headers is
  served every entry exactly once, in order, in pages of the limit: the walk
  terminates, no page is skipped and none repeats.
\<close>

theorem tree_walk_enumerates:
  assumes "int (length es) + 1000 \<le> 2 ^ 63"
  shows "concat (tree_walk (q(''cursor'' := [])) es) = es \<and>
    list_all (\<lambda>p. length p = nat (tree_limit q)) (butlast (tree_walk (q(''cursor'' := [])) es)) \<and>
    length (last (tree_walk (q(''cursor'' := [])) es)) \<le> nat (tree_limit q)"
proof -
  let ?q = "q(''cursor'' := [])"
  have o: "tree_offset ?q = 0" and l: "tree_limit ?q = tree_limit q"
    by (simp_all add: tree_offset_def tree_limit_def)
  have "\<not> cursor_overflows ?q" using o l tree_limit_bounds(2) [of q] by (simp add: cursor_overflows_def)
  from tree_walk_pages [OF this assms] show ?thesis by (simp add: o l)
qed

definition demo_query :: "string \<Rightarrow> string" where
  "demo_query = (\<lambda>_. [])(''limit'' := ''2'')"

definition demo_entry :: "string \<Rightarrow> TreeEntry" where
  "demo_entry p = \<lparr>te_Type = ''file'', te_OID = [], te_Size = 0, te_Path = p, te_LFS = None\<rparr>"

theorem tree_walk_enumerates_witness:
  "concat (tree_walk (demo_query(''cursor'' := [])) (map demo_entry [''a'', ''b'', ''c''])) =
     map demo_entry [''a'', ''b'', ''c''] \<and>
   list_all (\<lambda>p. length p = 2) (butlast (tree_walk (demo_query(''cursor'' := [])) (map demo_entry [''a'', ''b'', ''c''])))"
proof -
  have "parse_int64 ''2'' = Some 2"
    by (simp add: parse_int64_def parse_nat_def is_digit_iff digits_val_def digit_val_def)
  then have "tree_limit demo_query = 2" by (simp add: tree_limit_def demo_query_def)
  then show ?thesis
    using tree_walk_enumerates [of "map demo_entry [''a'', ''b'', ''c'']" demo_query] by simp
qed

text \<open>
  C19. Listing a tree crashes exactly when the cursor decodes to an offset whose
  sum with the limit exceeds the largest int: the wrapped end of the page is
  negative and the slice expression panics. Any client can send such a cursor.
\<close>

theorem handleTree_panics:
  "fst (handleTree s env rt r st) = Panic \<longleftrightarrow>
     (case fst (resolve_manifest s env rt r st) of
        Panic \<Rightarrow> True
      | Err _ \<Rightarrow> False
      | Ok m \<Rightarrow>
          if trim_char CHR ''/'' (Path rt) \<noteq> [] \<and>
             treeEntries (rl_sha1hex (sv_relay s)) m (trim_char CHR ''/'' (Path rt)) (tree_recursive (hq_Query r)) = []
          then False
          else 2 ^ 63 \<le> tree_offset (hq_Query r) + tree_limit (hq_Query r))"
proof -
  obtain x st' where x: "resolve_manifest s env rt r st = (x, st')" by (cases "resolve_manifest s env rt r st")
  have p: "res_map f (tree_page q es) = Panic \<longleftrightarrow> 2 ^ 63 \<le> tree_offset q + tree_limit q"
    for f :: "_ \<Rightarrow> http_resp \<times> (string \<Rightarrow> string) option" and q es
    by (simp only: tree_page_Panic_iff [symmetric, of q es, unfolded cursor_overflows_def])
      (cases "tree_page q es"; simp)
  show ?thesis
    by (cases x) (auto simp: handleTree_def x Let_def p)
qed

end
