(* ===== verification/Server_Demo.thy ===== *)
theory Server_Demo
  imports Server_Commit Server_Tree Relay_Demo
begin

text \<open>
  Instances of the server's properties: a server on the world of \<open>Relay_Demo\<close>,
  with a payload decoder for a tiny line syntax and an upstream that answers every
  request with one status.
\<close>

definition demo_status :: "nat \<Rightarrow> 'w upstream_conn" where
  "demo_status status =
     \<lparr>uc_http = (\<lambda>_ w. (Ok \<lparr>rs_StatusCode = status, rs_Header = (\<lambda>_. []), rs_ContentLength = 0, rs_Body = []\<rparr>, w)),
      uc_version = ''1'', uc_client = \<lparr>endpoint = ''http://hub'', orgToken = []\<rparr>, uc_decode = (\<lambda>_. None)\<rparr>"

definition demo_key :: "string \<Rightarrow> string" where
  "demo_key l = (if l = ''h'' then ''header'' else if l = ''f'' then ''file'' else if l = ''l'' then ''lfsFile''
     else if l = ''d'' then ''deletedFile'' else ''deletedFolder'')"

definition demo_server ::
  "string \<Rightarrow> nat \<Rightarrow> ((string \<Rightarrow> tree) \<times> (string \<Rightarrow> tree, Job option) Queue, string) Server" where
  "demo_server mode status =
     \<lparr>sv_authMode = mode, sv_ttl = newTokenValidator_ttl 0, sv_relay = demo_wr,
      sv_upstream = Some (demo_status status), sv_audit = True, sv_xet = None, sv_repl = None, sv_adminToken = [],
      sv_mime = (\<lambda>_. []), sv_yaml = (\<lambda>_. Ok None), sv_whoami_name = (\<lambda>_. Some ''ann''),
      sv_dec_create = (\<lambda>_ _. None), sv_dec_delete = (\<lambda>_ _. None), sv_dec_preupload = (\<lambda>_ _. None),
      sv_dec_batch = (\<lambda>_ _. None), sv_dec_card = (\<lambda>_ _. None), sv_form_content = (\<lambda>_ _. None),
      sv_line = (\<lambda>l. Some (demo_key l, l)), sv_header = (\<lambda>_. Some (''add'', [])),
      sv_file = (\<lambda>_. Some (''cfg'', [], ''Bw=='')),
      sv_lfs = (\<lambda>_. Some (''a.bin'', ''sha256'', replicate 64 CHR ''2'', 1)),
      sv_deleted = (\<lambda>l. Some (if l = ''d'' then ''old'' else ''tmp/''))\<rparr>"

definition demo_body :: "byte list" where
  "demo_body = to_bytes (join_on [CHR 0x0A] [''h'', ''f'', ''l'', ''d'', ''t''])"

definition demo_hf_request :: http_req where
  "demo_hf_request =
     \<lparr>hq_Method = ''POST'', hq_EscapedPath = [], hq_Query = (\<lambda>_. []),
      hq_Header = (\<lambda>k. if k = ''Authorization'' then ''Bearer abc'' else []),
      hq_Host = ''h'', hq_TLS = False, hq_Body = demo_body\<rparr>"

definition demo_hf_state :: "((string \<Rightarrow> tree) \<times> (string \<Rightarrow> tree, Job option) Queue) sstate" where
  "demo_hf_state = \<lparr>st_world = demo_world, st_tokens = [], st_audit = []\<rparr>"

definition demo_req_env :: req_env where
  "demo_req_env = \<lparr>en_now = 5, en_manifestFlight = None, en_blobFlight = None, en_slot = True\<rparr>"

definition demo_target :: route where
  "demo_target = mk_route RouteCommit RepoKindModel demo_repo [] []"

lemma demo_token: "bearerToken demo_hf_request = ''abc''"
  by (simp add: bearerToken_def demo_hf_request_def)

lemma demo_whoami: "Upstream_WhoAmI (uc_http (demo_status n)) v c t w = (Ok (n, []), w)"
  by (simp add: Upstream_WhoAmI_def demo_status_def)

lemma demo_start_run: "token_run s demo_hf_state []"
  by (rule token_run.start) (simp add: demo_hf_state_def)

lemma demo_accept:
  "authorizeWrite (demo_server ''passthrough'' 200) 5 demo_hf_request demo_hf_state =
     (Ok ''ann'', demo_hf_state\<lparr>st_tokens := [(''abc'', \<lparr>tv_ok = True, tv_name = ''ann'', tv_expires = 305\<rparr>)]\<rparr>)"
  by (simp add: authorizeWrite_def demo_token validateToken_def tv_get_def tv_put_def demo_hf_state_def
      demo_server_def newTokenValidator_ttl_def demo_whoami Let_def)

theorem authorizeWrite_vouched_witness:
  "\<exists>t bd. (t, ''abc'', 200, bd) \<in> set (asked (demo_server ''passthrough'' 200) 5 ''abc'' demo_hf_state)"
proof -
  have "sv_authMode (demo_server ''passthrough'' 200) = ''passthrough''"
    "sv_ttl (demo_server ''passthrough'' 200) = newTokenValidator_ttl 0" by (simp_all add: demo_server_def)
  from authorizeWrite_vouched [OF demo_start_run this demo_accept] show ?thesis
    by (auto simp: demo_token)
qed

theorem token_cache_vouched_witness:
  "\<exists>h st'. token_run (demo_server ''passthrough'' 200) st' h \<and> length (st_tokens st') = 1 \<and>
     (\<exists>t status bd. (t, ''abc'', status, bd) \<in> set h \<and> status = 200)"
proof -
  let ?s = "demo_server ''passthrough'' 200"
  obtain v st' where v: "validateToken ?s 5 ''abc'' demo_hf_state = (v, st')" by fastforce
  then have st': "st_tokens st' = [(''abc'', \<lparr>tv_ok = True, tv_name = ''ann'', tv_expires = 305\<rparr>)]"
    by (auto simp: validateToken_def tv_get_def tv_put_def demo_hf_state_def demo_server_def
        newTokenValidator_ttl_def demo_whoami Let_def)
  note run = token_run.validate [OF demo_start_run v]
  have "map_of (st_tokens st') ''abc'' = Some \<lparr>tv_ok = True, tv_name = ''ann'', tv_expires = 305\<rparr>"
    using st' by simp
  with token_cache_vouched [OF run] obtain t status bd where
    "(t, ''abc'', status, bd) \<in> set ([] @ asked ?s 5 ''abc'' demo_hf_state)" "True = (status = 200)"
    by (metis tokenVerdict.select_convs(1))
  moreover from this(2) have "status = 200" by simp
  moreover have "length (st_tokens st') = 1" using st' by simp
  ultimately show ?thesis using run by blast
qed

theorem failed_answer_is_cached_witness:
  "\<exists>es. authorizeWrite (demo_server ''passthrough'' 503) 5 demo_hf_request demo_hf_state =
      (Err (writeHFError 401 [] ''Invalid user token.''), demo_hf_state\<lparr>st_world := demo_world, st_tokens := es\<rparr>)"
proof -
  let ?s = "demo_server ''passthrough'' 503"
  have "sv_authMode ?s = ''passthrough''" "sv_upstream ?s = Some (demo_status 503)" "bearerToken demo_hf_request \<noteq> []"
    "map_of (st_tokens demo_hf_state) (bearerToken demo_hf_request) = None" "(300::int) \<le> 5 + sv_ttl ?s"
    by (simp_all add: demo_server_def demo_token demo_hf_state_def newTokenValidator_ttl_def)
  with failed_answer_is_cached [of ?s "demo_status 503" demo_hf_request demo_hf_state 503 "[]" demo_world 300 5]
  show ?thesis by (auto simp: demo_whoami demo_hf_state_def)
qed

theorem refused_writes_do_nothing_witness:
  "handleCommit (demo_server ''passthrough'' 403) demo_req_env demo_target demo_hf_request demo_hf_state =
     (Ok (writeHFError 401 [] ''Invalid user token.''),
      demo_hf_state\<lparr>st_tokens := [(''abc'', \<lparr>tv_ok = False, tv_name = [], tv_expires = 305\<rparr>)]\<rparr>)"
proof -
  have "authorizeWrite (demo_server ''passthrough'' 403) (en_now demo_req_env) demo_hf_request demo_hf_state =
     (Err (writeHFError 401 [] ''Invalid user token.''),
      demo_hf_state\<lparr>st_tokens := [(''abc'', \<lparr>tv_ok = False, tv_name = [], tv_expires = 305\<rparr>)]\<rparr>)"
    by (simp add: authorizeWrite_def demo_token validateToken_def tv_get_def tv_put_def demo_hf_state_def
        demo_server_def newTokenValidator_ttl_def demo_whoami demo_req_env_def)
  from refused_writes_do_nothing [OF this] show ?thesis by blast
qed

section \<open>Commits and uploads\<close>

lemma demo_off_disk: "upstream_off_disk (demo_server m n)"
  by (simp add: upstream_off_disk_def demo_server_def demo_status_def)

lemma demo_parse: "parseCommitNDJSON (demo_server m n) demo_body = Ok (demo_ops [])"
proof -
  have l: "length demo_body = 9" by (simp add: demo_body_def to_bytes_def)
  have m: "maxLine = 16777216" "maxCommitBody = 536870912"
    by (simp_all add: maxLine_def maxCommitBody_def)
  have lines: "split_on CHR 0x0A (of_bytes demo_body) = [''h'', ''f'', ''l'', ''d'', ''t'']"
    using split_join [of "[''h'', ''f'', ''l'', ''d'', ''t'']" "CHR 0x0A"]
    by (simp add: demo_body_def)
  have tok: "scan_token l = l" if "l \<in> {''h'', ''f'', ''l'', ''d'', ''t''}" for l
    using that by (auto simp: scan_token_def trim_space_def is_space_def trim_suffix_def has_suffix_def)
  have b: "b64_decode StdAlphabet True ''Bw=='' = Some [7]" by code_simp
  have h: "isSHA256Hex (replicate 64 CHR ''2'')" by code_simp
  show ?thesis
    by (simp add: parseCommitNDJSON_def lines l m tok commit_line_def demo_server_def demo_key_def
        maxInlineFileSize_def b h empty_ops_def demo_ops_def)
qed

lemma demo_handleCommit:
  "\<exists>url st'. handleCommit (demo_server ''none'' 200) demo_req_env demo_target demo_hf_request demo_hf_state =
     (Ok (writeJSON 200 (CommitBody url demo_new)), st') \<and> st_world st' = demo_after"
proof -
  have "DefaultRevision = ''main''" by (simp add: DefaultRevision_def)
  then have "on_world (Commit demo_wr (en_now demo_req_env) (RepoKind demo_target) (Repo demo_target)
      (revision_of demo_target) (demo_ops [])) demo_hf_state = (Ok demo_new, demo_hf_state\<lparr>st_world := demo_after\<rparr>)"
    using demo_Commit [OF disjI1 [OF refl]]
    by (simp add: on_world_def demo_req_env_def demo_target_def mk_route_def revision_of_def demo_hf_state_def)
  then show ?thesis
    using demo_parse [of "''none''" 200]
    by (simp add: handleCommit_def with_actor_def authorizeWrite_def demo_server_def demo_hf_request_def
        audit_Record_def) blast
qed

theorem handleCommit_publishes_witness:
  "\<exists>url st'. handleCommit (demo_server ''none'' 200) demo_req_env demo_target demo_hf_request demo_hf_state =
      (Ok (writeJSON 200 (CommitBody url demo_new)), st') \<and>
     fs_ResolveRef demo_fs RepoKindModel demo_repo ''main'' (fst (st_world st') ''disk'') = Ok demo_new"
proof -
  obtain url st' where run: "handleCommit (demo_server ''none'' 200) demo_req_env demo_target demo_hf_request demo_hf_state =
     (Ok (writeJSON 200 (CommitBody url demo_new)), st')" using demo_handleCommit by blast
  have t: "RepoKind demo_target = RepoKindModel" "Repo demo_target = demo_repo" "revision_of demo_target = ''main''"
    by (simp_all add: demo_target_def mk_route_def revision_of_def DefaultRevision_def)
  have b: "sr_Body (writeJSON 200 (CommitBody url demo_new)) = CommitBody url demo_new" by (simp add: writeJSON_def)
  have r: "sv_relay (demo_server ''none'' 200) = demo_wr" by (simp add: demo_server_def)
  have w: "st_world demo_hf_state = demo_world" by (simp add: demo_hf_state_def)
  note p = handleCommit_publishes [OF run b r demo_off_disk, unfolded t w, OF demo_Router_For demo_primary
      demo_relay_hashes demo_world_good demo_world_reads]
  from run p show ?thesis by blast
qed

theorem upload_href_target_witness:
  "\<exists>kind rest n. upload_href demo_hf_request demo_target \<lparr>bo_OID = replicate 64 CHR ''2'', bo_Size = 1\<rparr> =
      base_url demo_hf_request @ ''/shpiel-lfs/'' @ kind @ ''/'' @ rest @ ''?size='' @ n \<and>
     lfs_upload_target kind rest = Ok (RepoKindModel, demo_repo, replicate 64 CHR ''2'') \<and> parse_int64 n = Some 1"
proof -
  have "isSHA256Hex (replicate 64 CHR ''2'')" by code_simp
  moreover have "valid_repo demo_repo" by code_simp
  ultimately show ?thesis
    using upload_href_target [of demo_target "\<lparr>bo_OID = replicate 64 CHR ''2'', bo_Size = 1\<rparr>" demo_hf_request]
    by (simp add: demo_target_def mk_route_def)
qed

theorem uploaded_object_is_skipped_witness:
  "batch_object (demo_server ''none'' 200) demo_target demo_hf_request demo_world
     \<lparr>bo_OID = replicate 64 CHR ''2'', bo_Size = 1\<rparr> = (\<lparr>bo_OID = replicate 64 CHR ''2'', bo_Size = 1\<rparr>, BatchNone)"
proof -
  let ?o = "replicate 64 CHR ''2''" and ?s = "demo_server ''none'' 200"
  let ?rest = "repo_string demo_repo @ ''/'' @ ?o" and ?ob = "\<lparr>bo_OID = ?o, bo_Size = 1\<rparr>"
  have h: "isSHA256Hex ?o" and v: "valid_repo demo_repo" by code_simp+
  have t: "RepoKind demo_target = RepoKindModel" "Repo demo_target = demo_repo" by (simp_all add: demo_target_def mk_route_def)
  have tgt: "lfs_upload_target (APIPrefix RepoKindModel) ?rest = Ok (RepoKind demo_target, Repo demo_target, bo_OID ?ob)"
    using lfs_upload_target_href [OF v h, of RepoKindModel] by (simp add: t)
  have w: "st_world demo_hf_state = demo_world" by (simp add: demo_hf_state_def)
  have put: "PutLFSBlob demo_wr RepoKindModel demo_repo ?o z c demo_world = (Ok (), demo_world)" for z c
    using demo_Router_For
    by (simp add: PutLFSBlob_def world_relay_route demo_primary demo_digest_of demo_write_put count_bytes_def)
  have run: "\<exists>st'. handleLFSUpload ?s demo_req_env (APIPrefix RepoKindModel) ?rest demo_hf_request demo_hf_state =
     (Ok \<lparr>sr_Status = 200, sr_Header = [], sr_Body = NoBody\<rparr>, st') \<and> st_world st' = demo_world"
    using tgt put
    by (simp add: handleLFSUpload_def with_actor_def authorizeWrite_def demo_server_def t on_world_def w
        demo_req_env_def audit_Record_def)
  then obtain st' where st': "st_world st' = demo_world"
    and go: "handleLFSUpload ?s demo_req_env (APIPrefix RepoKindModel) ?rest demo_hf_request demo_hf_state =
     (Ok \<lparr>sr_Status = 200, sr_Header = [], sr_Body = NoBody\<rparr>, st')" by blast
  have r: "sv_relay ?s = demo_wr" by (simp add: demo_server_def)
  show ?thesis
    using uploaded_object_is_skipped [OF go _ tgt r demo_off_disk, unfolded t w, OF _ demo_Router_For demo_primary
        demo_world_good, of demo_hf_request] st' by simp
qed

end
