(* ===== verification/S3_Client.thy ===== *)
theory S3_Client
  imports Backend "HOL-Library.AList" "HOL-Library.List_Lexorder" "HOL-Library.Char_ord"
begin

text \<open>
  Package internal/s3client: Signature Version 4 (sign.go), the requests to a
  bucket (s3client.go), the ranged reader (ranged.go) and the web-identity
  credentials (webidentity.go). A request carries its decoded path and query, and
  its headers under lower-case names. The transport, the hash functions, the XML
  decoders and the clock are arguments; a moment is the pair of its renderings in
  the two time formats. A response body is its bytes.
\<close>

section \<open>Requests and responses\<close>

record s3_request =
  sq_Method :: string
  sq_Host :: string
  sq_Path :: string
  sq_Query :: "(string \<times> string list) list"
  sq_Header :: "(string \<times> string list) list"
  sq_Body :: "byte list"

record s3_response =
  sp_Status :: nat
  sp_Length :: int
  sp_Body :: "byte list"

type_synonym 'w s3_http = "s3_request \<Rightarrow> 'w \<Rightarrow> (string, s3_response) res \<times> 'w"

definition header_set :: "string \<Rightarrow> string \<Rightarrow> s3_request \<Rightarrow> s3_request" where
  "header_set k v req = req\<lparr>sq_Header := AList.update k [v] (sq_Header req)\<rparr>"

section \<open>Signatures (sign.go)\<close>

record Credentials =
  AccessKeyID :: string
  SecretAccessKey :: string
  SessionToken :: string

definition IsZero :: "Credentials \<Rightarrow> bool" where
  "IsZero c \<longleftrightarrow> AccessKeyID c = [] \<and> SecretAccessKey c = []"

record s3_crypto =
  cy_hmac :: "byte list \<Rightarrow> byte list \<Rightarrow> byte list"
  cy_sha256hex :: "byte list \<Rightarrow> string"

definition EmptyPayloadSHA256 :: string where
  "EmptyPayloadSHA256 = ''e3b0c44298fc1c149afbf4c8996fb92427ae41e4649b934ca495991b7852b855''"

definition uri_unreserved :: "char \<Rightarrow> bool" where
  "uri_unreserved c \<longleftrightarrow> is_alnum c \<or> c \<in> set ''-._~''"

fun uriEncode :: "bool \<Rightarrow> string \<Rightarrow> string" where
  "uriEncode encodeSlash [] = []"
| "uriEncode encodeSlash (c # cs) =
     (if uri_unreserved c \<or> c = CHR ''/'' \<and> \<not> encodeSlash then c # uriEncode encodeSlash cs
      else CHR ''%'' # upper_hex (of_char c div 16) # upper_hex (of_char c mod 16) # uriEncode encodeSlash cs)"

definition canonicalQuery :: "(string \<times> string list) list \<Rightarrow> string" where
  "canonicalQuery q =
     join_on ''&'' (concat (map (\<lambda>k.
       map (\<lambda>v. uriEncode True k @ ''='' @ uriEncode True v)
         (sort (case map_of q k of None \<Rightarrow> [] | Some vs \<Rightarrow> vs)))
       (sort (map fst q))))"

text \<open>\<open>strings.Fields\<close> on ASCII text, joined by single spaces.\<close>

definition go_fields :: "string \<Rightarrow> string list" where
  "go_fields v = filter (\<lambda>w. w \<noteq> []) (split_on CHR '' '' (map (\<lambda>c. if is_space c then CHR '' '' else c) v))"

definition squeeze :: "string \<Rightarrow> string" where
  "squeeze v = join_on '' '' (go_fields v)"

definition nl :: string where
  "nl = [CHR 0x0A]"

definition header_values :: "s3_request \<Rightarrow> (string \<times> string) list" where
  "header_values req =
     fold (\<lambda>(k, vs). AList.update k (join_on '','' (map squeeze vs))) (sq_Header req) [(''host'', sq_Host req)]"

definition canonicalizeHeaders :: "s3_request \<Rightarrow> string list \<times> string" where
  "canonicalizeHeaders req =
     (let values = header_values req; names = sort (map fst values) in
      (names, concat (map (\<lambda>n. n @ '':'' @ the (map_of values n) @ nl) names)))"

definition signingKey :: "s3_crypto \<Rightarrow> string \<Rightarrow> string \<Rightarrow> string \<Rightarrow> byte list" where
  "signingKey cy secret date region =
     (let k = cy_hmac cy (to_bytes (''AWS4'' @ secret)) (to_bytes date);
          k = cy_hmac cy k (to_bytes region);
          k = cy_hmac cy k (to_bytes ''s3'')
      in cy_hmac cy k (to_bytes ''aws4_request''))"

text \<open>
  \<open>sign\<close>: the request with the headers to be signed, the signature, and the
  Authorization header. The moment \<open>t\<close> is its rendering as a time stamp and as a
  date.
\<close>

definition signed_request :: "Credentials \<Rightarrow> string \<Rightarrow> string \<times> string \<Rightarrow> s3_request \<Rightarrow> s3_request" where
  "signed_request creds payloadHash t req0 =
     (let req1 = header_set ''x-amz-content-sha256'' payloadHash (header_set ''x-amz-date'' (fst t) req0)
      in if SessionToken creds \<noteq> [] then header_set ''x-amz-security-token'' (SessionToken creds) req1 else req1)"

definition scope_of :: "string \<times> string \<Rightarrow> string \<Rightarrow> string" where
  "scope_of t region = join_on ''/'' [snd t, region, ''s3'', ''aws4_request'']"

definition signed_names :: "s3_request \<Rightarrow> string" where
  "signed_names req = join_on '';'' (fst (canonicalizeHeaders req))"

definition signature_of ::
  "s3_crypto \<Rightarrow> Credentials \<Rightarrow> string \<Rightarrow> string \<Rightarrow> string \<times> string \<Rightarrow> s3_request \<Rightarrow> string" where
  "signature_of cy creds region payloadHash t req =
     (let canonicalRequest = join_on nl
            [sq_Method req, uriEncode False (sq_Path req), canonicalQuery (sq_Query req),
             snd (canonicalizeHeaders req), signed_names req, payloadHash];
          stringToSign = join_on nl
            [''AWS4-HMAC-SHA256'', fst t, scope_of t region, cy_sha256hex cy (to_bytes canonicalRequest)]
      in hex_encode (cy_hmac cy (signingKey cy (SecretAccessKey creds) (snd t) region) (to_bytes stringToSign)))"

definition sign :: "s3_crypto \<Rightarrow> Credentials \<Rightarrow> string \<Rightarrow> string \<Rightarrow> string \<times> string \<Rightarrow> s3_request \<Rightarrow> s3_request" where
  "sign cy creds region payloadHash t req0 =
     (let req = signed_request creds payloadHash t req0 in
      header_set ''authorization''
        (''AWS4-HMAC-SHA256 '' @ ''Credential='' @ (AccessKeyID creds @ ''/'' @ scope_of t region) @
         '',SignedHeaders='' @ signed_names req @
         '',Signature='' @ signature_of cy creds region payloadHash t req) req)"

section \<open>The client (s3client.go)\<close>

datatype s3_error =
  S3NotFound | S3Transport string | S3Creds string | S3Status string string nat
| S3Code string string string nat | S3Skip | S3Decode | S3NoToken | S3Config | S3Unreachable s3_error

record 'w s3_client =
  s3_scheme :: string
  s3_host :: string
  s3_pathPrefix :: string
  s3_region :: string
  s3_creds :: "'w \<Rightarrow> (string, Credentials) res \<times> 'w"
  s3_http :: "'w s3_http"
  s3_now :: "'w \<Rightarrow> string \<times> string"
  s3_crypto_of :: s3_crypto
  s3_dec_error :: "byte list \<Rightarrow> string \<times> string"
  s3_dec_page :: "byte list \<Rightarrow> (string list \<times> bool \<times> string) option"

record s3_options =
  so_Endpoint :: string
  so_Bucket :: string
  so_Region :: string

text \<open>The endpoint is parsed by net/url: \<open>parsed\<close> is its scheme, host and path.\<close>

definition s3_New ::
  "s3_options \<Rightarrow> (string \<times> string \<times> string) option \<Rightarrow> 'w s3_client \<Rightarrow> (s3_error, 'w s3_client) res" where
  "s3_New opts parsed c0 =
     (if so_Bucket opts = [] then Err S3Config
      else let region = (if so_Region opts = [] then ''us-east-1'' else so_Region opts);
               c = c0\<lparr>s3_region := region\<rparr> in
        if so_Endpoint opts = [] then
          Ok (c\<lparr>s3_scheme := ''https'', s3_host := so_Bucket opts @ ''.s3.'' @ region @ ''.amazonaws.com'',
                s3_pathPrefix := []\<rparr>)
        else case parsed of
               None \<Rightarrow> Err S3Config
             | Some (scheme, host, path) \<Rightarrow>
                 if scheme = [] \<or> host = [] then Err S3Config
                 else Ok (c\<lparr>s3_scheme := scheme, s3_host := host,
                            s3_pathPrefix := trim_right_char CHR ''/'' path @ ''/'' @ so_Bucket opts\<rparr>))"

definition newRequest ::
  "'w s3_client \<Rightarrow> string \<Rightarrow> string \<Rightarrow> (string \<times> string list) list \<Rightarrow> byte list \<Rightarrow> s3_request" where
  "newRequest c meth key query body =
     \<lparr>sq_Method = meth, sq_Host = s3_host c, sq_Path = s3_pathPrefix c @ ''/'' @ key, sq_Query = query,
      sq_Header = [], sq_Body = body\<rparr>"

definition s3_do :: "'w s3_client \<Rightarrow> s3_request \<Rightarrow> string \<Rightarrow> 'w \<Rightarrow> (s3_error, s3_response) res \<times> 'w" where
  "s3_do c req payloadHash w =
     (case s3_creds c w of
        (Err e, w1) \<Rightarrow> (Err (S3Creds e), w1)
      | (Panic, w1) \<Rightarrow> (Panic, w1)
      | (Ok creds, w1) \<Rightarrow>
          (case s3_http c (if IsZero creds then req
                           else sign (s3_crypto_of c) creds (s3_region c) payloadHash (s3_now c w1) req) w1 of
             (r, w2) \<Rightarrow> (res_map_err S3Transport r, w2)))"

definition readError :: "'w s3_client \<Rightarrow> s3_response \<Rightarrow> string \<Rightarrow> string \<Rightarrow> s3_error" where
  "readError c resp opn key =
     (case s3_dec_error c (take (16 * 2 ^ 10) (sp_Body resp)) of
        (code, message) \<Rightarrow>
          if code = ''NoSuchKey'' \<or> code = ''NoSuchBucket'' \<or> (code = [] \<and> sp_Status resp = 404) then S3NotFound
          else if code \<noteq> [] then S3Code opn code message (sp_Status resp)
          else S3Status opn key (sp_Status resp))"

definition s3_Head :: "'w s3_client \<Rightarrow> string \<Rightarrow> 'w \<Rightarrow> (s3_error, int) res \<times> 'w" where
  "s3_Head c key w =
     (case s3_do c (newRequest c ''HEAD'' key [] []) EmptyPayloadSHA256 w of
        (r, w1) \<Rightarrow>
          (res_bind r (\<lambda>resp.
             if sp_Status resp = 200 then Ok (sp_Length resp)
             else if sp_Status resp = 404 then Err S3NotFound
             else Err (S3Status ''HEAD'' key (sp_Status resp))), w1))"

definition s3_Get :: "'w s3_client \<Rightarrow> string \<Rightarrow> int \<Rightarrow> 'w \<Rightarrow> (s3_error, byte list) res \<times> 'w" where
  "s3_Get c key offset w =
     (let req = newRequest c ''GET'' key [] [];
          req = (if 0 < offset then header_set ''range'' (''bytes='' @ format_int offset @ ''-'') req else req) in
      case s3_do c req EmptyPayloadSHA256 w of
        (r, w1) \<Rightarrow>
          (res_bind r (\<lambda>resp.
             if sp_Status resp = 206 then Ok (sp_Body resp)
             else if sp_Status resp = 200 then
               (if int (length (sp_Body resp)) < offset then Err S3Skip else Ok (drop (nat offset) (sp_Body resp)))
             else Err (readError c resp ''GET'' key)), w1))"

text \<open>The transport refuses a body that is not as long as announced.\<close>

definition s3_Put ::
  "'w s3_client \<Rightarrow> string \<Rightarrow> byte list \<Rightarrow> int \<Rightarrow> string \<Rightarrow> 'w \<Rightarrow> (s3_error, unit) res \<times> 'w" where
  "s3_Put c key content sz payloadSHA256 w =
     (case s3_do c (newRequest c ''PUT'' key [] content) payloadSHA256 w of
        (r, w1) \<Rightarrow>
          (res_bind r (\<lambda>resp. if sp_Status resp \<noteq> 200 then Err (readError c resp ''PUT'' key) else Ok ()), w1))"

definition s3_Delete :: "'w s3_client \<Rightarrow> string \<Rightarrow> 'w \<Rightarrow> (s3_error, unit) res \<times> 'w" where
  "s3_Delete c key w =
     (case s3_do c (newRequest c ''DELETE'' key [] []) EmptyPayloadSHA256 w of
        (r, w1) \<Rightarrow>
          (res_bind r (\<lambda>resp.
             if sp_Status resp \<noteq> 204 \<and> sp_Status resp \<noteq> 200 then Err (readError c resp ''DELETE'' key)
             else Ok ()), w1))"

definition list_query :: "string \<Rightarrow> string \<Rightarrow> int \<Rightarrow> (string \<times> string list) list" where
  "list_query pre tok maxKeys =
     [(''list-type'', [''2''])] @
     (if pre \<noteq> [] then [(''prefix'', [pre])] else []) @
     (if tok \<noteq> [] then [(''continuation-token'', [tok])] else []) @
     (if 0 < maxKeys then [(''max-keys'', [format_int maxKeys])] else [])"

definition s3_List ::
  "'w s3_client \<Rightarrow> string \<Rightarrow> string \<Rightarrow> int \<Rightarrow> 'w \<Rightarrow> (s3_error, string list \<times> string) res \<times> 'w" where
  "s3_List c pre tok maxKeys w =
     (case s3_do c (newRequest c ''GET'' [] (list_query pre tok maxKeys) []) EmptyPayloadSHA256 w of
        (r, w1) \<Rightarrow>
          (res_bind r (\<lambda>resp.
             if sp_Status resp \<noteq> 200 then Err (readError c resp ''LIST'' pre)
             else case s3_dec_page c (take (64 * 2 ^ 20) (sp_Body resp)) of
                    None \<Rightarrow> Err S3Decode
                  | Some (keys, truncated, nxt) \<Rightarrow>
                      if truncated then (if nxt = [] then Err S3NoToken else Ok (keys, nxt))
                      else Ok (keys, [])), w1))"

definition s3_Ping :: "'w s3_client \<Rightarrow> 'w \<Rightarrow> (s3_error, unit) res \<times> 'w" where
  "s3_Ping c w =
     (case s3_List c [] [] 1 w of (r, w1) \<Rightarrow> (res_map (\<lambda>_. ()) (res_map_err S3Unreachable r), w1))"

section \<open>Ranged reads (ranged.go)\<close>

text \<open>\<open>rr_cur\<close> is what is left of the body that is open, cut at the size.\<close>

record ranged_reader =
  rr_key :: string
  rr_size :: int
  rr_pos :: int
  rr_cur :: "byte list option"

datatype read_error = ReadEOF | ReadUnexpectedEOF | ReadS3 s3_error | BadWhence | NegativeSeek

definition OpenRanged :: "'w s3_client \<Rightarrow> string \<Rightarrow> 'w \<Rightarrow> (s3_error, ranged_reader) res \<times> 'w" where
  "OpenRanged c key w =
     (case s3_Head c key w of
        (r, w1) \<Rightarrow> (res_map (\<lambda>sz. \<lparr>rr_key = key, rr_size = sz, rr_pos = 0, rr_cur = None\<rparr>) r, w1))"

text \<open>A read into a buffer of \<open>n\<close> bytes: the bytes and the error.\<close>

definition rr_Read ::
  "'w s3_client \<Rightarrow> nat \<Rightarrow> ranged_reader \<Rightarrow> 'w \<Rightarrow> (byte list \<times> read_error option) \<times> ranged_reader \<times> 'w" where
  "rr_Read c n r w =
     (if rr_size r \<le> rr_pos r then (([], Some ReadEOF), r, w)
      else
        let (opened, w1) =
          (case rr_cur r of
             Some b \<Rightarrow> (Ok b, w)
           | None \<Rightarrow>
               (case s3_Get c (rr_key r) (rr_pos r) w of
                  (b, w1) \<Rightarrow> (res_map (take (nat (rr_size r - rr_pos r))) b, w1)))
        in case opened of
             Err e \<Rightarrow> (([], Some (ReadS3 e)), r, w1)
           | Panic \<Rightarrow> (([], Some (ReadS3 S3Decode)), r, w1)
           | Ok b \<Rightarrow>
               (let p = take n b; r' = r\<lparr>rr_pos := rr_pos r + int (length p), rr_cur := Some (drop n b)\<rparr>
                in if b = [] then (([], Some ReadUnexpectedEOF), r', w1) else ((p, None), r', w1)))"

datatype whence = SeekStart | SeekCurrent | SeekEnd

definition rr_Seek :: "int \<Rightarrow> whence \<Rightarrow> ranged_reader \<Rightarrow> (read_error, int) res \<times> ranged_reader" where
  "rr_Seek offset wh r =
     (let nxt = int64 (case wh of SeekStart \<Rightarrow> offset | SeekCurrent \<Rightarrow> rr_pos r + offset | SeekEnd \<Rightarrow> rr_size r + offset)
      in if nxt < 0 then (Err NegativeSeek, r)
         else (Ok nxt, r\<lparr>rr_pos := nxt, rr_cur := (if nxt \<noteq> rr_pos r then None else rr_cur r)\<rparr>))"

section \<open>Web-identity credentials (webidentity.go)\<close>

record web_identity =
  wi_cached :: Credentials
  wi_expiry :: int

definition refreshSlack :: int where
  "refreshSlack = 300"

text \<open>
  \<open>assumeRole\<close>: the token file is read, exchanged at STS, and the answer
  decoded. The answer is the status and the bytes of the body; \<open>dec\<close> yields the
  credentials and the expiration text, \<open>rfc3339\<close> the moment.
\<close>

definition assumeRole ::
  "(byte list \<Rightarrow> (Credentials \<times> string) option) \<Rightarrow> (string \<Rightarrow> int option) \<Rightarrow> (string \<Rightarrow> 'w \<Rightarrow> (string, nat \<times> byte list) res \<times> 'w)
   \<Rightarrow> byte list option \<Rightarrow> 'w \<Rightarrow> (string, Credentials \<times> int) res \<times> 'w" where
  "assumeRole dec rfc3339 sts tokenFile w =
     (case tokenFile of
        None \<Rightarrow> (Err ''reading web identity token'', w)
      | Some token \<Rightarrow>
          (case sts (trim_space (of_bytes token)) w of
             (Err e, w1) \<Rightarrow> (Err e, w1)
           | (Panic, w1) \<Rightarrow> (Panic, w1)
           | (Ok (status, body), w1) \<Rightarrow>
               (if status \<noteq> 200 then Err ''STS status''
                else case dec (take (2 ^ 20) body) of
                  None \<Rightarrow> Err ''decoding STS response''
                | Some (cr, expiration) \<Rightarrow>
                    if AccessKeyID cr = [] \<or> SecretAccessKey cr = [] \<or> SessionToken cr = [] then
                      Err ''STS response carries no credentials''
                    else case rfc3339 expiration of
                           None \<Rightarrow> Err ''STS expiration''
                         | Some e \<Rightarrow> Ok (cr, e), w1)))"

definition wi_Credentials ::
  "int \<Rightarrow> (string, Credentials \<times> int) res \<Rightarrow> web_identity \<Rightarrow> (string, Credentials) res \<times> web_identity" where
  "wi_Credentials now assumed p =
     (if \<not> IsZero (wi_cached p) \<and> now < wi_expiry p - refreshSlack then (Ok (wi_cached p), p)
      else case assumed of
             Err e \<Rightarrow> (Err e, p)
           | Panic \<Rightarrow> (Panic, p)
           | Ok (cr, e) \<Rightarrow> (Ok cr, p\<lparr>wi_cached := cr, wi_expiry := e\<rparr>))"

end
