(* ===== verification/S3backend.thy ===== *)
theory S3backend
  imports S3_Client Backend Fsbackend
begin

text \<open>
  Package internal/backend/s3backend: the storage interface on a bucket. A backend
  is its name, its client, its key prefix, the hash functions and the JSON codec of
  manifests. The reading operations of the interface return no world: what their
  requests do to it is dropped. Content is spooled in memory, where the code uses a
  temporary file.
\<close>

section \<open>The backend and its keys (s3backend.go)\<close>

record 'w s3_backend =
  sb_name :: string
  sb_client :: "'w s3_client"
  sb_prefix :: string
  sb_sha1hex :: "byte list \<Rightarrow> string"
  sb_sha256hex :: "byte list \<Rightarrow> string"
  sb_enc_manifest :: "Manifest \<Rightarrow> byte list"
  sb_dec_manifest :: "byte list \<Rightarrow> Manifest option"

definition s3_prefix :: "string \<Rightarrow> string" where
  "s3_prefix p = (let t = trim_char CHR ''/'' p in if t \<noteq> [] then t @ ''/'' else t)"

definition s3backend_New ::
  "string \<Rightarrow> string \<Rightarrow> (s3_error, 'w s3_client) res \<Rightarrow> 'w s3_backend \<Rightarrow> (s3_error, 'w s3_backend) res" where
  "s3backend_New name pre client b0 =
     res_map (\<lambda>c. b0\<lparr>sb_name := name, sb_client := c, sb_prefix := s3_prefix pre\<rparr>) client"

text \<open>The segments of a repository are clean, so \<open>path.Join\<close> only joins.\<close>

definition repoPrefix :: "'w s3_backend \<Rightarrow> repo_kind \<Rightarrow> repo_id \<Rightarrow> string" where
  "repoPrefix b kind repo = sb_prefix b @ APIPrefix kind @ ''/'' @ repo_string repo @ ''/''"

definition manifestKey :: "'w s3_backend \<Rightarrow> repo_kind \<Rightarrow> repo_id \<Rightarrow> string \<Rightarrow> string" where
  "manifestKey b kind repo sha = repoPrefix b kind repo @ ''manifests/'' @ sha @ ''.json''"

definition blobKey :: "'w s3_backend \<Rightarrow> repo_kind \<Rightarrow> repo_id \<Rightarrow> digest \<Rightarrow> string" where
  "blobKey b kind repo d = repoPrefix b kind repo @ ''blobs/'' @ Digest_Hex d"

definition refKey :: "'w s3_backend \<Rightarrow> repo_kind \<Rightarrow> repo_id \<Rightarrow> string \<Rightarrow> string option" where
  "refKey b kind repo ref =
     (if \<not> validRelPath ref then None else Some (repoPrefix b kind repo @ ''refs/'' @ ref))"

definition markerKey :: string where
  "markerKey = ''.repo''"

definition s3_fault :: "string \<Rightarrow> backend_error" where
  "s3_fault msg = BackendFault (''s3backend: '' @ msg)"

definition repoExists :: "'w s3_backend \<Rightarrow> repo_kind \<Rightarrow> repo_id \<Rightarrow> 'w \<Rightarrow> (backend_error, bool) res \<times> 'w" where
  "repoExists b kind repo w =
     (case s3_List (sb_client b) (repoPrefix b kind repo) [] 1 w of
        (r, w1) \<Rightarrow> (res_map_err (\<lambda>_. s3_fault ''checking repo'') (res_map (\<lambda>(keys, _). keys \<noteq> []) r), w1))"

definition missErr :: "'w s3_backend \<Rightarrow> repo_kind \<Rightarrow> repo_id \<Rightarrow> 'w \<Rightarrow> backend_error" where
  "missErr b kind repo w =
     (case fst (repoExists b kind repo w) of
        Ok False \<Rightarrow> ErrRepoNotFound
      | Ok True \<Rightarrow> ErrRevisionNotFound
      | Err e \<Rightarrow> e
      | Panic \<Rightarrow> s3_fault ''checking repo'')"

definition putBytes :: "'w s3_backend \<Rightarrow> string \<Rightarrow> byte list \<Rightarrow> 'w \<Rightarrow> (s3_error, unit) res \<times> 'w" where
  "putBytes b key data w = s3_Put (sb_client b) key data (int (length data)) (sb_sha256hex b data) w"

section \<open>Repositories\<close>

definition s3b_CreateRepo :: "'w s3_backend \<Rightarrow> repo_kind \<Rightarrow> repo_id \<Rightarrow> 'w \<Rightarrow> (backend_error, unit) res \<times> 'w" where
  "s3b_CreateRepo b kind repo w =
     (case repoExists b kind repo w of
        (Err e, w1) \<Rightarrow> (Err e, w1)
      | (Panic, w1) \<Rightarrow> (Panic, w1)
      | (Ok True, w1) \<Rightarrow> (Err ErrRepoExists, w1)
      | (Ok False, w1) \<Rightarrow>
          (case putBytes b (repoPrefix b kind repo @ markerKey) [] w1 of
             (r, w2) \<Rightarrow> (res_map_err (\<lambda>_. s3_fault ''creating repo'') r, w2)))"

fun delete_keys :: "'w s3_backend \<Rightarrow> string list \<Rightarrow> 'w \<Rightarrow> (backend_error, unit) res \<times> 'w" where
  "delete_keys b [] w = (Ok (), w)"
| "delete_keys b (k # ks) w =
     (case s3_Delete (sb_client b) k w of
        (Ok _, w1) \<Rightarrow> delete_keys b ks w1
      | (Err _, w1) \<Rightarrow> (Err (s3_fault ''deleting''), w1)
      | (Panic, w1) \<Rightarrow> (Panic, w1))"

text \<open>
  The loop over the pages of a listing. It ends when the service says so: the value
  \<open>None\<close> is a listing that never ends.
\<close>

partial_function (option) delete_pages ::
  "'w s3_backend \<Rightarrow> string \<Rightarrow> string \<Rightarrow> bool \<Rightarrow> 'w \<Rightarrow> ((backend_error, bool) res \<times> 'w) option" where
  "delete_pages b pre tok found w =
     (case s3_List (sb_client b) pre tok 0 w of
        (Err _, w1) \<Rightarrow> Some (Err (s3_fault ''listing repo''), w1)
      | (Panic, w1) \<Rightarrow> Some (Panic, w1)
      | (Ok (keys, nxt), w1) \<Rightarrow>
          (case delete_keys b keys w1 of
             (Err e, w2) \<Rightarrow> Some (Err e, w2)
           | (Panic, w2) \<Rightarrow> Some (Panic, w2)
           | (Ok _, w2) \<Rightarrow>
               if nxt = [] then Some (Ok (found \<or> keys \<noteq> []), w2)
               else delete_pages b pre nxt (found \<or> keys \<noteq> []) w2))"

definition s3b_DeleteRepo ::
  "'w s3_backend \<Rightarrow> repo_kind \<Rightarrow> repo_id \<Rightarrow> 'w \<Rightarrow> ((backend_error, unit) res \<times> 'w) option" where
  "s3b_DeleteRepo b kind repo w =
     map_option (\<lambda>(r, w1). (res_bind r (\<lambda>found. if found then Ok () else Err ErrRepoNotFound), w1))
       (delete_pages b (repoPrefix b kind repo) [] False w)"

section \<open>References and manifests\<close>

definition s3b_ResolveRef ::
  "'w s3_backend \<Rightarrow> repo_kind \<Rightarrow> repo_id \<Rightarrow> string \<Rightarrow> 'w \<Rightarrow> (backend_error, string) res" where
  "s3b_ResolveRef b kind repo ref w =
     (if IsCommitSHA ref then
        (case s3_Head (sb_client b) (manifestKey b kind repo ref) w of
           (Ok _, w1) \<Rightarrow> Ok ref
         | (Panic, w1) \<Rightarrow> Panic
         | (Err e, w1) \<Rightarrow> Err (if e = S3NotFound then missErr b kind repo w1 else s3_fault ''resolving''))
      else case refKey b kind repo ref of
        None \<Rightarrow> Err (missErr b kind repo w)
      | Some key \<Rightarrow>
          (case s3_Get (sb_client b) key 0 w of
             (Panic, w1) \<Rightarrow> Panic
           | (Err e, w1) \<Rightarrow> Err (if e = S3NotFound then missErr b kind repo w1 else s3_fault ''resolving'')
           | (Ok content, w1) \<Rightarrow>
               (let sha = trim_space (of_bytes (take (2 ^ 10) content)) in
                if \<not> IsCommitSHA sha then Err (s3_fault ''ref contains invalid commit'') else Ok sha)))"

definition s3b_GetManifest ::
  "'w s3_backend \<Rightarrow> repo_kind \<Rightarrow> repo_id \<Rightarrow> string \<Rightarrow> 'w \<Rightarrow> (backend_error, Manifest) res" where
  "s3b_GetManifest b kind repo sha w =
     (case s3_Get (sb_client b) (manifestKey b kind repo sha) 0 w of
        (Panic, w1) \<Rightarrow> Panic
      | (Err e, w1) \<Rightarrow> Err (if e = S3NotFound then missErr b kind repo w1 else s3_fault ''fetching manifest'')
      | (Ok content, w1) \<Rightarrow>
          (case sb_dec_manifest b (take (64 * 2 ^ 20) content) of
             None \<Rightarrow> Err (s3_fault ''decoding manifest'')
           | Some m \<Rightarrow> Ok m))"

fun s3_put_refs ::
  "'w s3_backend \<Rightarrow> repo_kind \<Rightarrow> repo_id \<Rightarrow> (string \<times> string) list \<Rightarrow> 'w \<Rightarrow> (backend_error, unit) res \<times> 'w" where
  "s3_put_refs b kind repo [] w = (Ok (), w)"
| "s3_put_refs b kind repo ((ref, sha) # refs) w =
     (if \<not> IsCommitSHA sha then (Err (s3_fault ''ref points at invalid commit''), w)
      else case refKey b kind repo ref of
             None \<Rightarrow> (Err (s3_fault ''invalid ref name''), w)
           | Some key \<Rightarrow>
               (case putBytes b key (to_bytes sha) w of
                  (Ok _, w1) \<Rightarrow> s3_put_refs b kind repo refs w1
                | (Err _, w1) \<Rightarrow> (Err (s3_fault ''writing ref''), w1)
                | (Panic, w1) \<Rightarrow> (Panic, w1)))"

definition s3b_PutManifest ::
  "'w s3_backend \<Rightarrow> Manifest \<Rightarrow> (string \<times> string) list \<Rightarrow> 'w \<Rightarrow> (backend_error, unit) res \<times> 'w" where
  "s3b_PutManifest b m refs w =
     (if repo_is_zero (mf_Repo m) \<or> mf_CommitSHA m = [] \<or> \<not> IsCommitSHA (mf_CommitSHA m) then
        (Err (s3_fault ''manifest requires repo and a valid commit SHA''), w)
      else
        let kind = (if mf_Kind m = RepoKindNone then RepoKindModel else mf_Kind m) in
        if \<not> list_all (\<lambda>f. validRelPath (fe_Path f)) (mf_Files m) then
          (Err (s3_fault ''manifest file path is not a safe relative path''), w)
        else
          case putBytes b (manifestKey b kind (mf_Repo m) (mf_CommitSHA m)) (sb_enc_manifest b m) w of
            (Ok _, w1) \<Rightarrow> s3_put_refs b kind (mf_Repo m) refs w1
          | (Err _, w1) \<Rightarrow> (Err (s3_fault ''writing manifest''), w1)
          | (Panic, w1) \<Rightarrow> (Panic, w1))"

section \<open>Blobs\<close>

definition s3b_StatBlob ::
  "'w s3_backend \<Rightarrow> repo_kind \<Rightarrow> repo_id \<Rightarrow> digest \<Rightarrow> 'w \<Rightarrow> (backend_error, BlobInfo) res" where
  "s3b_StatBlob b kind repo d w =
     (case fst (s3_Head (sb_client b) (blobKey b kind repo d) w) of
        Ok sz \<Rightarrow> Ok \<lparr>bi_Digest = d, bi_Size = sz\<rparr>
      | Panic \<Rightarrow> Panic
      | Err e \<Rightarrow> Err (if e = S3NotFound then ErrBlobNotFound else s3_fault ''stat blob''))"

definition s3b_OpenRanged ::
  "'w s3_backend \<Rightarrow> repo_kind \<Rightarrow> repo_id \<Rightarrow> digest \<Rightarrow> 'w \<Rightarrow> (backend_error, ranged_reader) res \<times> 'w" where
  "s3b_OpenRanged b kind repo d w =
     (case OpenRanged (sb_client b) (blobKey b kind repo d) w of
        (r, w1) \<Rightarrow>
          (res_map_err (\<lambda>e. if e = S3NotFound then ErrBlobNotFound else s3_fault ''opening blob'') r, w1))"

text \<open>
  The content a caller reads from the reader in one pass; a failing read is reported
  as a failure to open.
\<close>

definition s3b_OpenBlob ::
  "'w s3_backend \<Rightarrow> repo_kind \<Rightarrow> repo_id \<Rightarrow> digest \<Rightarrow> 'w \<Rightarrow> (backend_error, byte list) res" where
  "s3b_OpenBlob b kind repo d w =
     (case s3b_OpenRanged b kind repo d w of
        (Err e, w1) \<Rightarrow> Err e
      | (Panic, w1) \<Rightarrow> Panic
      | (Ok r, w1) \<Rightarrow>
          (case rr_Read (sb_client b) (nat (rr_size r)) r w1 of
             ((data, None), _, _) \<Rightarrow> Ok data
           | ((data, Some ReadEOF), _, _) \<Rightarrow> Ok data
           | ((data, Some e), _, _) \<Rightarrow> Err (s3_fault ''reading blob'')))"

text \<open>\<open>spoolAndVerify\<close> (spool.go): the size and the payload hash of verified content.\<close>

definition spoolAndVerify ::
  "'w s3_backend \<Rightarrow> byte list \<Rightarrow> digest \<Rightarrow> int \<Rightarrow> (backend_error, int \<times> string) res" where
  "spoolAndVerify b content d sz =
     (let written = int (length content); payload = sb_sha256hex b content; algo = Digest_Algo d in
      if algo = ''sha256'' \<and> payload \<noteq> Digest_Hex d then Err ErrDigestMismatch
      else if algo = ''sha1'' \<and> sb_sha1hex b (git_header written @ content) \<noteq> Digest_Hex d then Err ErrDigestMismatch
      else if 0 \<le> sz \<and> written \<noteq> sz then Err (s3_fault ''short write'')
      else Ok (written, payload))"

definition s3b_PutBlob ::
  "'w s3_backend \<Rightarrow> repo_kind \<Rightarrow> repo_id \<Rightarrow> digest \<Rightarrow> byte list \<Rightarrow> int \<Rightarrow> 'w
   \<Rightarrow> (backend_error, unit) res \<times> 'w" where
  "s3b_PutBlob b kind repo d content sz w =
     (let key = blobKey b kind repo d in
      case s3_Head (sb_client b) key w of
        (Ok _, w1) \<Rightarrow> (Ok (), w1)
      | (Panic, w1) \<Rightarrow> (Panic, w1)
      | (Err _, w1) \<Rightarrow>
          (case spoolAndVerify b content d sz of
             Err e \<Rightarrow> (Err e, w1)
           | Panic \<Rightarrow> (Panic, w1)
           | Ok (n, payload) \<Rightarrow>
               (case s3_Put (sb_client b) key content n payload w1 of
                  (r, w2) \<Rightarrow> (res_map_err (\<lambda>_. s3_fault ''writing blob'') r, w2))))"

definition s3b_Ping :: "'w s3_backend \<Rightarrow> 'w \<Rightarrow> (backend_error, unit) res" where
  "s3b_Ping b w = res_map_err (\<lambda>_. s3_fault ''bucket not reachable'') (fst (s3_Ping (sb_client b) w))"

text \<open>The operations as the interface has them; a deletion that never ends is a fault.\<close>

definition S3backend :: "'w s3_backend \<Rightarrow> 'w Backend" where
  "S3backend b =
     \<lparr>bk_Name = sb_name b, bk_CreateRepo = s3b_CreateRepo b,
      bk_DeleteRepo = (\<lambda>kind repo w. case s3b_DeleteRepo b kind repo w of
         None \<Rightarrow> (Err (s3_fault ''listing repo''), w) | Some x \<Rightarrow> x),
      bk_ResolveRef = s3b_ResolveRef b, bk_GetManifest = s3b_GetManifest b, bk_PutManifest = s3b_PutManifest b,
      bk_StatBlob = s3b_StatBlob b, bk_OpenBlob = s3b_OpenBlob b, bk_PutBlob = s3b_PutBlob b, bk_Ping = s3b_Ping b\<rparr>"

end
