(* ===== verification/S3_Server.thy ===== *)
theory S3_Server
  imports S3_Client Go_Base64
begin

text \<open>
  Package internal/fakes3: the S3 server the bucket backend is tested against, with
  its own check of request signatures. The XML encoders are arguments.
\<close>

record fakes3 =
  f3_bucket :: string
  f3_accessKey :: string
  f3_secretKey :: string

type_synonym s3_objects = "(string \<times> byte list) list"

record s3_xml =
  sx_enc_error :: "string \<Rightarrow> string \<Rightarrow> byte list"
  sx_enc_page :: "string list \<Rightarrow> bool \<Rightarrow> string \<Rightarrow> byte list"

definition writeErr :: "s3_xml \<Rightarrow> nat \<Rightarrow> string \<Rightarrow> string \<Rightarrow> s3_response" where
  "writeErr x status code message =
     (let b = sx_enc_error x code message in \<lparr>sp_Status = status, sp_Length = int (length b), sp_Body = b\<rparr>)"

section \<open>Signatures\<close>

text \<open>\<open>Header.Get\<close> and \<open>Header.Values\<close>.\<close>

definition header_all :: "string \<Rightarrow> s3_request \<Rightarrow> string list" where
  "header_all k req = (case map_of (sq_Header req) k of None \<Rightarrow> [] | Some vs \<Rightarrow> vs)"

definition header_get :: "string \<Rightarrow> s3_request \<Rightarrow> string" where
  "header_get k req = (case header_all k req of [] \<Rightarrow> [] | v # _ \<Rightarrow> v)"

fun f3_encodeComponent :: "string \<Rightarrow> string" where
  "f3_encodeComponent [] = []"
| "f3_encodeComponent (c # cs) =
     (if uri_unreserved c then c # f3_encodeComponent cs
      else CHR ''%'' # upper_hex (of_char c div 16) # upper_hex (of_char c mod 16) # f3_encodeComponent cs)"

fun f3_encodePath :: "string \<Rightarrow> string" where
  "f3_encodePath [] = []"
| "f3_encodePath (c # cs) =
     (if c = CHR ''/'' \<or> uri_unreserved c then c # f3_encodePath cs
      else CHR ''%'' # upper_hex (of_char c div 16) # upper_hex (of_char c mod 16) # f3_encodePath cs)"

definition f3_encodeQuery :: "(string \<times> string list) list \<Rightarrow> string" where
  "f3_encodeQuery q =
     join_on ''&'' (concat (map (\<lambda>k.
       map (\<lambda>v. f3_encodeComponent k @ ''='' @ f3_encodeComponent v)
         (sort (case map_of q k of None \<Rightarrow> [] | Some vs \<Rightarrow> vs)))
       (sort (map fst q))))"

text \<open>The fields of the Authorization header: of two with one name the later one counts.\<close>

definition auth_fields :: "string \<Rightarrow> (string \<times> string) list" where
  "auth_fields rest =
     fold (\<lambda>part. case cut_on CHR ''='' (trim_space part) of
                     Some (k, v) \<Rightarrow> AList.update k v
                   | None \<Rightarrow> AList.update (trim_space part) []) (split_on CHR '','' rest) []"

definition auth_field :: "string \<Rightarrow> (string \<times> string) list \<Rightarrow> string" where
  "auth_field k flds = (case map_of flds k of None \<Rightarrow> [] | Some v \<Rightarrow> v)"

definition signed_value :: "s3_request \<Rightarrow> string \<Rightarrow> string" where
  "signed_value req name = (if name = ''host'' then sq_Host req else join_on '','' (header_all name req))"

definition expected_signature ::
  "s3_crypto \<Rightarrow> fakes3 \<Rightarrow> s3_request \<Rightarrow> string \<Rightarrow> string \<Rightarrow> string \<Rightarrow> string \<Rightarrow> string" where
  "expected_signature cy s req scopeDate region signedHeaders payloadHash =
     (let canonHeaders = concat (map (\<lambda>n. n @ '':'' @ squeeze (signed_value req n) @ nl) (split_on CHR '';'' signedHeaders));
          canonicalRequest = join_on nl
            [sq_Method req, f3_encodePath (sq_Path req), f3_encodeQuery (sq_Query req), canonHeaders,
             signedHeaders, payloadHash];
          scope = join_on ''/'' [scopeDate, region, ''s3'', ''aws4_request''];
          stringToSign = join_on nl
            [''AWS4-HMAC-SHA256'', header_get ''x-amz-date'' req, scope, cy_sha256hex cy (to_bytes canonicalRequest)];
          key = fold (\<lambda>part k. cy_hmac cy k (to_bytes part)) [scopeDate, region, ''s3'', ''aws4_request'']
                  (to_bytes (''AWS4'' @ f3_secretKey s))
      in hex_encode (cy_hmac cy key (to_bytes stringToSign)))"

text \<open>\<open>verify\<close>: the error code and message, or nothing.\<close>

definition f3_verify :: "s3_crypto \<Rightarrow> fakes3 \<Rightarrow> s3_request \<Rightarrow> (string \<times> string) option" where
  "f3_verify cy s req =
     (let auth = header_get ''authorization'' req in
      if auth = [] then Some (''AccessDenied'', ''anonymous request to a credentialed bucket'')
      else case cut_prefix ''AWS4-HMAC-SHA256 '' auth of
        None \<Rightarrow> Some (''AccessDenied'', ''unsupported authorization scheme'')
      | Some rest \<Rightarrow>
          (let flds = auth_fields rest; credential = auth_field ''Credential'' flds;
               signedHeaders = auth_field ''SignedHeaders'' flds; signature = auth_field ''Signature'' flds in
           if credential = [] \<or> signedHeaders = [] \<or> signature = [] then
             Some (''AuthorizationHeaderMalformed'', ''missing Credential, SignedHeaders, or Signature'')
           else case split_on CHR ''/'' credential of
             [accessKey, scopeDate, region, service, terminator] \<Rightarrow>
               (let payloadHash = header_get ''x-amz-content-sha256'' req in
                if accessKey \<noteq> f3_accessKey s then
                  Some (''InvalidAccessKeyId'', ''unknown access key '' @ accessKey)
                else if service \<noteq> ''s3'' \<or> terminator \<noteq> ''aws4_request'' then
                  Some (''SignatureDoesNotMatch'', ''credential scope must end in /s3/aws4_request'')
                else if \<not> has_prefix scopeDate (header_get ''x-amz-date'' req) then
                  Some (''SignatureDoesNotMatch'', ''x-amz-date does not match credential scope date'')
                else if payloadHash = [] then Some (''InvalidRequest'', ''missing x-amz-content-sha256'')
                else if payloadHash \<noteq> ''UNSIGNED-PAYLOAD'' \<and> payloadHash \<noteq> cy_sha256hex cy (sq_Body req) then
                  Some (''XAmzContentSHA256Mismatch'', ''payload hash does not match body'')
                else if expected_signature cy s req scopeDate region signedHeaders payloadHash \<noteq> signature then
                  Some (''SignatureDoesNotMatch'', ''signature mismatch'')
                else None)
           | _ \<Rightarrow> Some (''AuthorizationHeaderMalformed'', ''credential is not accessKey/date/region/service/aws4_request'')))"

section \<open>Objects\<close>

definition f3_parseRange :: "string \<Rightarrow> int \<Rightarrow> (int \<times> int) option" where
  "f3_parseRange header sz =
     (if header = [] then Some (0, sz - 1)
      else case cut_prefix ''bytes='' header of
        None \<Rightarrow> None
      | Some spec \<Rightarrow>
          (case cut_on CHR ''-'' spec of
             None \<Rightarrow> None
           | Some (fromStr, toStr) \<Rightarrow>
               (case parse_int64 fromStr of
                  None \<Rightarrow> None
                | Some frm \<Rightarrow>
                    if frm < 0 \<or> sz \<le> frm then None
                    else if toStr = [] then Some (frm, sz - 1)
                    else case parse_int64 toStr of
                           None \<Rightarrow> None
                         | Some t \<Rightarrow> if t < frm then None else Some (frm, min t (sz - 1)))))"

definition f3_get :: "s3_xml \<Rightarrow> s3_request \<Rightarrow> string \<Rightarrow> s3_objects \<Rightarrow> s3_response" where
  "f3_get x req key objs =
     (case map_of objs key of
        None \<Rightarrow> writeErr x 404 ''NoSuchKey'' (''no key '' @ key)
      | Some content \<Rightarrow>
          (let rng = header_get ''range'' req in
           case f3_parseRange rng (int (length content)) of
             None \<Rightarrow> writeErr x 416 ''InvalidRange'' rng
           | Some (frm, t) \<Rightarrow>
               \<lparr>sp_Status = (if rng \<noteq> [] then 206 else 200), sp_Length = t - frm + 1,
                sp_Body = (if sq_Method req \<noteq> ''HEAD'' then gslice (nat frm) (nat (t + 1)) content else [])\<rparr>))"

definition query_get :: "string \<Rightarrow> (string \<times> string list) list \<Rightarrow> string" where
  "query_get k q = (case map_of q k of Some (v # _) \<Rightarrow> v | _ \<Rightarrow> [])"

text \<open>A page of no keys that is truncated has no last key: the index panics.\<close>

definition f3_list :: "s3_xml \<Rightarrow> s3_request \<Rightarrow> s3_objects \<Rightarrow> (unit, s3_response) res" where
  "f3_list x req objs =
     (let q = sq_Query req in
      if query_get ''list-type'' q \<noteq> ''2'' then Ok (writeErr x 400 ''InvalidArgument'' ''only list-type=2 is supported'')
      else
        let mk = query_get ''max-keys'' q; tok = query_get ''continuation-token'' q in
        case (if mk = [] then Some 1000
              else case parse_int64 mk of None \<Rightarrow> None | Some n \<Rightarrow> if n < 0 then None else Some n) of
          None \<Rightarrow> Ok (writeErr x 400 ''InvalidArgument'' ''bad max-keys'')
        | Some maxKeys \<Rightarrow>
            (case (if tok = [] then Some [] else map_option of_bytes (b64_decode StdAlphabet True tok)) of
               None \<Rightarrow> Ok (writeErr x 400 ''InvalidArgument'' ''bad continuation-token'')
             | Some startAfter \<Rightarrow>
                 (let matched = sort (filter (\<lambda>k. has_prefix (query_get ''prefix'' q) k \<and> startAfter < k) (map fst objs));
                      truncated = nat maxKeys < length matched in
                  if truncated \<and> maxKeys = 0 then Panic
                  else
                    let page = (if truncated then take (nat maxKeys) matched else matched);
                        b = sx_enc_page x page truncated
                              (if truncated then b64_encode StdAlphabet True (to_bytes (last page)) else [])
                    in Ok \<lparr>sp_Status = 200, sp_Length = int (length b), sp_Body = b\<rparr>)))"

text \<open>The request on the bucket, once it is authorized.\<close>

definition f3_route :: "s3_xml \<Rightarrow> fakes3 \<Rightarrow> s3_request \<Rightarrow> s3_objects \<Rightarrow> (unit, s3_response) res \<times> s3_objects" where
  "f3_route x s req objs =
     (let p = trim_prefix ''/'' (sq_Path req);
          (bucket, key) = (case cut_on CHR ''/'' p of Some z \<Rightarrow> z | None \<Rightarrow> (p, []));
          m = sq_Method req
      in if bucket \<noteq> f3_bucket s then (Ok (writeErr x 404 ''NoSuchBucket'' (''no bucket '' @ bucket)), objs)
         else if key = [] \<and> m = ''GET'' then (f3_list x req objs, objs)
         else if m = ''GET'' \<or> m = ''HEAD'' then (Ok (f3_get x req key objs), objs)
         else if m = ''PUT'' then
           (Ok \<lparr>sp_Status = 200, sp_Length = 0, sp_Body = []\<rparr>, AList.update key (sq_Body req) objs)
         else if m = ''DELETE'' then
           (Ok \<lparr>sp_Status = 204, sp_Length = 0, sp_Body = []\<rparr>, AList.delete key objs)
         else (Ok (writeErr x 405 ''MethodNotAllowed'' m), objs))"

definition f3_ServeHTTP ::
  "s3_crypto \<Rightarrow> s3_xml \<Rightarrow> fakes3 \<Rightarrow> s3_request \<Rightarrow> s3_objects \<Rightarrow> (unit, s3_response) res \<times> s3_objects" where
  "f3_ServeHTTP cy x s req objs =
     (case (if f3_accessKey s \<noteq> [] then f3_verify cy s req else None) of
        Some (code, msg) \<Rightarrow> (Ok (writeErr x 403 code msg), objs)
      | None \<Rightarrow> f3_route x s req objs)"

end
