(* ===== verification/S3_Sign.thy ===== *)
theory S3_Sign
  imports S3_Server
begin

text \<open>
  The client's signer against the server's verifier, which were written
  independently of each other: every request that is signed with the server's keys
  passes the verification.
\<close>

section \<open>Encodings\<close>

lemma f3_encodeComponent_eq: "f3_encodeComponent s = uriEncode True s"
  by (induction s) auto

lemma f3_encodePath_eq: "f3_encodePath s = uriEncode False s"
  by (induction s) auto

lemma f3_encodeQuery_eq: "f3_encodeQuery q = canonicalQuery q"
  by (simp add: f3_encodeQuery_def canonicalQuery_def f3_encodeComponent_eq)

section \<open>Headers\<close>

lemma header_all_set [simp]:
  "header_all k (header_set k' v req) = (if k = k' then [v] else header_all k req)"
  by (simp add: header_all_def header_set_def update_conv')

lemma header_get_set [simp]:
  "header_get k (header_set k' v req) = (if k = k' then v else header_get k req)"
  by (simp add: header_get_def)

lemma header_set_simps [simp]:
  "sq_Method (header_set k v req) = sq_Method req" "sq_Path (header_set k v req) = sq_Path req"
  "sq_Query (header_set k v req) = sq_Query req" "sq_Host (header_set k v req) = sq_Host req"
  "sq_Body (header_set k v req) = sq_Body req"
  by (simp_all add: header_set_def)

lemma map_of_fold_update:
  "map_of (fold (\<lambda>(k, v). AList.update k (f v)) xs ys) k =
     (case map_of (rev xs) k of Some v \<Rightarrow> Some (f v) | None \<Rightarrow> map_of ys k)"
  by (induction xs arbitrary: ys) (auto simp: update_conv' map_of_append split: option.splits)

text \<open>Requests as the client makes them: one value per header, and none that the signer adds.\<close>

definition token_name :: "string \<Rightarrow> bool" where
  "token_name n \<longleftrightarrow> n \<noteq> [] \<and> list_all (\<lambda>c. \<not> is_space c \<and> c \<noteq> CHR '','' \<and> c \<noteq> CHR '';'') n"

definition plain_headers :: "s3_request \<Rightarrow> bool" where
  "plain_headers req \<longleftrightarrow>
     distinct (map fst (sq_Header req)) \<and>
     (\<forall>(n, vs) \<in> set (sq_Header req). token_name n \<and> n \<noteq> ''host'' \<and> n \<noteq> ''authorization'' \<and> length vs = 1)"

lemma alist_update_cases: "(n, x) \<in> set (AList.update k v xs) \<Longrightarrow> (n, x) = (k, v) \<or> (n, x) \<in> set xs"
  by (induction xs) (auto split: if_splits)

lemma plain_headers_set:
  "plain_headers req \<Longrightarrow> token_name k \<Longrightarrow> k \<noteq> ''host'' \<Longrightarrow> k \<noteq> ''authorization'' \<Longrightarrow>
     plain_headers (header_set k v req)"
  by (auto simp: plain_headers_def header_set_def AList.distinct_update dest!: alist_update_cases)

lemma map_of_rev_distinct: "distinct (map fst xs) \<Longrightarrow> map_of (rev xs) k = map_of xs k"
proof (cases "map_of xs k")
  case None
  then have "map_of (rev xs) k = None" by (simp add: map_of_eq_None_iff)
  with None show ?thesis by simp
qed (simp add: map_of_eq_Some_iff rev_map [symmetric])

lemma header_values_lookup:
  "plain_headers req \<Longrightarrow> map_of (header_values req) n =
     (case map_of (sq_Header req) n of
        Some vs \<Rightarrow> Some (join_on '','' (map squeeze vs))
      | None \<Rightarrow> if n = ''host'' then Some (sq_Host req) else None)"
  by (simp add: header_values_def map_of_fold_update map_of_rev_distinct plain_headers_def split: option.split)

lemma signed_value_canonical:
  assumes "plain_headers req" and "squeeze (sq_Host req) = sq_Host req"
    and "n \<in> set (map fst (header_values req))"
  shows "the (map_of (header_values req) n) = squeeze (signed_value (header_set ''authorization'' a req) n)"
proof (cases "map_of (sq_Header req) n")
  case None
  have "map_of (header_values req) n \<noteq> None" using assms(3) by (simp add: map_of_eq_None_iff)
  with None assms(1,2) show ?thesis
    by (auto simp: header_values_lookup signed_value_def split: if_splits)
next
  case (Some vs)
  then have "(n, vs) \<in> set (sq_Header req)" by (rule map_of_SomeD)
  with assms(1) obtain v where v: "vs = [v]" "n \<noteq> ''host''" "n \<noteq> ''authorization''"
    unfolding plain_headers_def by (cases vs) fastforce+
  with Some assms(1) show ?thesis
    by (simp add: header_values_lookup signed_value_def header_all_def [of n req])
qed

text \<open>The names that are signed: the headers and the host.\<close>

lemma signed_name_token:
  assumes "plain_headers req" and "n \<in> set (map fst (header_values req))"
  shows "token_name n"
proof (cases "map_of (sq_Header req) n")
  case None
  have "map_of (header_values req) n \<noteq> None" using assms(2) by (simp add: map_of_eq_None_iff)
  with None assms(1) have "n = ''host''" by (auto simp: header_values_lookup split: if_splits)
  then show ?thesis by (simp add: token_name_def is_space_def)
next
  case (Some vs)
  then have "(n, vs) \<in> set (sq_Header req)" by (rule map_of_SomeD)
  with assms(1) show ?thesis by (auto simp: plain_headers_def)
qed

lemma host_signed: "plain_headers req \<Longrightarrow> ''host'' \<in> set (map fst (header_values req))"
proof -
  assume p: "plain_headers req"
  then have "map_of (sq_Header req) ''host'' = None"
    by (force simp: plain_headers_def map_of_eq_None_iff)
  with p have "map_of (header_values req) ''host'' \<noteq> None" by (simp add: header_values_lookup)
  then show ?thesis by (simp add: map_of_eq_None_iff)
qed

section \<open>The Authorization header\<close>

lemma join_on_free: "(\<forall>s \<in> set ss. c \<notin> set s) \<Longrightarrow> c \<notin> set sep \<Longrightarrow> c \<notin> set (join_on sep ss)"
  by (induction sep ss rule: join_on.induct) auto

lemma auth_fields_sign:
  assumes "CHR '','' \<notin> set cred" "CHR '','' \<notin> set sh" "CHR '','' \<notin> set sig"
    and "cred \<noteq> []" "sh \<noteq> []" "sig \<noteq> []" "\<not> is_space (last cred)" "\<not> is_space (last sh)" "\<not> is_space (last sig)"
  shows "auth_fields (''Credential='' @ cred @ '',SignedHeaders='' @ sh @ '',Signature='' @ sig) =
    [(''Credential'', cred), (''SignedHeaders'', sh), (''Signature'', sig)]"
proof -
  let ?ps = "[''Credential='' @ cred, ''SignedHeaders='' @ sh, ''Signature='' @ sig]"
  have "split_on CHR '','' (join_on '','' ?ps) = ?ps"
    using assms(1-3) by (intro split_join) auto
  then have s: "split_on CHR '','' (''Credential='' @ cred @ '',SignedHeaders='' @ sh @ '',Signature='' @ sig) = ?ps"
    by simp
  have t: "trim_space (''Credential='' @ cred) = ''Credential='' @ cred"
    "trim_space (''SignedHeaders='' @ sh) = ''SignedHeaders='' @ sh"
    "trim_space (''Signature='' @ sig) = ''Signature='' @ sig"
    using assms(4-9) by (auto intro!: trim_space_id simp: is_space_def)
  show ?thesis by (simp only: auth_fields_def s fold_simps t) simp
qed

section \<open>Acceptance\<close>

lemma plain_signed_request: "plain_headers req \<Longrightarrow> plain_headers (signed_request creds h t req)"
  by (auto simp: signed_request_def Let_def token_name_def is_space_def intro!: plain_headers_set)

lemma signed_request_simps [simp]:
  "sq_Host (signed_request creds h t req) = sq_Host req" "sq_Body (signed_request creds h t req) = sq_Body req"
  "sq_Path (signed_request creds h t req) = sq_Path req" "sq_Query (signed_request creds h t req) = sq_Query req"
  "sq_Method (signed_request creds h t req) = sq_Method req"
  "header_get ''x-amz-date'' (signed_request creds h t req) = fst t"
  "header_get ''x-amz-content-sha256'' (signed_request creds h t req) = h"
  by (simp_all add: signed_request_def Let_def)

lemma expected_signature_eq:
  assumes p: "plain_headers r" and "squeeze (sq_Host r) = sq_Host r" and "header_get ''x-amz-date'' r = fst t"
    and "SecretAccessKey creds = f3_secretKey s"
  shows "expected_signature cy s (header_set ''authorization'' a r) (snd t) region (signed_names r) h =
    signature_of cy creds region h t r"
proof -
  let ?names = "sort (map fst (header_values r))"
  have "CHR '';'' \<notin> set n" if "n \<in> set ?names" for n
    using signed_name_token [OF p, of n] that by (auto simp: token_name_def list_all_iff)
  moreover have "?names \<noteq> []" using host_signed [OF p] by (metis empty_iff list.set(1) set_sort)
  ultimately have names: "split_on CHR '';'' (signed_names r) = ?names"
    unfolding signed_names_def canonicalizeHeaders_def Let_def fst_conv by (intro split_join) blast+
  have canon: "map (\<lambda>n. n @ '':'' @ squeeze (signed_value (header_set ''authorization'' a r) n) @ nl) ?names =
      map (\<lambda>n. n @ '':'' @ the (map_of (header_values r) n) @ nl) ?names"
    using signed_value_canonical [OF p assms(2), of _ a] by (intro map_cong) simp_all
  have key: "fold (\<lambda>part k. cy_hmac cy k (to_bytes part)) [snd t, region, ''s3'', ''aws4_request'']
        (to_bytes (''AWS4'' @ f3_secretKey s)) = signingKey cy (SecretAccessKey creds) (snd t) region"
    by (simp add: signingKey_def assms(4))
  have date: "header_get ''x-amz-date'' (header_set ''authorization'' a r) = fst t"
    using assms(3) by simp
  show ?thesis
    unfolding expected_signature_def signature_of_def Let_def names canon key date f3_encodePath_eq
      f3_encodeQuery_eq scope_of_def header_set_simps canonicalizeHeaders_def snd_conv ..
qed

lemma sign_accepted:
  assumes "plain_headers req" and "squeeze (sq_Host req) = sq_Host req"
    and "AccessKeyID creds = f3_accessKey s" and "SecretAccessKey creds = f3_secretKey s"
    and "\<forall>c \<in> set (AccessKeyID creds @ snd t @ region). c \<noteq> CHR ''/'' \<and> c \<noteq> CHR '',''"
    and "has_prefix (snd t) (fst t)" and "payloadHash \<noteq> []"
    and "payloadHash = ''UNSIGNED-PAYLOAD'' \<or> payloadHash = cy_sha256hex cy (sq_Body req)"
    and "\<forall>k d. cy_hmac cy k d \<noteq> []"
  shows "f3_verify cy s (sign cy creds region payloadHash t req) = None"
proof -
  let ?r = "signed_request creds payloadHash t req"
  let ?cred = "AccessKeyID creds @ ''/'' @ scope_of t region" and ?sig = "signature_of cy creds region payloadHash t ?r"
  let ?rest = "''Credential='' @ ?cred @ '',SignedHeaders='' @ signed_names ?r @ '',Signature='' @ ?sig"
  let ?a = "''AWS4-HMAC-SHA256 '' @ ?rest"
  let ?parts = "[AccessKeyID creds, snd t, region, ''s3'', ''aws4_request'']"
  note p = plain_signed_request [OF assms(1), of creds payloadHash t]
  let ?names = "fst (canonicalizeHeaders ?r)"
  have names: "token_name n" if "n \<in> set ?names" for n
    using signed_name_token [OF p, of n] that by (simp add: canonicalizeHeaders_def Let_def)
  have ne: "?names \<noteq> []"
    using host_signed [OF p] by (auto simp: canonicalizeHeaders_def Let_def dest: arg_cong [of _ "[]" set])
  have free: "c \<notin> set (signed_names ?r)" if "is_space c \<or> c = CHR '',''" for c
    unfolding signed_names_def using that names
    by (intro join_on_free) (auto simp: token_name_def list_all_iff is_space_def)
  have sh: "signed_names ?r \<noteq> []"
    unfolding signed_names_def using ne names [of "hd ?names"]
    by (intro join_on_nonempty) (auto simp: token_name_def)
  have cred: "?cred = join_on ''/'' ?parts" by (simp add: scope_of_def)
  have split: "split_on CHR ''/'' ?cred = ?parts"
    unfolding cred using assms(5) by (intro split_join) auto
  obtain k d where s0: "?sig = hex_encode (cy_hmac cy k d)"
    unfolding signature_of_def Let_def by blast
  have "length ?sig \<noteq> 0" unfolding s0 length_hex_encode using assms(9) by simp
  then have sig: "?sig \<noteq> []" by auto
  have lower: "list_all is_lower_hex ?sig" unfolding s0 by (rule hex_encode_lower)
  have hex: "c \<notin> set ?sig" if "is_space c \<or> c = CHR '',''" for c
    using that lower by (auto simp: list_all_iff is_lower_hex_iff is_space_def Let_def)
  have flds: "auth_fields ?rest = [(''Credential'', ?cred), (''SignedHeaders'', signed_names ?r), (''Signature'', ?sig)]"
  proof (rule auth_fields_sign)
    show "CHR '','' \<notin> set ?cred" using assms(5) by (auto simp: scope_of_def)
    show "CHR '','' \<notin> set (signed_names ?r)" "CHR '','' \<notin> set ?sig" using free hex by blast+
    show "?cred \<noteq> []" by simp
    show "\<not> is_space (last ?cred)" by (simp add: scope_of_def is_space_def)
    show "\<not> is_space (last (signed_names ?r))" "\<not> is_space (last ?sig)"
      using free hex last_in_set [OF sh] last_in_set [OF sig] by blast+
  qed (fact sh sig)+
  have auth: "header_get ''authorization'' (sign cy creds region payloadHash t req) = ?a"
    by (simp add: sign_def Let_def)
  have pre: "cut_prefix ''AWS4-HMAC-SHA256 '' ?a = Some ?rest"
    by (simp add: cut_prefix_def has_prefix_def)
  have other: "header_get k (sign cy creds region payloadHash t req) = header_get k ?r" if "k \<noteq> ''authorization''" for k
    using that by (simp add: sign_def Let_def)
  have sg: "expected_signature cy s (sign cy creds region payloadHash t req) (snd t) region (signed_names ?r) payloadHash = ?sig"
    unfolding sign_def Let_def using p assms(2,4) by (intro expected_signature_eq) simp_all
  have body: "sq_Body (sign cy creds region payloadHash t req) = sq_Body req" by (simp add: sign_def Let_def)
  have fl: "auth_field ''Credential'' (auth_fields ?rest) = ?cred"
    "auth_field ''SignedHeaders'' (auth_fields ?rest) = signed_names ?r"
    "auth_field ''Signature'' (auth_fields ?rest) = ?sig"
    unfolding flds by (simp_all add: auth_field_def)
  have nonempty: "?a \<noteq> []" "?cred \<noteq> []" by simp_all
  show ?thesis
    unfolding f3_verify_def Let_def auth pre option.case fl split list.case sg body
    using assms(3,6-8) nonempty sh sig by (simp add: other sg)
qed

text \<open>
  C15. Every request the client signs with the keys the server knows passes the
  server's verification, which was written from the specification independently
  of the signer: whatever the key, the path, the query and the headers are, both
  sides compute the same canonical request.
\<close>

theorem sign_verifies:
  assumes "plain_headers req" and "squeeze (sq_Host req) = sq_Host req"
    and "AccessKeyID creds = f3_accessKey s" and "SecretAccessKey creds = f3_secretKey s"
    and "\<forall>c \<in> set (AccessKeyID creds @ snd t @ region). c \<noteq> CHR ''/'' \<and> c \<noteq> CHR '',''"
    and "has_prefix (snd t) (fst t)" and "payloadHash \<noteq> []"
    and "payloadHash = ''UNSIGNED-PAYLOAD'' \<or> payloadHash = cy_sha256hex cy (sq_Body req)"
    and "\<forall>k d. cy_hmac cy k d \<noteq> []"
  shows "f3_verify cy s (sign cy creds region payloadHash t req) = None"
  using assms by (rule sign_accepted)

definition toy_crypto :: s3_crypto where
  "toy_crypto = \<lparr>cy_hmac = (\<lambda>k d. [word_of_nat (length k + length d)] @ take 3 d), cy_sha256hex = hex_encode\<rparr>"

definition toy_creds :: Credentials where
  "toy_creds = \<lparr>AccessKeyID = ''AK'', SecretAccessKey = ''SK'', SessionToken = ''T''\<rparr>"

definition toy_request :: s3_request where
  "toy_request =
     \<lparr>sq_Method = ''PUT'', sq_Host = ''s3.local'', sq_Path = ''/b/k ey'', sq_Query = [(''x'', [''2'', ''1''])],
      sq_Header = [(''range'', [''bytes=1-''])], sq_Body = [104, 105]\<rparr>"

theorem sign_verifies_witness:
  "f3_verify toy_crypto \<lparr>f3_bucket = ''b'', f3_accessKey = ''AK'', f3_secretKey = ''SK''\<rparr>
     (sign toy_crypto toy_creds ''eu'' ''6869'' (''20250101T000000Z'', ''20250101'') toy_request) = None"
proof (rule sign_verifies)
  show "plain_headers toy_request"
    by (simp add: plain_headers_def toy_request_def token_name_def is_space_def)
  show "squeeze (sq_Host toy_request) = sq_Host toy_request" by code_simp
  show "\<forall>k d. cy_hmac toy_crypto k d \<noteq> []" by (simp add: toy_crypto_def)
  show "''6869'' = ''UNSIGNED-PAYLOAD'' \<or> ''6869'' = cy_sha256hex toy_crypto (sq_Body toy_request)"
    by code_simp
  show "has_prefix (snd (''20250101T000000Z'', ''20250101'')) (fst (''20250101T000000Z'', ''20250101''))"
    by (simp add: has_prefix_def)
qed (simp_all add: toy_creds_def)

end
