(* ===== verification/S3_Net.thy ===== *)
theory S3_Net
  imports S3backend S3_Sign Xet_Store
begin

text \<open>
  The client of a bucket over the server of \<open>S3_Server\<close>, behind a network that may
  lose requests and responses: what Head, Get, Put and Delete do to the objects of
  the bucket, and ranged reads of an object. The client signs its requests with the
  server's keys, or both are anonymous. A lost read only yields an error, so the
  reads here are those that arrive; writes may be lost before or after they took
  effect.
\<close>

section \<open>The network\<close>

definition s3_net ::
  "s3_crypto \<Rightarrow> s3_xml \<Rightarrow> fakes3 \<Rightarrow> (string \<Rightarrow> string \<Rightarrow> net_fault) \<Rightarrow> s3_objects s3_http" where
  "s3_net cy x s lost rq w =
     (case lost (sq_Method rq) (sq_Path rq) of
        LostRequest \<Rightarrow> (Err ''timeout'', w)
      | LostResponse \<Rightarrow> (Err ''timeout'', snd (f3_ServeHTTP cy x s rq w))
      | NoFault \<Rightarrow>
          (case f3_ServeHTTP cy x s rq w of
             (Ok resp, w') \<Rightarrow> (Ok resp, w')
           | (_, w') \<Rightarrow> (Err ''EOF'', w')))"

text \<open>What is assumed of the hash functions, the clock, the keys and the XML decoder.\<close>

definition client_ok ::
  "s3_objects s3_client \<Rightarrow> s3_xml \<Rightarrow> fakes3 \<Rightarrow> (string \<Rightarrow> string \<Rightarrow> net_fault) \<Rightarrow> Credentials \<Rightarrow> bool" where
  "client_ok c x s lost creds \<longleftrightarrow>
     s3_http c = s3_net (s3_crypto_of c) x s lost \<and> s3_creds c = (\<lambda>w. (Ok creds, w)) \<and>
     s3_pathPrefix c = ''/'' @ f3_bucket s \<and> CHR ''/'' \<notin> set (f3_bucket s) \<and>
     (\<forall>msg. fst (s3_dec_error c (take (16 * 2 ^ 10) (sx_enc_error x ''NoSuchKey'' msg))) = ''NoSuchKey'') \<and>
     cy_sha256hex (s3_crypto_of c) [] = EmptyPayloadSHA256 \<and>
     (\<forall>d. length (cy_sha256hex (s3_crypto_of c) d) = 64) \<and>
     (f3_accessKey s = [] \<and> IsZero creds \<or>
      f3_accessKey s \<noteq> [] \<and> AccessKeyID creds = f3_accessKey s \<and> SecretAccessKey creds = f3_secretKey s \<and>
      squeeze (s3_host c) = s3_host c \<and> (\<forall>k d. cy_hmac (s3_crypto_of c) k d \<noteq> []) \<and>
      (\<forall>w. has_prefix (snd (s3_now c w)) (fst (s3_now c w)) \<and>
        (\<forall>ch \<in> set (AccessKeyID creds @ snd (s3_now c w) @ s3_region c). ch \<noteq> CHR ''/'' \<and> ch \<noteq> CHR '','')))"

text \<open>A request as the server handles it.\<close>

definition served :: "net_fault \<Rightarrow> (unit, s3_response) res \<times> s3_objects \<Rightarrow> s3_objects \<Rightarrow> (s3_error, s3_response) res \<times> s3_objects" where
  "served f out w =
     (case f of
        LostRequest \<Rightarrow> (Err (S3Transport ''timeout''), w)
      | LostResponse \<Rightarrow> (Err (S3Transport ''timeout''), snd out)
      | NoFault \<Rightarrow> (case out of (Ok resp, w') \<Rightarrow> (Ok resp, w') | (_, w') \<Rightarrow> (Err (S3Transport ''EOF''), w')))"

lemma sign_simps [simp]:
  "sq_Method (sign cy creds region h t req) = sq_Method req" "sq_Path (sign cy creds region h t req) = sq_Path req"
  "sq_Query (sign cy creds region h t req) = sq_Query req" "sq_Body (sign cy creds region h t req) = sq_Body req"
  by (simp_all add: sign_def Let_def)

lemma sign_range [simp]:
  "header_get ''range'' (sign cy creds region h t req) = header_get ''range'' req"
  by (simp add: sign_def signed_request_def Let_def)

lemma f3_route_sign: "f3_route x s (sign cy creds region h t req) w = f3_route x s req w"
proof -
  have "f3_list x (sign cy creds region h t req) = f3_list x req"
    by (intro ext) (simp only: f3_list_def sign_simps)
  moreover have "f3_get x (sign cy creds region h t req) = f3_get x req"
    by (intro ext) (simp only: f3_get_def sign_range sign_simps)
  ultimately show ?thesis by (simp only: f3_route_def sign_simps)
qed

lemma s3_do_served:
  assumes "client_ok c x s lost creds" and "plain_headers req" and "sq_Host req = s3_host c"
    and "h = cy_sha256hex (s3_crypto_of c) (sq_Body req)"
  shows "s3_do c req h w = served (lost (sq_Method req) (sq_Path req)) (f3_route x s req w) w"
proof -
  let ?rq = "if IsZero creds then req else sign (s3_crypto_of c) creds (s3_region c) h (s3_now c w) req"
  have "f3_ServeHTTP (s3_crypto_of c) x s ?rq w = f3_route x s req w"
  proof (cases "f3_accessKey s = []")
    case True
    with assms(1) show ?thesis by (auto simp: client_ok_def f3_ServeHTTP_def f3_route_sign)
  next
    case False
    then have z: "\<not> IsZero creds" using assms(1) by (auto simp: client_ok_def IsZero_def)
    have "h \<noteq> []" using assms(1,4) by (metis client_ok_def length_0_conv zero_neq_numeral)
    then have "f3_verify (s3_crypto_of c) s (sign (s3_crypto_of c) creds (s3_region c) h (s3_now c w) req) = None"
      using assms False unfolding client_ok_def
      by (intro sign_accepted) auto
    with z show ?thesis by (simp add: f3_ServeHTTP_def f3_route_sign)
  qed
  moreover have "sq_Method ?rq = sq_Method req" "sq_Path ?rq = sq_Path req" by simp_all
  moreover have "s3_http c = s3_net (s3_crypto_of c) x s lost" "s3_creds c = (\<lambda>w. (Ok creds, w))"
    using assms(1) by (simp_all add: client_ok_def)
  ultimately have d: "s3_do c req h w =
      (case (case lost (sq_Method req) (sq_Path req) of
               LostRequest \<Rightarrow> (Err ''timeout'', w)
             | LostResponse \<Rightarrow> (Err ''timeout'', snd (f3_route x s req w))
             | NoFault \<Rightarrow> (case f3_route x s req w of (Ok resp, w') \<Rightarrow> (Ok resp, w') | (_, w') \<Rightarrow> (Err ''EOF'', w')))
       of (r, w2) \<Rightarrow> (res_map_err S3Transport r, w2))"
    by (simp only: s3_do_def s3_net_def prod.case res.case)
  obtain r w' where fr: "f3_route x s req w = (r, w')" by fastforce
  show ?thesis
    unfolding d served_def fr by (cases "lost (sq_Method req) (sq_Path req)"; cases r) simp_all
qed

section \<open>The operations on one object\<close>

lemma f3_route_split:
  assumes "sq_Path rq = ''/'' @ f3_bucket s @ ''/'' @ key" and "CHR ''/'' \<notin> set (f3_bucket s)"
  shows "cut_on CHR ''/'' (trim_prefix ''/'' (sq_Path rq)) = Some (f3_bucket s, key)"
proof -
  have "trim_prefix ''/'' (''/'' @ f3_bucket s @ ''/'' @ key) = f3_bucket s @ ''/'' @ key"
    by (simp add: trim_prefix_def has_prefix_def cut_prefix_def)
  then show ?thesis using assms by (simp add: cut_on_append)
qed

lemma f3_route_get:
  "sq_Path rq = ''/'' @ f3_bucket s @ ''/'' @ key \<Longrightarrow> CHR ''/'' \<notin> set (f3_bucket s) \<Longrightarrow> key \<noteq> [] \<Longrightarrow>
     sq_Method rq = ''GET'' \<Longrightarrow> f3_route x s rq w = (Ok (f3_get x rq key w), w)"
  using f3_route_split [of rq s key] by (simp add: f3_route_def Let_def)

lemma f3_route_key:
  assumes "s3_pathPrefix c = ''/'' @ f3_bucket s" and "CHR ''/'' \<notin> set (f3_bucket s)" and "key \<noteq> []"
  shows "f3_route x s (newRequest c ''HEAD'' key q body) w = (Ok (f3_get x (newRequest c ''HEAD'' key q body) key w), w)"
    and "f3_route x s (newRequest c ''GET'' key q body) w = (Ok (f3_get x (newRequest c ''GET'' key q body) key w), w)"
    and "f3_route x s (newRequest c ''PUT'' key q body) w =
      (Ok \<lparr>sp_Status = 200, sp_Length = 0, sp_Body = []\<rparr>, AList.update key body w)"
    and "f3_route x s (newRequest c ''DELETE'' key q body) w =
      (Ok \<lparr>sp_Status = 204, sp_Length = 0, sp_Body = []\<rparr>, AList.delete key w)"
proof -
  have p: "cut_on CHR ''/'' (trim_prefix ''/'' (''/'' @ f3_bucket s @ ''/'' @ key)) = Some (f3_bucket s, key)"
    using f3_route_split [of "newRequest c ''GET'' key q body" s key] assms(1,2) by (simp add: newRequest_def)
  show "f3_route x s (newRequest c ''HEAD'' key q body) w = (Ok (f3_get x (newRequest c ''HEAD'' key q body) key w), w)"
    "f3_route x s (newRequest c ''GET'' key q body) w = (Ok (f3_get x (newRequest c ''GET'' key q body) key w), w)"
    "f3_route x s (newRequest c ''PUT'' key q body) w =
      (Ok \<lparr>sp_Status = 200, sp_Length = 0, sp_Body = []\<rparr>, AList.update key body w)"
    "f3_route x s (newRequest c ''DELETE'' key q body) w =
      (Ok \<lparr>sp_Status = 204, sp_Length = 0, sp_Body = []\<rparr>, AList.delete key w)"
    using assms(1,3) p by (simp_all add: f3_route_def newRequest_def)
qed

lemma plain_newRequest [simp]: "plain_headers (newRequest c m key q body)"
  by (simp add: plain_headers_def newRequest_def)

lemma newRequest_simps [simp]:
  "sq_Method (newRequest c m key q body) = m" "sq_Host (newRequest c m key q body) = s3_host c"
  "sq_Body (newRequest c m key q body) = body" "header_get k (newRequest c m key q body) = []"
  "sq_Path (newRequest c m key q body) = s3_pathPrefix c @ ''/'' @ key" "sq_Query (newRequest c m key q body) = q"
  by (simp_all add: newRequest_def header_get_def header_all_def)

definition reads_arrive :: "(string \<Rightarrow> string \<Rightarrow> net_fault) \<Rightarrow> bool" where
  "reads_arrive lost \<longleftrightarrow> (\<forall>p. lost ''HEAD'' p = NoFault \<and> lost ''GET'' p = NoFault)"


text \<open>The setting: a client that is served, with reads that arrive.\<close>

definition s3_served ::
  "s3_objects s3_client \<Rightarrow> s3_xml \<Rightarrow> fakes3 \<Rightarrow> (string \<Rightarrow> string \<Rightarrow> net_fault) \<Rightarrow> Credentials \<Rightarrow> bool" where
  "s3_served c x s lost creds \<longleftrightarrow> client_ok c x s lost creds \<and> reads_arrive lost"

lemma s3_served_bucket:
  "s3_served c x s lost creds \<Longrightarrow> s3_pathPrefix c = ''/'' @ f3_bucket s \<and> CHR ''/'' \<notin> set (f3_bucket s) \<and>
     EmptyPayloadSHA256 = cy_sha256hex (s3_crypto_of c) []"
  by (simp add: s3_served_def client_ok_def)

lemma s3_do_read:
  assumes "s3_served c x s lost creds" "key \<noteq> []" "m = ''HEAD'' \<or> m = ''GET''"
  shows "s3_do c (newRequest c m key [] []) EmptyPayloadSHA256 w =
    (Ok (f3_get x (newRequest c m key [] []) key w), w)"
proof -
  note b = s3_served_bucket [OF assms(1)]
  have "lost m (s3_pathPrefix c @ ''/'' @ key) = NoFault"
    using assms(1,3) by (auto simp: s3_served_def reads_arrive_def)
  moreover have "f3_route x s (newRequest c m key [] []) w = (Ok (f3_get x (newRequest c m key [] []) key w), w)"
    using assms(2,3) f3_route_key(1,2) [of c s key x "[]" "[]" w] b by auto
  moreover have "client_ok c x s lost creds" using assms(1) by (simp add: s3_served_def)
  ultimately show ?thesis
    using s3_do_served [of c x s lost creds "newRequest c m key [] []" EmptyPayloadSHA256 w] b
    by (simp add: served_def)
qed

lemma s3_Head_bucket:
  assumes "s3_served c x s lost creds" "key \<noteq> []"
  shows "s3_Head c key w =
     (case map_of w key of None \<Rightarrow> (Err S3NotFound, w) | Some b \<Rightarrow> (Ok (int (length b)), w))"
  by (simp add: s3_Head_def s3_do_read [OF assms] f3_get_def f3_parseRange_def writeErr_def Let_def split: option.split)

lemma s3_Get_bucket:
  assumes "s3_served c x s lost creds" "key \<noteq> []"
  shows "s3_Get c key 0 w = (case map_of w key of None \<Rightarrow> (Err S3NotFound, w) | Some b \<Rightarrow> (Ok b, w))"
proof (cases "map_of w key")
  case None
  let ?d = "s3_dec_error c (take (16 * 2 ^ 10) (sx_enc_error x ''NoSuchKey'' (''no key '' @ key)))"
  have "fst ?d = ''NoSuchKey''" using assms(1) by (simp only: s3_served_def client_ok_def)
  then obtain e where e: "?d = (''NoSuchKey'', e)" by (metis prod.collapse)
  show ?thesis
    using None e by (simp add: s3_Get_def s3_do_read [OF assms] f3_get_def writeErr_def readError_def Let_def)
next
  case (Some b)
  then show ?thesis
    by (simp add: s3_Get_def s3_do_read [OF assms] f3_get_def f3_parseRange_def gslice_def Let_def)
qed

lemma s3_do_write:
  assumes "s3_served c x s lost creds" "key \<noteq> []"
  shows "h = cy_sha256hex (s3_crypto_of c) body \<Longrightarrow> s3_do c (newRequest c ''PUT'' key [] body) h w =
      served (lost ''PUT'' (s3_pathPrefix c @ ''/'' @ key))
        (Ok \<lparr>sp_Status = 200, sp_Length = 0, sp_Body = []\<rparr>, AList.update key body w) w"
    and "s3_do c (newRequest c ''DELETE'' key [] []) EmptyPayloadSHA256 w =
      served (lost ''DELETE'' (s3_pathPrefix c @ ''/'' @ key))
        (Ok \<lparr>sp_Status = 204, sp_Length = 0, sp_Body = []\<rparr>, AList.delete key w) w"
proof -
  note b = s3_served_bucket [OF assms(1)]
  let ?p = "newRequest c ''PUT'' key [] body" and ?d = "newRequest c ''DELETE'' key [] []"
  show "s3_do c ?p h w = served (lost ''PUT'' (s3_pathPrefix c @ ''/'' @ key))
        (Ok \<lparr>sp_Status = 200, sp_Length = 0, sp_Body = []\<rparr>, AList.update key body w) w"
    if "h = cy_sha256hex (s3_crypto_of c) body"
    using s3_do_served [of c x s lost creds ?p h w] b assms that f3_route_key(3) [of c s key x "[]" body w]
    by (simp add: s3_served_def)
  show "s3_do c ?d EmptyPayloadSHA256 w = served (lost ''DELETE'' (s3_pathPrefix c @ ''/'' @ key))
        (Ok \<lparr>sp_Status = 204, sp_Length = 0, sp_Body = []\<rparr>, AList.delete key w) w"
    using s3_do_served [of c x s lost creds ?d EmptyPayloadSHA256 w] b assms f3_route_key(4) [of c s key x "[]" "[]" w]
    by (simp add: s3_served_def)
qed

text \<open>A write takes effect or not, and is reported or not; what is reported took effect.\<close>

lemma s3_Put_bucket:
  assumes "s3_served c x s lost creds" "key \<noteq> []" "h = cy_sha256hex (s3_crypto_of c) body"
    and "s3_Put c key body n h w = (r, w')"
  shows "r \<noteq> Panic" and "w' = AList.update key body w \<or> w' = w \<and> r \<noteq> Ok ()"
  using assms(4) s3_do_write(1) [OF assms(1-3), of w]
  by (cases "lost ''PUT'' (s3_pathPrefix c @ ''/'' @ key)"; auto simp: s3_Put_def served_def)+

lemma s3_Delete_bucket:
  assumes "s3_served c x s lost creds" "key \<noteq> []" "s3_Delete c key w = (r, w')"
  shows "r \<noteq> Panic" and "w' = AList.delete key w \<or> w' = w \<and> r \<noteq> Ok ()"
  using assms(3) s3_do_write(2) [OF assms(1,2), of w]
  by (cases "lost ''DELETE'' (s3_pathPrefix c @ ''/'' @ key)"; auto simp: s3_Delete_def served_def)+

lemma s3_write_arrives:
  assumes "s3_served c x s lost creds" "key \<noteq> []"
  shows "lost ''PUT'' (s3_pathPrefix c @ ''/'' @ key) = NoFault \<Longrightarrow>
      s3_Put c key body n (cy_sha256hex (s3_crypto_of c) body) w = (Ok (), AList.update key body w)"
    and "lost ''DELETE'' (s3_pathPrefix c @ ''/'' @ key) = NoFault \<Longrightarrow>
      s3_Delete c key w = (Ok (), AList.delete key w)"
  using s3_do_write [OF assms] by (simp_all add: s3_Put_def s3_Delete_def served_def)

section \<open>Ranged reads\<close>

lemma digits_no_dash: "0 \<le> n \<Longrightarrow> CHR ''-'' \<notin> set (format_int n)"
  using nat_digits_all_digit [of "nat n"] by (auto simp: format_int_def list_all_iff is_digit_def)

lemma parseRange_from:
  assumes "0 < n" "n < sz" "sz < 2 ^ 63"
  shows "f3_parseRange (''bytes='' @ format_int n @ ''-'') sz = Some (n, sz - 1)"
proof -
  have "cut_on CHR ''-'' (format_int n @ ''-'') = Some (format_int n, [])"
    using digits_no_dash [of n] assms(1) cut_on_append [of "CHR ''-''" "format_int n" "[]"] by simp
  moreover have "cut_prefix ''bytes='' (''bytes='' @ format_int n @ ''-'') = Some (format_int n @ ''-'')"
    by (simp add: cut_prefix_def has_prefix_def)
  moreover have "parse_int64 (format_int n) = Some n" using assms by (intro parse_format_int) auto
  ultimately show ?thesis using assms by (simp add: f3_parseRange_def)
qed

lemma s3_Get_range:
  assumes "s3_served c x s lost creds" "key \<noteq> []" "map_of w key = Some content"
    and "0 < off" "off < int (length content)" "int (length content) < 2 ^ 63"
  shows "s3_Get c key off w = (Ok (drop (nat off) content), w)"
proof -
  note b = s3_served_bucket [OF assms(1)]
  let ?rg = "''bytes='' @ format_int off @ ''-''"
  let ?q0 = "newRequest c ''GET'' key [] []"
  let ?q = "header_set ''range'' ?rg ?q0"
  have p: "plain_headers ?q" by (rule plain_headers_set) (simp_all add: token_name_def is_space_def)
  have "f3_route x s ?q w = (Ok (f3_get x ?q key w), w)"
    using b assms(2) by (intro f3_route_get) simp_all
  moreover have "lost ''GET'' (s3_pathPrefix c @ ''/'' @ key) = NoFault"
    using assms(1) by (simp add: s3_served_def reads_arrive_def)
  moreover have "client_ok c x s lost creds" using assms(1) by (simp add: s3_served_def)
  ultimately have "s3_do c ?q EmptyPayloadSHA256 w = (Ok (f3_get x ?q key w), w)"
    using s3_do_served [of c x s lost creds ?q EmptyPayloadSHA256 w] b p by (simp add: served_def)
  moreover have "f3_get x ?q key w =
      \<lparr>sp_Status = 206, sp_Length = int (length content) - off, sp_Body = drop (nat off) content\<rparr>"
    using assms(3) parseRange_from [OF assms(4-6)] assms(4,5) by (simp add: f3_get_def gslice_def Let_def)
  ultimately show ?thesis using assms(4) by (simp add: s3_Get_def)
qed

end
