(* ===== verification/S3_Ranged.thy ===== *)
theory S3_Ranged
  imports S3_Net
begin

text \<open>
  The ranged reader of the client (ranged.go) against a reader over the bytes in
  memory: whatever a caller seeks and reads, it gets the same answers.
\<close>

section \<open>The specification: a position in the content\<close>

datatype reader_op = DoRead nat | DoSeek int whence

datatype reader_result = ReadGave "byte list" "read_error option" | SeekGave "(read_error, int) res"

fun mem_step :: "byte list \<Rightarrow> reader_op \<Rightarrow> int \<Rightarrow> reader_result \<times> int" where
  "mem_step content (DoRead n) pos =
     (if int (length content) \<le> pos then (ReadGave [] (Some ReadEOF), pos)
      else let p = take n (drop (nat pos) content) in (ReadGave p None, pos + int (length p)))"
| "mem_step content (DoSeek off wh) pos =
     (let nxt = int64 (case wh of SeekStart \<Rightarrow> off | SeekCurrent \<Rightarrow> pos + off | SeekEnd \<Rightarrow> int (length content) + off)
      in if nxt < 0 then (SeekGave (Err NegativeSeek), pos) else (SeekGave (Ok nxt), nxt))"

fun mem_run :: "byte list \<Rightarrow> reader_op list \<Rightarrow> int \<Rightarrow> reader_result list" where
  "mem_run content [] pos = []"
| "mem_run content (op # ops) pos =
     (case mem_step content op pos of (out, pos') \<Rightarrow> out # mem_run content ops pos')"

section \<open>The reader\<close>

fun rr_step :: "'w s3_client \<Rightarrow> reader_op \<Rightarrow> ranged_reader \<Rightarrow> 'w \<Rightarrow> reader_result \<times> ranged_reader \<times> 'w" where
  "rr_step c (DoRead n) r w = (case rr_Read c n r w of ((p, e), r', w') \<Rightarrow> (ReadGave p e, r', w'))"
| "rr_step c (DoSeek off wh) r w = (case rr_Seek off wh r of (res, r') \<Rightarrow> (SeekGave res, r', w))"

fun rr_run :: "'w s3_client \<Rightarrow> reader_op list \<Rightarrow> ranged_reader \<Rightarrow> 'w \<Rightarrow> reader_result list" where
  "rr_run c [] r w = []"
| "rr_run c (op # ops) r w = (case rr_step c op r w of (out, r', w') \<Rightarrow> out # rr_run c ops r' w')"

definition reader_of :: "string \<Rightarrow> byte list \<Rightarrow> ranged_reader \<Rightarrow> bool" where
  "reader_of key content r \<longleftrightarrow>
     rr_key r = key \<and> rr_size r = int (length content) \<and> 0 \<le> rr_pos r \<and>
     (case rr_cur r of None \<Rightarrow> True
      | Some b \<Rightarrow> rr_pos r \<le> int (length content) \<and> b = drop (nat (rr_pos r)) content)"

lemma rr_Seek_reader:
  assumes "reader_of key content r" "rr_Seek off wh r = (res, r')"
  shows "reader_of key content r'" and "mem_step content (DoSeek off wh) (rr_pos r) = (SeekGave res, rr_pos r')"
  using assms by (cases wh; auto simp: reader_of_def rr_Seek_def Let_def split: if_splits option.splits)+

lemma rr_Read_reader:
  assumes "s3_served c x s lost creds" "key \<noteq> []" "map_of w key = Some content"
    and "int (length content) < 2 ^ 63" "reader_of key content r"
  shows "\<exists>p e r'. rr_Read c n r w = ((p, e), r', w) \<and> reader_of key content r' \<and>
    mem_step content (DoRead n) (rr_pos r) = (ReadGave p e, rr_pos r')"
proof (cases "int (length content) \<le> rr_pos r")
  case True
  with assms(5) show ?thesis by (simp add: reader_of_def rr_Read_def)
next
  case False
  let ?b = "drop (nat (rr_pos r)) content" and ?sz = "int (length content)"
  have r: "rr_key r = key" "rr_size r = ?sz" "0 \<le> rr_pos r" using assms(5) by (simp_all add: reader_of_def)
  have len: "length ?b = nat (?sz - rr_pos r)" using r(3) False by (simp add: nat_diff_distrib)
  have ne: "?b \<noteq> []" using len False by (metis diff_gt_0_iff_gt length_0_conv linorder_not_le zero_less_nat_eq less_irrefl)
  have "s3_Get c key (rr_pos r) w = (Ok ?b, w)"
  proof (cases "rr_pos r = 0")
    case True
    with s3_Get_bucket [OF assms(1,2)] assms(3) show ?thesis by simp
  next
    case nz: False
    with s3_Get_range [OF assms(1-3)] False r(3) assms(4) show ?thesis by simp
  qed
  then have opened: "(case rr_cur r of Some b \<Rightarrow> (Ok b, w)
      | None \<Rightarrow> (case s3_Get c (rr_key r) (rr_pos r) w of
                 (b, w1) \<Rightarrow> (res_map (take (nat (rr_size r - rr_pos r))) b, w1))) = (Ok ?b, w)"
    using assms(5) len r by (auto simp: reader_of_def split: option.splits)
  let ?r' = "r\<lparr>rr_pos := rr_pos r + int (length (take n ?b)), rr_cur := Some (drop n ?b)\<rparr>"
  have "rr_Read c n r w = ((take n ?b, None), ?r', w)"
    using False r(2) ne unfolding rr_Read_def opened by (simp add: Let_def)
  moreover have "reader_of key content ?r'"
  proof -
    have l: "length (take n ?b) \<le> length ?b" by simp
    have "drop n ?b = drop (length (take n ?b)) ?b" by (cases "n \<le> length ?b") (simp_all add: min_def)
    also have "\<dots> = drop (nat (rr_pos r + int (length (take n ?b)))) content"
      using r(3) by (simp add: nat_add_distrib add.commute del: length_take length_drop)
    finally have "drop n ?b = drop (nat (rr_pos r + int (length (take n ?b)))) content" .
    moreover have "rr_pos r + int (length (take n ?b)) \<le> ?sz" using l len False by linarith
    ultimately show ?thesis using r by (simp add: reader_of_def)
  qed
  moreover have "mem_step content (DoRead n) (rr_pos r) = (ReadGave (take n ?b) None, rr_pos ?r')"
    using False by (simp add: Let_def)
  ultimately show ?thesis by blast
qed

lemma rr_run_reader:
  assumes "s3_served c x s lost creds" "key \<noteq> []" "map_of w key = Some content" "int (length content) < 2 ^ 63"
  shows "reader_of key content r \<Longrightarrow> rr_run c ops r w = mem_run content ops (rr_pos r)"
proof (induction ops arbitrary: r)
  case Nil
  then show ?case by simp
next
  case (Cons op ops)
  show ?case
  proof (cases op)
    case (DoRead n)
    obtain p e r' where "rr_Read c n r w = ((p, e), r', w)" "reader_of key content r'"
      "mem_step content (DoRead n) (rr_pos r) = (ReadGave p e, rr_pos r')"
      using rr_Read_reader [OF assms Cons.prems, of n] by blast
    then show ?thesis by (simp add: DoRead Cons.IH del: mem_step.simps)
  next
    case (DoSeek off wh)
    obtain res r' where k: "rr_Seek off wh r = (res, r')" by fastforce
    show ?thesis
      using k rr_Seek_reader [OF Cons.prems k] by (simp add: DoSeek Cons.IH del: mem_step.simps)
  qed
qed


end
