(* ===== verification/S3_Contract.thy ===== *)
theory S3_Contract
  imports S3_Net S3backend Fsbackend_Contract
begin

text \<open>
  The bucket backend keeps the laws of the storage interface for every repository,
  over the server and the network of \<open>S3_Net\<close>, for manifests whose encoding the
  backend is able to read back.
\<close>

definition s3_env ::
  "s3_objects s3_backend \<Rightarrow> s3_xml \<Rightarrow> fakes3 \<Rightarrow> (string \<Rightarrow> string \<Rightarrow> net_fault) \<Rightarrow> Credentials \<Rightarrow> bool" where
  "s3_env b x s lost creds \<longleftrightarrow>
     s3_served (sb_client b) x s lost creds \<and> sb_sha256hex b = cy_sha256hex (s3_crypto_of (sb_client b)) \<and>
     (\<forall>c. length (sb_sha1hex b c) = 40) \<and>
     (\<forall>m. length (sb_enc_manifest b m) \<le> 64 * 2 ^ 20 \<longrightarrow> sb_dec_manifest b (sb_enc_manifest b m) = Some m)"

definition s3_fits :: "'w s3_backend \<Rightarrow> Manifest \<Rightarrow> bool" where
  "s3_fits b m \<longleftrightarrow> length (sb_enc_manifest b m) \<le> 64 * 2 ^ 20"

definition s3_blob_ok :: "'w s3_backend \<Rightarrow> string \<Rightarrow> byte list \<Rightarrow> bool" where
  "s3_blob_ok b h c \<longleftrightarrow>
     (length h = 64 \<longrightarrow> sb_sha256hex b c = h) \<and>
     (length h = 40 \<longrightarrow> sb_sha1hex b (git_header (int (length c)) @ c) = h)"

definition s3_good ::
  "s3_objects s3_backend \<Rightarrow> s3_xml \<Rightarrow> fakes3 \<Rightarrow> (string \<Rightarrow> string \<Rightarrow> net_fault) \<Rightarrow> Credentials
   \<Rightarrow> repo_kind \<Rightarrow> repo_id \<Rightarrow> s3_objects \<Rightarrow> bool" where
  "s3_good b x s lost creds kind repo w \<longleftrightarrow>
     s3_env b x s lost creds \<and> kind \<noteq> RepoKindNone \<and>
     (\<forall>h c. map_of w (repoPrefix b kind repo @ ''blobs/'' @ h) = Some c \<longrightarrow> s3_blob_ok b h c)"

lemma s3_good_served: "s3_good b x s lost creds kind repo w \<Longrightarrow> s3_served (sb_client b) x s lost creds"
  by (simp add: s3_good_def s3_env_def)

lemma s3_good_sha256:
  "s3_good b x s lost creds kind repo w \<Longrightarrow> sb_sha256hex b = cy_sha256hex (s3_crypto_of (sb_client b))"
  by (simp add: s3_good_def s3_env_def)

lemma repoPrefix_ne [simp]: "repoPrefix b kind repo @ k \<noteq> []" "repoPrefix b kind repo \<noteq> []"
  by (simp_all add: repoPrefix_def)

lemma s3_keys_ne [simp]:
  "manifestKey b kind repo sha \<noteq> []" "blobKey b kind repo d \<noteq> []"
  "repoPrefix b kind repo @ ''refs/'' @ r \<noteq> []"
  by (simp_all add: manifestKey_def blobKey_def)

lemma s3_keys_disjoint [simp]:
  "manifestKey b kind repo sha \<noteq> blobKey b kind repo d"
  "manifestKey b kind repo sha \<noteq> repoPrefix b kind repo @ ''refs/'' @ r"
  "blobKey b kind repo d \<noteq> repoPrefix b kind repo @ ''refs/'' @ r"
  "manifestKey b kind repo sha \<noteq> repoPrefix b kind repo @ ''blobs/'' @ h"
  "repoPrefix b kind repo @ ''refs/'' @ r \<noteq> repoPrefix b kind repo @ ''blobs/'' @ h"
  "manifestKey b kind repo sha = manifestKey b kind repo sha' \<longleftrightarrow> sha = sha'"
  "blobKey b kind repo d = repoPrefix b kind repo @ ''blobs/'' @ h \<longleftrightarrow> Digest_Hex d = h"
  by (simp_all add: manifestKey_def blobKey_def)

section \<open>Listing\<close>

lemma s3_do_list:
  assumes "s3_served c x s lost creds"
  shows "s3_do c (newRequest c ''GET'' [] q []) EmptyPayloadSHA256 w =
    (case f3_list x (newRequest c ''GET'' [] q []) w of
       Ok resp \<Rightarrow> (Ok resp, w) | _ \<Rightarrow> (Err (S3Transport ''EOF''), w))"
proof -
  note b = s3_served_bucket [OF assms]
  let ?q = "newRequest c ''GET'' [] q []"
  have "f3_route x s ?q w = (f3_list x ?q w, w)"
    using f3_route_split [of ?q s "[]"] b by (simp add: f3_route_def Let_def)
  moreover have "lost ''GET'' (s3_pathPrefix c @ ''/'') = NoFault"
    using assms by (simp add: s3_served_def reads_arrive_def)
  moreover have "client_ok c x s lost creds" using assms by (simp add: s3_served_def)
  ultimately show ?thesis
    using s3_do_served [of c x s lost creds ?q EmptyPayloadSHA256 w] b by (simp add: served_def split: res.split)
qed

lemma s3_List_world: "s3_served c x s lost creds \<Longrightarrow> snd (s3_List c pre tok mk w) = w"
  by (simp add: s3_List_def s3_do_list split: res.split)

section \<open>Reading\<close>

lemma s3b_OpenBlob_ok:
  assumes "s3_good b x s lost creds kind repo w"
  shows "s3b_OpenBlob b kind repo d w = Ok c \<longleftrightarrow> map_of w (blobKey b kind repo d) = Some c"
proof -
  note served = s3_good_served [OF assms]
  show ?thesis
  proof (cases "map_of w (blobKey b kind repo d)")
    case None
    then show ?thesis
      by (simp add: s3b_OpenBlob_def s3b_OpenRanged_def OpenRanged_def s3_Head_bucket [OF served])
  next
    case (Some c')
    then show ?thesis
      by (cases "c' = []")
        (auto simp: s3b_OpenBlob_def s3b_OpenRanged_def OpenRanged_def s3_Head_bucket [OF served]
          rr_Read_def s3_Get_bucket [OF served])
  qed
qed

lemma s3b_StatBlob_ok:
  assumes "s3_good b x s lost creds kind repo w"
  shows "(\<exists>i. s3b_StatBlob b kind repo d w = Ok i) \<longleftrightarrow> map_of w (blobKey b kind repo d) \<noteq> None"
  by (auto simp: s3b_StatBlob_def s3_Head_bucket [OF s3_good_served [OF assms]] split: option.splits)

lemma s3b_GetManifest_ok:
  assumes "s3_good b x s lost creds kind repo w"
  shows "s3b_GetManifest b kind repo sha w = Ok m \<longleftrightarrow>
    (\<exists>c. map_of w (manifestKey b kind repo sha) = Some c \<and> sb_dec_manifest b (take (64 * 2 ^ 20) c) = Some m)"
  unfolding s3b_GetManifest_def s3_Get_bucket [OF s3_good_served [OF assms] s3_keys_ne(1)]
  by (cases "map_of w (manifestKey b kind repo sha)") (auto split: option.split simp del: power_numeral)

lemma s3b_ResolveRef_ok:
  assumes "s3_good b x s lost creds kind repo w"
  shows "s3b_ResolveRef b kind repo ref w = Ok sha \<longleftrightarrow>
    (if IsCommitSHA ref then map_of w (manifestKey b kind repo ref) \<noteq> None \<and> sha = ref
     else validRelPath ref \<and> IsCommitSHA sha \<and>
       (\<exists>c. map_of w (repoPrefix b kind repo @ ''refs/'' @ ref) = Some c \<and> sha = trim_space (of_bytes (take (2 ^ 10) c))))"
proof (cases "IsCommitSHA ref")
  case True
  then show ?thesis
    by (auto simp: s3b_ResolveRef_def s3_Head_bucket [OF s3_good_served [OF assms]] split: option.split)
next
  case False
  then show ?thesis
    unfolding s3b_ResolveRef_def refKey_def
    using s3_Get_bucket [OF s3_good_served [OF assms] s3_keys_ne(3), of b kind repo ref w]
    by (auto simp: Let_def split: option.splits if_splits)
qed

section \<open>Writing\<close>

lemma putBytes_bucket:
  assumes "s3_good b x s lost creds kind repo w" "key \<noteq> []" "putBytes b key data w0 = (r, w')"
  shows "r \<noteq> Panic" and "w' = AList.update key data w0 \<or> w' = w0 \<and> r \<noteq> Ok ()"
  using s3_Put_bucket [OF s3_good_served [OF assms(1)] assms(2) _ assms(3) [unfolded putBytes_def]]
  by (simp_all add: s3_good_sha256 [OF assms(1)])

lemma spoolAndVerify_blob_ok:
  assumes "s3_good b x s lost creds kind repo w" "digestPattern d" "spoolAndVerify b c d n = Ok (k, p)"
  shows "s3_blob_ok b (Digest_Hex d) c" and "p = sb_sha256hex b c"
proof -
  have "length (sb_sha256hex b c) = 64" "length (sb_sha1hex b (git_header (int (length c)) @ c)) = 40"
    using assms(1) by (simp_all add: s3_good_def s3_env_def s3_served_def client_ok_def)
  with assms(2,3) show "s3_blob_ok b (Digest_Hex d) c" "p = sb_sha256hex b c"
    by (auto simp: spoolAndVerify_def s3_blob_ok_def digestPattern_iff Digest_Algo_def Digest_Hex_def
        cut_on_append Let_def split: if_splits)
qed

lemma s3b_PutBlob_effect:
  assumes "s3_good b x s lost creds kind repo w" "digestPattern d" "s3b_PutBlob b kind repo d c n w = (r, w')"
  shows "w' = w \<and> (r = Ok () \<longrightarrow> map_of w (blobKey b kind repo d) \<noteq> None) \<or>
    map_of w (blobKey b kind repo d) = None \<and> s3_blob_ok b (Digest_Hex d) c \<and>
      w' = AList.update (blobKey b kind repo d) c w"
proof (cases "map_of w (blobKey b kind repo d)")
  case (Some c')
  with assms(3) show ?thesis
    by (auto simp: s3b_PutBlob_def s3_Head_bucket [OF s3_good_served [OF assms(1)]])
next
  case None
  note head = s3_Head_bucket [OF s3_good_served [OF assms(1)] s3_keys_ne(2), of b kind repo d w]
  show ?thesis
  proof (cases "spoolAndVerify b c d n")
    case (Ok z)
    obtain k p where z: "z = (k, p)" by fastforce
    note sv = spoolAndVerify_blob_ok [OF assms(1,2) Ok [unfolded z]]
    obtain r1 w1 where put: "s3_Put (sb_client b) (blobKey b kind repo d) c k p w = (r1, w1)" by fastforce
    have "r = res_map_err (\<lambda>_. s3_fault ''writing blob'') r1" "w' = w1"
      using assms(3) None Ok z head put by (simp_all add: s3b_PutBlob_def Let_def)
    moreover have "w1 = AList.update (blobKey b kind repo d) c w \<or> w1 = w \<and> r1 \<noteq> Ok ()"
      using s3_Put_bucket(2) [OF s3_good_served [OF assms(1)] s3_keys_ne(2) _ put]
      by (simp add: sv(2) s3_good_sha256 [OF assms(1)])
    ultimately show ?thesis using None sv(1) by (cases r1) auto
  qed (use None assms(3) head in \<open>auto simp: s3b_PutBlob_def Let_def\<close>)
qed

text \<open>Outside the references nothing changes; when all are written each holds its commit.\<close>

lemma s3_put_refs_effect:
  assumes "s3_good b x s lost creds kind repo w" "s3_put_refs b kind repo refs w0 = (r, w')"
  shows "(\<forall>k. k \<notin> (\<lambda>ref. repoPrefix b kind repo @ ''refs/'' @ ref) ` fst ` set refs \<longrightarrow> map_of w' k = map_of w0 k) \<and>
    (r = Ok () \<longrightarrow> distinct (map fst refs) \<longrightarrow> (\<forall>(ref, sha) \<in> set refs.
       IsCommitSHA sha \<and> validRelPath ref \<and>
       map_of w' (repoPrefix b kind repo @ ''refs/'' @ ref) = Some (to_bytes sha)))"
  using assms(2)
proof (induction refs arbitrary: w0)
  case Nil
  then show ?case by simp
next
  case (Cons z refs)
  obtain ref sha where z: "z = (ref, sha)" by fastforce
  let ?key = "repoPrefix b kind repo @ ''refs/'' @ ref"
  show ?case
  proof (cases "IsCommitSHA sha \<and> validRelPath ref")
    case False
    with Cons.prems z show ?thesis by (auto simp: refKey_def split: if_splits)
  next
    case True
    obtain r1 w1 where put: "putBytes b ?key (to_bytes sha) w0 = (r1, w1)" by fastforce
    note eff = putBytes_bucket(2) [OF assms(1) s3_keys_ne(3) put]
    have outside: "map_of w1 k = map_of w0 k" if "k \<noteq> ?key" for k
      using eff that by (auto simp: update_conv')
    show ?thesis
    proof (cases "r1 = Ok ()")
      case ok: True
      then have rest: "s3_put_refs b kind repo refs w1 = (r, w')"
        using Cons.prems True z put by (simp add: refKey_def)
      have w1: "map_of w1 ?key = Some (to_bytes sha)" using eff ok by (auto simp: update_conv')
      note IH = Cons.IH [OF rest]
      have "map_of w' ?key = Some (to_bytes sha)" if "ref \<notin> fst ` set refs"
      proof -
        have "?key \<notin> (\<lambda>ref. repoPrefix b kind repo @ ''refs/'' @ ref) ` fst ` set refs" using that by auto
        with IH w1 show ?thesis by simp
      qed
      with IH outside True z show ?thesis by auto
    next
      case nok: False
      have "r1 \<noteq> Panic" by (rule putBytes_bucket(1) [OF assms(1) s3_keys_ne(3) put])
      then have "w' = w1" "r \<noteq> Ok ()" using Cons.prems True z put nok by (cases r1; auto simp: refKey_def)+
      with outside z show ?thesis by auto
    qed
  qed
qed

lemma s3b_PutManifest_effect:
  assumes "s3_good b x s lost creds kind repo w" "manifest_ok kind repo m" "s3b_PutManifest b m refs w = (r, w')"
  shows "(\<forall>k. k \<noteq> manifestKey b kind repo (mf_CommitSHA m) \<longrightarrow>
           k \<notin> (\<lambda>ref. repoPrefix b kind repo @ ''refs/'' @ ref) ` fst ` set refs \<longrightarrow> map_of w' k = map_of w k) \<and>
    (r = Ok () \<longrightarrow> map_of w' (manifestKey b kind repo (mf_CommitSHA m)) = Some (sb_enc_manifest b m) \<and>
       (distinct (map fst refs) \<longrightarrow> (\<forall>(ref, sha) \<in> set refs. IsCommitSHA sha \<and> validRelPath ref \<and>
         map_of w' (repoPrefix b kind repo @ ''refs/'' @ ref) = Some (to_bytes sha))))"
proof -
  let ?key = "manifestKey b kind repo (mf_CommitSHA m)"
  have m: "mf_Repo m = repo" "(if mf_Kind m = RepoKindNone then RepoKindModel else mf_Kind m) = kind"
    using assms(1,2) by (auto simp: manifest_ok_def s3_good_def)
  obtain r1 w1 where put: "putBytes b ?key (sb_enc_manifest b m) w = (r1, w1)" by fastforce
  note eff = putBytes_bucket(2) [OF assms(1) s3_keys_ne(1) put]
  let ?A = "repo_is_zero repo \<or> mf_CommitSHA m = [] \<or> \<not> IsCommitSHA (mf_CommitSHA m)"
  let ?B = "list_all (\<lambda>f. validRelPath (fe_Path f)) (mf_Files m)"
  have eq: "s3b_PutManifest b m refs w =
      (if ?A then (Err (s3_fault ''manifest requires repo and a valid commit SHA''), w)
       else if \<not> ?B then (Err (s3_fault ''manifest file path is not a safe relative path''), w)
       else case r1 of
              Ok _ \<Rightarrow> s3_put_refs b kind repo refs w1
            | Err _ \<Rightarrow> (Err (s3_fault ''writing manifest''), w1)
            | Panic \<Rightarrow> (Panic, w1))"
    by (simp only: s3b_PutManifest_def Let_def m put prod.case)
  consider (refused) "w' = w" "r \<noteq> Ok ()"
    | (failed) "w' = w1" "r \<noteq> Ok ()"
    | (stored) "r1 = Ok ()" "s3_put_refs b kind repo refs w1 = (r, w')"
  proof (cases "\<not> ?A \<and> ?B")
    case False
    with eq assms(3) show ?thesis by (intro that(1)) (auto split: if_splits)
  next
    case True
    then have "(case r1 of Ok _ \<Rightarrow> s3_put_refs b kind repo refs w1
            | Err _ \<Rightarrow> (Err (s3_fault ''writing manifest''), w1) | Panic \<Rightarrow> (Panic, w1)) = (r, w')"
      using eq assms(3) by simp
    then show ?thesis by (cases r1) (auto intro: that(2,3))
  qed
  then show ?thesis
  proof cases
    case refused
    then show ?thesis by simp
  next
    case failed
    with eff show ?thesis by (auto simp: update_conv')
  next
    case stored
    have w1: "map_of w1 k = (if k = ?key then Some (sb_enc_manifest b m) else map_of w k)" for k
      using eff stored(1) by (auto simp: update_conv')
    have "?key \<notin> (\<lambda>ref. repoPrefix b kind repo @ ''refs/'' @ ref) ` fst ` set refs"
      by (simp add: image_iff manifestKey_def)
    with s3_put_refs_effect [OF assms(1) stored(2)] w1 show ?thesis by simp
  qed
qed

section \<open>The contract of the interface\<close>

lemma s3_good_update:
  assumes "s3_good b x s lost creds kind repo w"
    and "\<And>h. map_of w' (repoPrefix b kind repo @ ''blobs/'' @ h) = map_of w (repoPrefix b kind repo @ ''blobs/'' @ h) \<or>
           (\<exists>c. map_of w' (repoPrefix b kind repo @ ''blobs/'' @ h) = Some c \<and> s3_blob_ok b h c)"
  shows "s3_good b x s lost creds kind repo w'"
  using assms unfolding s3_good_def by (metis option.inject)

lemma s3b_PutBlob_good:
  assumes "s3b_PutBlob b kind repo d c n w = (r, w')" "s3_good b x s lost creds kind repo w" "digestPattern d"
  shows "s3_good b x s lost creds kind repo w'"
    and "map_of w k = Some v \<Longrightarrow> map_of w' k = Some v"
    and "r = Ok () \<Longrightarrow> map_of w' (blobKey b kind repo d) \<noteq> None"
  using s3b_PutBlob_effect [OF assms(2,3,1)]
  by (auto intro!: s3_good_update [OF assms(2)] simp: update_conv' assms(2) blobKey_def)

lemma s3b_PutManifest_keeps:
  assumes "s3b_PutManifest b m refs w = (r, w')" "s3_good b x s lost creds kind repo w" "manifest_ok kind repo m"
  shows "s3_good b x s lost creds kind repo w'"
    and "map_of w' (blobKey b kind repo d) = map_of w (blobKey b kind repo d)"
    and "sha \<noteq> mf_CommitSHA m \<Longrightarrow> map_of w' (manifestKey b kind repo sha) = map_of w (manifestKey b kind repo sha)"
proof -
  note eff = conjunct1 [OF s3b_PutManifest_effect [OF assms(2,3,1)], rule_format]
  have blobs: "map_of w' (repoPrefix b kind repo @ ''blobs/'' @ h) = map_of w (repoPrefix b kind repo @ ''blobs/'' @ h)" for h
    by (rule eff) (auto simp: manifestKey_def)
  then show "s3_good b x s lost creds kind repo w'" by (intro s3_good_update [OF assms(2)]) simp
  show "map_of w' (blobKey b kind repo d) = map_of w (blobKey b kind repo d)"
    using blobs [of "Digest_Hex d"] by (simp add: blobKey_def)
  show "map_of w' (manifestKey b kind repo sha) = map_of w (manifestKey b kind repo sha)" if "sha \<noteq> mf_CommitSHA m"
    using that by (intro eff) (auto simp: manifestKey_def)
qed

lemma IsCommitSHA_read: "IsCommitSHA sha \<Longrightarrow> trim_space (of_bytes (take (2 ^ 10) (to_bytes sha))) = sha"
proof -
  assume sha: "IsCommitSHA sha"
  then have "length (to_bytes sha) \<le> 2 ^ 10" by (auto simp: IsCommitSHA_def to_bytes_def)
  then have "take (2 ^ 10) (to_bytes sha) = to_bytes sha" by (rule take_all)
  with IsCommitSHA_trim [OF sha] show ?thesis by (simp only: of_bytes_to_bytes)
qed

lemma s3b_CreateRepo_good:
  assumes "s3b_CreateRepo b kind repo w = (r, w')" "s3_good b x s lost creds kind repo w"
  shows "s3_good b x s lost creds kind repo w'"
proof -
  obtain lr where "s3_List (sb_client b) (repoPrefix b kind repo) [] 1 w = (lr, w)"
    using s3_List_world [OF s3_good_served [OF assms(2)]] by (metis prod.collapse)
  then obtain ex where ex: "repoExists b kind repo w = (ex, w)" by (simp add: repoExists_def)
  obtain r1 w1 where put: "putBytes b (repoPrefix b kind repo @ markerKey) [] w = (r1, w1)" by fastforce
  have w1: "s3_good b x s lost creds kind repo w1"
    using putBytes_bucket(2) [OF assms(2) repoPrefix_ne(1) put] assms(2)
    by (auto intro!: s3_good_update [OF assms(2)] simp: update_conv' markerKey_def)
  show ?thesis
  proof (cases ex)
    case (Ok e)
    then show ?thesis using assms ex put w1 by (cases e) (auto simp: s3b_CreateRepo_def)
  qed (use assms ex in \<open>auto simp: s3b_CreateRepo_def\<close>)
qed

interpretation s3_contract: backend_contract "S3backend b" kind repo "s3_good b x s lost creds kind repo"
  "\<lambda>d. s3_blob_ok b (Digest_Hex d)" "s3_fits b" for b x s lost creds kind repo
proof
  fix w w' d d' c c' n r sha ref m
  assume good: "s3_good b x s lost creds kind repo w" and d: "digestPattern d"
  show "\<exists>c'. bk_OpenBlob (S3backend b) kind repo d w' = Ok c'"
    if "bk_PutBlob (S3backend b) kind repo d c n w = (Ok (), w')"
  proof -
    have p: "s3b_PutBlob b kind repo d c n w = (Ok (), w')" using that by (simp add: S3backend_def)
    show ?thesis
      using s3b_PutBlob_good(3) [OF p good d] s3b_OpenBlob_ok [OF s3b_PutBlob_good(1) [OF p good d]]
      by (auto simp: S3backend_def)
  qed
  show "bk_PutBlob (S3backend b) kind repo d c n w = (Ok (), w)"
    if "bk_OpenBlob (S3backend b) kind repo d w = Ok c'"
    using that by (simp add: S3backend_def s3b_OpenBlob_ok [OF good] s3b_PutBlob_def
        s3_Head_bucket [OF s3_good_served [OF good]])
  show "(\<exists>i. bk_StatBlob (S3backend b) kind repo d w = Ok i) \<longleftrightarrow>
        (\<exists>c. bk_OpenBlob (S3backend b) kind repo d w = Ok c)"
    by (simp add: S3backend_def s3b_OpenBlob_ok [OF good] s3b_StatBlob_ok [OF good])
  show "s3_blob_ok b (Digest_Hex d) c" if "bk_OpenBlob (S3backend b) kind repo d w = Ok c"
    using that good by (simp add: S3backend_def s3b_OpenBlob_ok [OF good] s3_good_def blobKey_def)
  assume "bk_PutBlob (S3backend b) kind repo d c n w = (r, w')"
  then have p: "s3b_PutBlob b kind repo d c n w = (r, w')" by (simp add: S3backend_def)
  note good' = s3b_PutBlob_good(1) [OF p good d] and keep = s3b_PutBlob_good(2) [OF p good d]
  show "s3_good b x s lost creds kind repo w'" by (rule good')
  show "bk_OpenBlob (S3backend b) kind repo d' w' = Ok c'"
    if "digestPattern d'" "bk_OpenBlob (S3backend b) kind repo d' w = Ok c'"
    using that keep by (simp add: S3backend_def s3b_OpenBlob_ok [OF good] s3b_OpenBlob_ok [OF good'])
  show "bk_GetManifest (S3backend b) kind repo sha w' = Ok m"
    if "IsCommitSHA sha" "bk_GetManifest (S3backend b) kind repo sha w = Ok m"
    using that(2) keep unfolding S3backend_def Backend.simps s3b_GetManifest_ok [OF good] s3b_GetManifest_ok [OF good']
    by blast
  show "bk_ResolveRef (S3backend b) kind repo ref w' = Ok sha"
    if "bk_ResolveRef (S3backend b) kind repo ref w = Ok sha"
    using that keep unfolding S3backend_def Backend.simps s3b_ResolveRef_ok [OF good] s3b_ResolveRef_ok [OF good']
    by (auto split: if_splits simp del: power_numeral)
next
  fix w w' r ref sha
  assume good: "s3_good b x s lost creds kind repo w"
  show "s3_good b x s lost creds kind repo w'" if "bk_CreateRepo (S3backend b) kind repo w = (r, w')"
    using s3b_CreateRepo_good [OF _ good] that by (simp add: S3backend_def)
  show "IsCommitSHA sha" if "bk_ResolveRef (S3backend b) kind repo ref w = Ok sha"
    using that by (auto simp: S3backend_def s3b_ResolveRef_ok [OF good] split: if_splits)
next
  fix w w' d c r sha ref m m' refs
  assume good: "s3_good b x s lost creds kind repo w" and m: "manifest_ok kind repo m"
    and dr: "distinct (map fst (refs :: (string \<times> string) list))"
  show "bk_GetManifest (S3backend b) kind repo (mf_CommitSHA m) w' = Ok m"
    if p: "bk_PutManifest (S3backend b) m refs w = (Ok (), w')" and fits: "s3_fits b m"
  proof -
    have p': "s3b_PutManifest b m refs w = (Ok (), w')" using p by (simp add: S3backend_def)
    have "sb_dec_manifest b (take (64 * 2 ^ 20) (sb_enc_manifest b m)) = Some m"
      using fits good by (simp only: take_all s3_fits_def s3_good_def s3_env_def)
    then show ?thesis
      using s3b_PutManifest_effect [OF good m p'] s3b_GetManifest_ok [OF s3b_PutManifest_keeps(1) [OF p' good m]]
      unfolding S3backend_def Backend.simps by blast
  qed
  show "bk_ResolveRef (S3backend b) kind repo ref w' = Ok sha"
    if p: "bk_PutManifest (S3backend b) m refs w = (Ok (), w')" and ref: "(ref, sha) \<in> set refs" "\<not> IsCommitSHA ref"
  proof -
    have p': "s3b_PutManifest b m refs w = (Ok (), w')" using p by (simp add: S3backend_def)
    have "IsCommitSHA sha \<and> validRelPath ref \<and>
        map_of w' (repoPrefix b kind repo @ ''refs/'' @ ref) = Some (to_bytes sha)"
      using s3b_PutManifest_effect [OF good m p'] dr ref(1) by blast
    then show ?thesis
      using ref(2) s3b_ResolveRef_ok [OF s3b_PutManifest_keeps(1) [OF p' good m]] IsCommitSHA_read [of sha]
      unfolding S3backend_def Backend.simps by simp
  qed
  assume "bk_PutManifest (S3backend b) m refs w = (r, w')"
  then have p: "s3b_PutManifest b m refs w = (r, w')" by (simp add: S3backend_def)
  note good' = s3b_PutManifest_keeps(1) [OF p good m]
  show "s3_good b x s lost creds kind repo w'" by (rule good')
  show "bk_OpenBlob (S3backend b) kind repo d w' = Ok c" if "bk_OpenBlob (S3backend b) kind repo d w = Ok c"
    using that s3b_PutManifest_keeps(2) [OF p good m]
    by (simp add: S3backend_def s3b_OpenBlob_ok [OF good] s3b_OpenBlob_ok [OF good'])
  show "bk_GetManifest (S3backend b) kind repo sha w' = Ok m'"
    if "sha \<noteq> mf_CommitSHA m" "bk_GetManifest (S3backend b) kind repo sha w = Ok m'"
    using that(2) s3b_PutManifest_keeps(3) [OF p good m that(1)]
    unfolding S3backend_def Backend.simps s3b_GetManifest_ok [OF good] s3b_GetManifest_ok [OF good'] by simp
qed

end
