(* ===== verification/S3_Delete.thy ===== *)
theory S3_Delete
  imports S3_Contract
begin

text \<open>
  Deleting a repository of the bucket: the loop over the pages of the listing ends,
  and what it deletes is every object below the prefix of the repository and nothing
  else. Below the prefix of a repository without an owner lie the repositories of
  the owner of that name.
\<close>

section \<open>Pages of a listing\<close>

definition list_token :: "string \<Rightarrow> string" where
  "list_token k = (if k = [] then [] else b64_encode StdAlphabet True (to_bytes k))"

text \<open>What is assumed of the XML codec of pages: a page of these keys is read back.\<close>

definition pages_read :: "'w s3_client \<Rightarrow> s3_xml \<Rightarrow> string set \<Rightarrow> bool" where
  "pages_read c x keys \<longleftrightarrow>
     (\<forall>ks k. distinct ks \<longrightarrow> set ks \<subseteq> keys \<longrightarrow> length ks \<le> 1000 \<longrightarrow> k \<in> insert [] keys \<longrightarrow>
        s3_dec_page c (take (64 * 2 ^ 20) (sx_enc_page x ks (k \<noteq> []) (list_token k))) = Some (ks, k \<noteq> [], list_token k))"

definition matching :: "string \<Rightarrow> string \<Rightarrow> s3_objects \<Rightarrow> string list" where
  "matching pre start w = sort (filter (\<lambda>k. has_prefix pre k \<and> start < k) (map fst w))"

definition page_of :: "string list \<Rightarrow> string list" where
  "page_of ks = take 1000 ks"

definition next_of :: "string list \<Rightarrow> string" where
  "next_of ks = (if 1000 < length ks then last (take 1000 ks) else [])"

lemma list_token_decode:
  "list_token k \<noteq> [] \<Longrightarrow> b64_decode StdAlphabet True (list_token k) = Some (to_bytes k)"
  by (simp add: list_token_def b64_decode_encode split: if_splits)

lemma list_token_Nil [simp]: "list_token [] = []"
  by (simp add: list_token_def)

lemma last_page: "1000 < length ks \<Longrightarrow> take 1000 ks \<noteq> [] \<and> last (take 1000 ks) \<in> set ks"
  by (metis in_set_takeD last_in_set list.size(3) not_less_zero take_eq_Nil zero_neq_numeral)

lemma list_token_empty [simp]: "list_token k = [] \<longleftrightarrow> k = []"
proof -
  have "b64_encode StdAlphabet True (to_bytes k) \<noteq> []" if "k \<noteq> []"
  proof
    assume e: "b64_encode StdAlphabet True (to_bytes k) = []"
    have "b64_decode StdAlphabet True [] = Some (to_bytes k)"
      using b64_decode_encode [of StdAlphabet True "to_bytes k"] e by simp
    moreover have "b64_decode StdAlphabet True [] = Some (to_bytes [])"
      using b64_decode_encode [of StdAlphabet True "to_bytes []"] by (simp add: to_bytes_def)
    ultimately show False using that by (simp add: to_bytes_def)
  qed
  then show ?thesis by (auto simp: list_token_def)
qed

lemma list_query_get:
  assumes "pre \<noteq> []"
  shows "query_get ''list-type'' (list_query pre tok 0) = ''2''"
    and "query_get ''max-keys'' (list_query pre tok 0) = []"
    and "query_get ''prefix'' (list_query pre tok 0) = pre"
    and "query_get ''continuation-token'' (list_query pre tok 0) = tok"
  using assms by (simp_all add: list_query_def query_get_def)

lemma f3_list_page:
  assumes "pre \<noteq> []"
  shows "f3_list x (newRequest c ''GET'' [] (list_query pre (list_token start) 0) []) w =
    (let ks = matching pre start w; b = sx_enc_page x (page_of ks) (1000 < length ks) (list_token (next_of ks))
     in Ok \<lparr>sp_Status = 200, sp_Length = int (length b), sp_Body = b\<rparr>)"
proof -
  note q = list_query_get [OF assms, of "list_token start"]
  have tok: "(if list_token start = [] then Some [] else map_option of_bytes (b64_decode StdAlphabet True (list_token start))) = Some start"
    using list_token_decode [of start] by auto
  let ?ks = "matching pre start w"
  have ne: "take 1000 ?ks \<noteq> [] \<and> last (take 1000 ?ks) \<noteq> []" if "1000 < length ?ks"
    using last_page [OF that] assms by (auto simp: matching_def has_prefix_iff)
  show ?thesis
    unfolding f3_list_def newRequest_simps q tok Let_def option.case matching_def [symmetric]
    using ne by (auto simp: page_of_def next_of_def list_token_def)
qed

lemma matching_keys: "set (matching pre start w) = {k \<in> fst ` set w. has_prefix pre k \<and> start < k}"
  by (auto simp: matching_def)

lemma sorted_matching: "distinct (map fst w) \<Longrightarrow> sorted_wrt (<) (matching pre start w)"
  by (simp add: matching_def strict_sorted_iff)

lemma s3_List_page:
  assumes "s3_served c x s lost creds" and "pages_read c x (fst ` set w)" and "distinct (map fst w)" and "pre \<noteq> []"
  shows "s3_List c pre (list_token start) 0 w =
    (Ok (page_of (matching pre start w), list_token (next_of (matching pre start w))), w)"
proof -
  let ?ks = "matching pre start w"
  have k: "next_of ?ks \<in> insert [] (fst ` set w)"
    using last_page [of ?ks] by (auto simp: next_of_def matching_keys)
  have trunc: "next_of ?ks \<noteq> [] \<longleftrightarrow> 1000 < length ?ks"
  proof
    assume long: "1000 < length ?ks"
    with last_page [OF long] assms(4) show "next_of ?ks \<noteq> []" by (auto simp: next_of_def matching_keys has_prefix_iff)
  qed (simp add: next_of_def split: if_splits)
  have "distinct (page_of ?ks)"
    using sorted_matching [OF assms(3)] by (simp add: page_of_def distinct_take strict_sorted_iff)
  moreover have "set (page_of ?ks) \<subseteq> fst ` set w"
    using matching_keys [of pre start w] set_take_subset [of 1000 ?ks] by (auto simp: page_of_def)
  moreover have "length (page_of ?ks) \<le> 1000" by (simp add: page_of_def)
  ultimately have dec: "s3_dec_page c (take (64 * 2 ^ 20) (sx_enc_page x (page_of ?ks) (1000 < length ?ks) (list_token (next_of ?ks))))
      = Some (page_of ?ks, 1000 < length ?ks, list_token (next_of ?ks))"
    using assms(2) k unfolding pages_read_def trunc [symmetric] by blast
  have "next_of ?ks = []" if "\<not> 1000 < length ?ks" using that by (simp add: next_of_def)
  then show ?thesis
    unfolding s3_List_def s3_do_list [OF assms(1)] f3_list_page [OF assms(4)] Let_def res.case prod.case res_bind.simps
      s3_response.simps dec option.case
    using trunc by auto
qed

section \<open>Deleting a page\<close>

lemma distinct_delete: "distinct (map fst w) \<Longrightarrow> distinct (map fst (AList.delete k w))"
  by (simp add: AList.distinct_delete)

lemma keys_delete: "fst ` set (AList.delete k w) \<subseteq> fst ` set w"
  by (auto simp: AList.delete_eq)

lemma delete_keys_effect:
  assumes "s3_served (sb_client b) x s lost creds"
  shows "delete_keys b ks w = (r, w') \<Longrightarrow> [] \<notin> set ks \<Longrightarrow>
    r \<noteq> Panic \<and> (\<forall>k. k \<notin> set ks \<longrightarrow> map_of w' k = map_of w k) \<and> fst ` set w' \<subseteq> fst ` set w \<and>
    (distinct (map fst w) \<longrightarrow> distinct (map fst w')) \<and> (r = Ok () \<longrightarrow> (\<forall>k \<in> set ks. map_of w' k = None))"
proof (induction ks arbitrary: w)
  case Nil
  then show ?case by auto
next
  case (Cons k ks)
  obtain r1 w1 where d: "s3_Delete (sb_client b) k w = (r1, w1)" by fastforce
  have "k \<noteq> []" using Cons.prems(2) by auto
  note eff = s3_Delete_bucket [OF assms this d]
  have w1: "fst ` set w1 \<subseteq> fst ` set w" "distinct (map fst w) \<longrightarrow> distinct (map fst w1)"
    "\<forall>j. j \<noteq> k \<longrightarrow> map_of w1 j = map_of w j"
    using eff(2) keys_delete [of k w] by (auto simp: delete_conv' distinct_delete)
  show ?case
  proof (cases "r1 = Ok ()")
    case True
    have k: "map_of w1 k = None" using eff(2) True by (auto simp: delete_conv')
    have rest: "delete_keys b ks w1 = (r, w')" using Cons.prems(1) d True by simp
    have nk: "map_of w' k = None"
    proof -
      have "k \<notin> fst ` set w1" using k by (simp add: map_of_eq_None_iff)
      then have "k \<notin> fst ` set w'" using Cons.IH [OF rest] Cons.prems(2) by auto
      then show ?thesis by (simp add: map_of_eq_None_iff)
    qed
    have ih: "r \<noteq> Panic" "\<forall>j. j \<notin> set ks \<longrightarrow> map_of w' j = map_of w1 j" "fst ` set w' \<subseteq> fst ` set w1"
      "distinct (map fst w1) \<longrightarrow> distinct (map fst w')" "r = Ok () \<longrightarrow> (\<forall>j \<in> set ks. map_of w' j = None)"
      using Cons.IH [OF rest] Cons.prems(2) by simp_all
    have "fst ` set w' \<subseteq> fst ` set w" using ih(3) w1(1) by (rule subset_trans)
    moreover have "\<forall>j. j \<notin> set (k # ks) \<longrightarrow> map_of w' j = map_of w j" using ih(2) w1(3) by simp
    ultimately show ?thesis using ih(1,4,5) w1(2) nk by simp
  next
    case False
    then have "r \<noteq> Panic \<and> r \<noteq> Ok () \<and> w' = w1" using Cons.prems(1) d eff(1) by (cases r1) auto
    with w1 show ?thesis by auto
  qed
qed

section \<open>The loop over the pages\<close>

lemma pages_read_mono: "pages_read c x keys \<Longrightarrow> keys' \<subseteq> keys \<Longrightarrow> pages_read c x keys'"
  unfolding pages_read_def by (meson insert_mono subset_iff subset_trans)

lemma page_of_upto:
  assumes "sorted_wrt (<) ks" "1000 < length ks" "k \<in> set ks" "\<not> next_of ks < (k :: string)"
  shows "k \<in> set (page_of ks)"
proof (rule ccontr)
  assume "k \<notin> set (page_of ks)"
  then have "k \<in> set (drop 1000 ks)"
    using assms(3) by (metis Un_iff append_take_drop_id page_of_def set_append)
  moreover have "last (take 1000 ks) \<in> set (take 1000 ks)" using last_page [OF assms(2)] by simp
  moreover have "sorted_wrt (<) (take 1000 ks @ drop 1000 ks)" using assms(1) by simp
  ultimately have "last (take 1000 ks) < k" unfolding sorted_wrt_append by blast
  with assms(2,4) show False by (simp add: next_of_def)
qed

lemma delete_pages_returns:
  assumes "s3_served (sb_client b) x s lost creds" and "pre \<noteq> []"
  shows "pages_read (sb_client b) x (fst ` set w) \<Longrightarrow> distinct (map fst w) \<Longrightarrow>
    \<exists>r w'. delete_pages b pre (list_token start) found w = Some (r, w') \<and> r \<noteq> Panic \<and>
      (\<forall>k. \<not> has_prefix pre k \<longrightarrow> map_of w' k = map_of w k) \<and> fst ` set w' \<subseteq> fst ` set w \<and>
      (\<forall>f. r = Ok f \<longrightarrow> (\<forall>k. has_prefix pre k \<and> start < k \<longrightarrow> map_of w' k = None) \<and>
         (f \<longleftrightarrow> found \<or> matching pre start w \<noteq> []))"
proof (induction "card (set (matching pre start w))" arbitrary: start found w rule: less_induct)
  case less
  let ?ks = "matching pre start w"
  note list = s3_List_page [OF assms(1) less.prems assms(2), of start]
  obtain r1 w1 where d: "delete_keys b (page_of ?ks) w = (r1, w1)" by fastforce
  have page: "set (page_of ?ks) \<subseteq> set ?ks" by (simp add: page_of_def set_take_subset)
  have ne: "[] \<notin> set (page_of ?ks)" using page assms(2) by (auto simp: matching_keys has_prefix_iff)
  note eff = delete_keys_effect [OF assms(1) d ne]
  have outside: "\<forall>k. \<not> has_prefix pre k \<longrightarrow> map_of w1 k = map_of w k"
    using eff page by (auto simp: matching_keys)
  have step: "delete_pages b pre (list_token start) found w =
      (case r1 of Err e \<Rightarrow> Some (Err e, w1) | Panic \<Rightarrow> Some (Panic, w1)
       | Ok _ \<Rightarrow> if next_of ?ks = [] then Some (Ok (found \<or> page_of ?ks \<noteq> []), w1)
                 else delete_pages b pre (list_token (next_of ?ks)) (found \<or> page_of ?ks \<noteq> []) w1)"
    by (subst delete_pages.simps) (simp only: list d prod.case res.case list_token_empty)
  have gone: "map_of w1 k = None" if "r1 = Ok ()" "has_prefix pre k" "start < k" "k \<in> set ?ks \<longrightarrow> k \<in> set (page_of ?ks)" for k
  proof (cases "k \<in> set ?ks")
    case True
    with that eff show ?thesis by blast
  next
    case False
    then have "k \<notin> fst ` set w" using that by (auto simp: matching_keys)
    then have "k \<notin> fst ` set w1" using eff by blast
    then show ?thesis by (simp add: map_of_eq_None_iff)
  qed
  have empty: "page_of ?ks \<noteq> [] \<longleftrightarrow> ?ks \<noteq> []" by (simp add: page_of_def)
  show ?case
  proof (cases "r1 = Ok ()")
    case False
    then have "\<exists>e. r1 = Err e" using eff by (cases r1) auto
    then obtain e where "delete_pages b pre (list_token start) found w = Some (Err e, w1)"
      using step by auto
    with outside eff show ?thesis by auto
  next
    case ok: True
    show ?thesis
    proof (cases "1000 < length ?ks")
      case False
      then have "page_of ?ks = ?ks" "next_of ?ks = []" by (simp_all add: page_of_def next_of_def)
      then have "delete_pages b pre (list_token start) found w = Some (Ok (found \<or> ?ks \<noteq> []), w1)"
        using step ok by simp
      with outside eff gone [OF ok] \<open>page_of ?ks = ?ks\<close> show ?thesis by auto
    next
      case long: True
      let ?n = "next_of ?ks"
      have n: "?n \<in> set ?ks" using last_page [OF long] long by (simp add: next_of_def)
      then have nn: "?n \<noteq> []" "start < ?n" using assms(2) by (auto simp: matching_keys has_prefix_iff)
      have keys: "fst ` set w1 \<subseteq> fst ` set w" using eff by blast
      have "set (matching pre ?n w1) \<subseteq> set ?ks - {?n}"
        using keys nn by (auto simp: matching_keys)
      then have lt: "card (set (matching pre ?n w1)) < card (set ?ks)"
        using n by (intro psubset_card_mono) auto
      have d1: "distinct (map fst w1)" using eff less.prems(2) by blast
      note IH = less.hyps [OF lt pages_read_mono [OF less.prems(1) keys] d1, of "found \<or> page_of ?ks \<noteq> []"]
      obtain r w' where R: "delete_pages b pre (list_token ?n) (found \<or> page_of ?ks \<noteq> []) w1 = Some (r, w') \<and>
          r \<noteq> Panic \<and> (\<forall>k. \<not> has_prefix pre k \<longrightarrow> map_of w' k = map_of w1 k) \<and> fst ` set w' \<subseteq> fst ` set w1 \<and>
          (\<forall>f. r = Ok f \<longrightarrow> (\<forall>k. has_prefix pre k \<and> ?n < k \<longrightarrow> map_of w' k = None) \<and>
             (f \<longleftrightarrow> (found \<or> page_of ?ks \<noteq> []) \<or> matching pre ?n w1 \<noteq> []))"
        using IH by (elim exE) (rule that)
      note rest = conjunct1 [OF R] conjunct1 [OF conjunct2 [OF R]] conjunct1 [OF conjunct2 [OF conjunct2 [OF R]]]
        conjunct1 [OF conjunct2 [OF conjunct2 [OF conjunct2 [OF R]]]]
        conjunct2 [OF conjunct2 [OF conjunct2 [OF conjunct2 [OF R]]]]
      have "delete_pages b pre (list_token start) found w = Some (r, w')"
        using step ok nn(1) rest(1) by simp
      moreover have "map_of w' k = None" if "r = Ok f" "has_prefix pre k" "start < k" for f k
      proof (cases "?n < k")
        case True
        with rest(5) that show ?thesis by blast
      next
        case False
        then have "k \<in> set ?ks \<longrightarrow> k \<in> set (page_of ?ks)"
          using page_of_upto [OF sorted_matching [OF less.prems(2)] long] by blast
        then have "map_of w1 k = None" using gone [OF ok] that by blast
        with rest(4) show ?thesis by (auto simp: map_of_eq_None_iff)
      qed
      moreover have "f \<longleftrightarrow> found \<or> ?ks \<noteq> []" if "r = Ok f" for f
      proof -
        have "?ks \<noteq> []" using n by (metis empty_iff list.set(1))
        with rest(5) that empty show ?thesis by blast
      qed
      moreover have "\<forall>k. \<not> has_prefix pre k \<longrightarrow> map_of w' k = map_of w k" using outside rest(3) by simp
      moreover have "fst ` set w' \<subseteq> fst ` set w" using rest(4) keys by (rule subset_trans)
      ultimately show ?thesis using rest(2) by blast
    qed
  qed
qed

section \<open>Deleting a repository\<close>

lemma Nil_less_iff: "[] < (k :: string) \<longleftrightarrow> k \<noteq> []"
  by (cases k) auto

lemma matching_all: "pre \<noteq> [] \<Longrightarrow> set (matching pre [] w) = {k \<in> fst ` set w. has_prefix pre k}"
  by (auto simp: matching_keys has_prefix_iff Nil_less_iff)

lemma delete_pages_none:
  assumes "s3_served (sb_client b) x s lost creds" "pre \<noteq> []" "pages_read (sb_client b) x (fst ` set w)"
    "distinct (map fst w)" "matching pre [] w = []"
  shows "delete_pages b pre [] False w = Some (Ok False, w)"
  using s3_List_page [OF assms(1,3,4,2), of "[]"] assms(5)
  by (subst delete_pages.simps) (simp add: page_of_def next_of_def)

lemma s3_DeleteRepo_effect:
  assumes "s3_served (sb_client b) x s lost creds" and "pages_read (sb_client b) x (fst ` set w)"
    and "distinct (map fst w)"
  shows "\<exists>r w'. s3b_DeleteRepo b kind repo w = Some (r, w') \<and> r \<noteq> Panic \<and>
    (\<forall>k. \<not> has_prefix (repoPrefix b kind repo) k \<longrightarrow> map_of w' k = map_of w k) \<and>
    (if \<exists>k \<in> fst ` set w. has_prefix (repoPrefix b kind repo) k
     then r = Ok () \<longrightarrow> (\<forall>k. has_prefix (repoPrefix b kind repo) k \<longrightarrow> map_of w' k = None)
     else r = Err ErrRepoNotFound \<and> w' = w)"
proof -
  let ?p = "repoPrefix b kind repo"
  have start: "[] < k" if "has_prefix ?p k" for k
    using that by (auto simp: has_prefix_iff Nil_less_iff)
  have some: "(\<exists>k \<in> fst ` set w. has_prefix ?p k) \<longleftrightarrow> matching ?p [] w \<noteq> []"
    using matching_all [of ?p w] by (metis (mono_tags, lifting) empty_iff empty_set mem_Collect_eq repoPrefix_ne(2) set_empty2 ex_in_conv)
  show ?thesis
  proof (cases "matching ?p [] w = []")
    case True
    have "s3b_DeleteRepo b kind repo w = Some (Err ErrRepoNotFound, w)"
      by (simp add: s3b_DeleteRepo_def delete_pages_none [OF assms(1) repoPrefix_ne(2) assms(2,3) True])
    with True show ?thesis unfolding some by simp
  next
    case False
    obtain r w' where R: "delete_pages b ?p (list_token []) False w = Some (r, w') \<and> r \<noteq> Panic \<and>
      (\<forall>k. \<not> has_prefix ?p k \<longrightarrow> map_of w' k = map_of w k) \<and> fst ` set w' \<subseteq> fst ` set w \<and>
      (\<forall>f. r = Ok f \<longrightarrow> (\<forall>k. has_prefix ?p k \<and> [] < k \<longrightarrow> map_of w' k = None) \<and>
         (f \<longleftrightarrow> False \<or> matching ?p [] w \<noteq> []))"
      using delete_pages_returns [OF assms(1) repoPrefix_ne(2) assms(2,3), of b kind repo "[]" False] by (elim exE) (rule that)
    let ?r = "res_bind r (\<lambda>found. if found then Ok () else Err ErrRepoNotFound)"
    have "s3b_DeleteRepo b kind repo w = Some (?r, w')" using R by (simp add: s3b_DeleteRepo_def)
    moreover have "?r \<noteq> Panic" using R by (cases r) auto
    moreover have "map_of w' k = None" if "?r = Ok ()" "has_prefix ?p k" for k
      using that R start by (cases r) auto
    ultimately show ?thesis using R False unfolding some by auto
  qed
qed

text \<open>
  C16. Deleting a repository of the bucket ends, however many pages the listing has
  and whichever requests fail. When it reports success the repository existed and
  every object below its prefix is gone; an absent repository is reported as such
  and changes nothing; no other object is ever touched.
\<close>

theorem s3_DeleteRepo_ends:
  assumes "s3_served (sb_client b) x s lost creds" and "pages_read (sb_client b) x (fst ` set w)"
    and "distinct (map fst w)"
  shows "\<exists>r w'. s3b_DeleteRepo b kind repo w = Some (r, w') \<and> r \<noteq> Panic \<and>
    (\<forall>k. \<not> has_prefix (repoPrefix b kind repo) k \<longrightarrow> map_of w' k = map_of w k) \<and>
    (if \<exists>k \<in> fst ` set w. has_prefix (repoPrefix b kind repo) k
     then r = Ok () \<longrightarrow> (\<forall>k. has_prefix (repoPrefix b kind repo) k \<longrightarrow> map_of w' k = None)
     else r = Err ErrRepoNotFound \<and> w' = w)"
  using assms by (rule s3_DeleteRepo_effect)

lemma repoPrefix_owner:
  "org \<noteq> [] \<Longrightarrow> repoPrefix b kind \<lparr>Owner = org, Name = n\<rparr> =
     repoPrefix b kind \<lparr>Owner = [], Name = org\<rparr> @ n @ ''/''"
  by (simp add: repoPrefix_def repo_string_def)

text \<open>
  C23. The prefix of a repository without an owner is the prefix of every repository
  of the owner of that name: deleting \<open>org\<close> deletes the manifests and blobs of
  \<open>org/model\<close> with it.
\<close>

theorem s3_DeleteRepo_takes_owner:
  assumes "s3_served (sb_client b) x s lost creds" and "pages_read (sb_client b) x (fst ` set w)"
    and "distinct (map fst w)" and "org \<noteq> []"
    and "s3b_DeleteRepo b kind \<lparr>Owner = [], Name = org\<rparr> w = Some (Ok (), w')"
  shows "map_of w' (manifestKey b kind \<lparr>Owner = org, Name = n\<rparr> sha) = None \<and>
    map_of w' (blobKey b kind \<lparr>Owner = org, Name = n\<rparr> d) = None"
proof -
  let ?p = "repoPrefix b kind \<lparr>Owner = [], Name = org\<rparr>"
  have "map_of w' k = None" if "has_prefix ?p k" for k
    using s3_DeleteRepo_effect [OF assms(1-3), of kind "\<lparr>Owner = [], Name = org\<rparr>"] assms(5) that
    by (auto split: if_splits)
  then show ?thesis by (simp add: manifestKey_def blobKey_def repoPrefix_owner [OF assms(4)])
qed

end
