(* ===== verification/Replication_S3.thy ===== *)
theory Replication_S3
  imports S3_Contract Relay_Fs
begin

text \<open>
  Replication to a bucket: filesystem and bucket backends side by side in one world,
  and what a finished commit job leaves in a bucket, from the client lemmas of the
  backend contract and its interpretation on the bucket backend.
\<close>

section \<open>A world of trees and buckets\<close>

definition snd_backend :: "'x Backend \<Rightarrow> ('s \<times> 'x) Backend" where
  "snd_backend b =
     \<lparr>bk_Name = bk_Name b,
      bk_CreateRepo = (\<lambda>k r. on_snd (bk_CreateRepo b k r)),
      bk_DeleteRepo = (\<lambda>k r. on_snd (bk_DeleteRepo b k r)),
      bk_ResolveRef = (\<lambda>k r ref w. bk_ResolveRef b k r ref (snd w)),
      bk_GetManifest = (\<lambda>k r sha w. bk_GetManifest b k r sha (snd w)),
      bk_PutManifest = (\<lambda>m refs. on_snd (bk_PutManifest b m refs)),
      bk_StatBlob = (\<lambda>k r d w. bk_StatBlob b k r d (snd w)),
      bk_OpenBlob = (\<lambda>k r d w. bk_OpenBlob b k r d (snd w)),
      bk_PutBlob = (\<lambda>k r d c sz. on_snd (bk_PutBlob b k r d c sz)),
      bk_Ping = (\<lambda>w. bk_Ping b (snd w))\<rparr>"

lemma snd_backend_contract:
  assumes "backend_contract b kind repo good content_ok fits"
  shows "backend_contract (snd_backend b) kind repo (\<lambda>w. good (snd w)) content_ok fits"
proof -
  note laws = backend_contract.create_good [OF assms] backend_contract.resolve_commit [OF assms]
    backend_contract.put_blob_good [OF assms] backend_contract.put_blob_stored [OF assms]
    backend_contract.put_blob_keeps [OF assms] backend_contract.put_blob_manifests [OF assms]
    backend_contract.put_blob_refs [OF assms] backend_contract.put_manifest_good [OF assms]
    backend_contract.put_manifest_stored [OF assms] backend_contract.put_manifest_refs [OF assms]
    backend_contract.put_manifest_blobs [OF assms] backend_contract.put_manifest_others [OF assms]
    backend_contract.open_content [OF assms]
  show ?thesis
    by unfold_locales
      (auto simp: snd_backend_def on_snd_eq_iff backend_contract.stat_iff_open [OF assms]
        backend_contract.put_blob_again [OF assms] intro: laws)
qed

type_synonym stores = "(string \<Rightarrow> tree) \<times> (string \<Rightarrow> s3_objects)"

fun store_backend :: "string \<Rightarrow> fs_backend + s3_objects s3_backend \<Rightarrow> stores Backend" where
  "store_backend n (Inl b) = fst_backend (lift_backend n (Fsbackend b))"
| "store_backend n (Inr b) = snd_backend (lift_backend n (S3backend b))"

definition store_world ::
  "(string \<Rightarrow> (fs_backend + s3_objects s3_backend) option) \<Rightarrow> string \<Rightarrow> stores Backend option" where
  "store_world conf n = map_option (store_backend n) (conf n)"

interpretation store_s3: backend_contract "store_backend n (Inr b)" kind repo
  "\<lambda>w. s3_good b x s lost creds kind repo (snd w n)" "\<lambda>d. s3_blob_ok b (Digest_Hex d)" "s3_fits b"
  for n b x s lost creds kind repo
  using snd_backend_contract [OF lift_backend_contract [OF s3_contract.backend_contract_axioms], of n b kind repo x s lost creds]
  by simp

interpretation store_fs: backend_contract "store_backend n (Inl b)" kind repo
  "\<lambda>w. fs_good b kind repo (fst w n)" "\<lambda>d. blob_ok (fb_env b) (Digest_Hex d)" "\<lambda>_. True" for n b kind repo
  using fst_backend_contract [OF lifted_fs.backend_contract_axioms, of n b kind repo] by simp

section \<open>A finished commit job\<close>


end
