(* ===== verification/S3_Demo.thy ===== *)
theory S3_Demo
  imports S3_Ranged S3_Delete Replication_S3
begin

text \<open>
  A bucket behind a server with keys, with what is assumed of the hash functions and
  the codecs given by concrete functions: the properties of the bucket components
  are applied to it.
\<close>

definition demo_sha256hex :: "byte list \<Rightarrow> string" where
  "demo_sha256hex c = (if c = [] then EmptyPayloadSHA256 else replicate 64 CHR ''2'')"

definition demo_crypto :: s3_crypto where
  "demo_crypto = \<lparr>cy_hmac = (\<lambda>k d. [1]), cy_sha256hex = demo_sha256hex\<rparr>"

definition demo_s3_server :: fakes3 where
  "demo_s3_server = \<lparr>f3_bucket = ''bucket'', f3_accessKey = ''AK'', f3_secretKey = ''SK''\<rparr>"

definition demo_creds :: Credentials where
  "demo_creds = \<lparr>AccessKeyID = ''AK'', SecretAccessKey = ''SK'', SessionToken = []\<rparr>"

definition demo_object :: string where
  "demo_object = ''models/org/m/manifests/'' @ replicate 40 CHR ''a'' @ ''.json''"

text \<open>Pages of a bucket that holds at most the object \<open>demo_object\<close>.\<close>

definition demo_xml :: s3_xml where
  "demo_xml = \<lparr>sx_enc_error = (\<lambda>code _. to_bytes code),
     sx_enc_page = (\<lambda>ks t _. [of_nat (length ks), if t then 1 else 0])\<rparr>"

fun demo_dec_page :: "byte list \<Rightarrow> (string list \<times> bool \<times> string) option" where
  "demo_dec_page [n, t] = Some (replicate (unat n) demo_object, t = 1, if t = 1 then list_token demo_object else [])"
| "demo_dec_page _ = None"

definition demo_client :: "(string \<Rightarrow> string \<Rightarrow> net_fault) \<Rightarrow> s3_objects s3_client" where
  "demo_client lost =
     \<lparr>s3_scheme = ''https'', s3_host = ''s3.local'', s3_pathPrefix = ''/bucket'', s3_region = ''eu'',
      s3_creds = (\<lambda>w. (Ok demo_creds, w)), s3_http = s3_net demo_crypto demo_xml demo_s3_server lost,
      s3_now = (\<lambda>_. (''20250101T000000Z'', ''20250101'')), s3_crypto_of = demo_crypto,
      s3_dec_error = (\<lambda>bs. (of_bytes bs, [])), s3_dec_page = demo_dec_page\<rparr>"

lemma demo_client_simps [simp]:
  "s3_pathPrefix (demo_client lost) = ''/bucket''" "s3_crypto_of (demo_client lost) = demo_crypto"
  "s3_dec_page (demo_client lost) = demo_dec_page" "cy_sha256hex demo_crypto = demo_sha256hex"
  by (simp_all add: demo_client_def demo_crypto_def)

lemma demo_hash_length: "length (demo_sha256hex d) = 64"
  by (simp add: demo_sha256hex_def EmptyPayloadSHA256_def)

lemma demo_served: "reads_arrive lost \<Longrightarrow> s3_served (demo_client lost) demo_xml demo_s3_server lost demo_creds"
proof -
  assume "reads_arrive lost"
  moreover have "fst (s3_dec_error (demo_client lost) (take (16 * 2 ^ 10) (sx_enc_error demo_xml ''NoSuchKey'' msg))) = ''NoSuchKey''" for msg
  proof -
    have "take (16 * 2 ^ 10) (to_bytes ''NoSuchKey'') = to_bytes ''NoSuchKey''" by (simp add: to_bytes_def)
    then show ?thesis
      by (simp only: demo_client_def demo_xml_def s3_client.simps s3_xml.simps of_bytes_to_bytes fst_conv)
  qed
  moreover have "squeeze ''s3.local'' = ''s3.local''" by code_simp
  moreover have "has_prefix ''20250101'' ''20250101T000000Z''" by (simp add: has_prefix_def)
  ultimately show ?thesis
    unfolding s3_served_def client_ok_def
    by (simp add: demo_hash_length) (simp add: demo_client_def demo_s3_server_def demo_creds_def demo_crypto_def demo_sha256hex_def)
qed

section \<open>Ranged reads\<close>


section \<open>Deleting a repository\<close>

lemma demo_pages: "pages_read (demo_client lost) demo_xml {demo_object}"
proof -
  have "replicate (unat (of_nat (length ks) :: byte)) demo_object = ks" if "distinct ks" "set ks \<subseteq> {demo_object}" for ks
  proof -
    have "ks = [] \<or> ks = [demo_object]" using that by (cases ks) (auto simp: subset_singleton_iff)
    then show ?thesis by auto
  qed
  moreover have "demo_object \<noteq> []" by (simp add: demo_object_def)
  ultimately show ?thesis
    unfolding pages_read_def by (auto simp: demo_xml_def)
qed

definition demo_store :: "(string \<Rightarrow> string \<Rightarrow> net_fault) \<Rightarrow> s3_objects s3_backend" where
  "demo_store lost =
     \<lparr>sb_name = ''s3'', sb_client = demo_client lost, sb_prefix = [], sb_sha1hex = (\<lambda>_. replicate 40 CHR ''1''),
      sb_sha256hex = demo_sha256hex, sb_enc_manifest = (\<lambda>m. if m = demo_commit then [1] else replicate (64 * 2 ^ 20 + 1) 0),
      sb_dec_manifest = (\<lambda>c. if c = [1] then Some demo_commit else None)\<rparr>"

lemma demo_store_simps [simp]:
  "sb_client (demo_store lost) = demo_client lost" "sb_sha256hex (demo_store lost) = demo_sha256hex"
  by (simp_all add: demo_store_def)

lemma demo_prefix:
  "repoPrefix (demo_store lost) RepoKindModel \<lparr>Owner = [], Name = ''org''\<rparr> = ''models/org/''"
  "repoPrefix (demo_store lost) RepoKindModel \<lparr>Owner = ''org'', Name = ''m''\<rparr> = ''models/org/m/''"
  by (simp_all add: repoPrefix_def demo_store_def APIPrefix_def repo_string_def)

lemma demo_matching: "matching ''models/org/'' [] [(demo_object, [1])] = [demo_object]"
  by (simp add: matching_def demo_object_def has_prefix_def)

lemma demo_delete:
  "s3b_DeleteRepo (demo_store (\<lambda>_ _. NoFault)) RepoKindModel \<lparr>Owner = [], Name = ''org''\<rparr> [(demo_object, [1])] = Some (Ok (), [])"
proof -
  have served: "s3_served (demo_client (\<lambda>_ _. NoFault)) demo_xml demo_s3_server (\<lambda>_ _. NoFault) demo_creds"
    by (rule demo_served) (simp add: reads_arrive_def)
  have "s3_List (demo_client (\<lambda>_ _. NoFault)) ''models/org/'' [] 0 [(demo_object, [1])] = (Ok ([demo_object], []), [(demo_object, [1])])"
    using s3_List_page [OF served, of "[(demo_object, [1])]" "''models/org/''" "[]"]
    by (simp add: demo_pages demo_matching page_of_def next_of_def)
  moreover have "s3_Delete (demo_client (\<lambda>_ _. NoFault)) demo_object [(demo_object, [1])] = (Ok (), [])"
    using s3_write_arrives(2) [OF served, of demo_object "[(demo_object, [1])]"] by (simp add: demo_object_def)
  ultimately have "delete_pages (demo_store (\<lambda>_ _. NoFault)) ''models/org/'' [] False [(demo_object, [1])] = Some (Ok True, [])"
    by (subst delete_pages.simps) simp
  then show ?thesis by (simp add: s3b_DeleteRepo_def demo_prefix)
qed

theorem s3_DeleteRepo_ends_witness:
  "s3b_DeleteRepo (demo_store (\<lambda>m _. if m = ''DELETE'' then LostResponse else NoFault)) RepoKindModel
     \<lparr>Owner = ''org'', Name = ''n''\<rparr> [(demo_object, [1])] = Some (Err ErrRepoNotFound, [(demo_object, [1])])"
proof -
  let ?lost = "\<lambda>m (_ :: string). if m = ''DELETE'' then LostResponse else NoFault"
  have served: "s3_served (sb_client (demo_store ?lost)) demo_xml demo_s3_server ?lost demo_creds"
    using demo_served [of ?lost] by (simp add: reads_arrive_def)
  have pages: "pages_read (sb_client (demo_store ?lost)) demo_xml (fst ` set [(demo_object, [1 :: byte])])"
    using demo_pages by simp
  have "repoPrefix (demo_store ?lost) RepoKindModel \<lparr>Owner = ''org'', Name = ''n''\<rparr> = ''models/org/n/''"
    by (simp add: repoPrefix_def demo_store_def APIPrefix_def repo_string_def)
  moreover have "\<not> has_prefix ''models/org/n/'' demo_object" by (simp add: demo_object_def has_prefix_def)
  ultimately show ?thesis
    using s3_DeleteRepo_ends [OF served pages, of RepoKindModel "\<lparr>Owner = ''org'', Name = ''n''\<rparr>"] by auto
qed

theorem s3_DeleteRepo_takes_owner_witness:
  "map_of (snd (the (s3b_DeleteRepo (demo_store (\<lambda>_ _. NoFault)) RepoKindModel \<lparr>Owner = [], Name = ''org''\<rparr> [(demo_object, [1])])))
     (manifestKey (demo_store (\<lambda>_ _. NoFault)) RepoKindModel \<lparr>Owner = ''org'', Name = ''m''\<rparr> (replicate 40 CHR ''a'')) = None"
proof -
  have "s3_served (sb_client (demo_store (\<lambda>_ _. NoFault))) demo_xml demo_s3_server (\<lambda>_ _. NoFault) demo_creds"
    using demo_served [of "\<lambda>_ _. NoFault"] by (simp add: reads_arrive_def)
  moreover have "pages_read (sb_client (demo_store (\<lambda>_ _. NoFault))) demo_xml (fst ` set [(demo_object, [1 :: byte])])"
    using demo_pages by simp
  ultimately show ?thesis
    using s3_DeleteRepo_takes_owner [OF _ _ _ _ demo_delete, of demo_xml demo_s3_server "\<lambda>_ _. NoFault" demo_creds] demo_delete
    by simp
qed

section \<open>Replication to the bucket\<close>

abbreviation (input) "demo_s3 \<equiv> demo_store (\<lambda>_ _. NoFault)"

definition demo_stores_conf :: "string \<Rightarrow> (fs_backend + s3_objects s3_backend) option" where
  "demo_stores_conf n =
     (if n = ''a'' then Some (Inl demo_fs) else if n = ''b'' then Some (Inr demo_s3) else None)"

lemma demo_s3_served: "s3_served (demo_client (\<lambda>_ _. NoFault)) demo_xml demo_s3_server (\<lambda>_ _. NoFault) demo_creds"
  using demo_served [of "\<lambda>_ _. NoFault"] by (simp add: reads_arrive_def)

lemma demo_s3_good: "s3_good demo_s3 demo_xml demo_s3_server (\<lambda>_ _. NoFault) demo_creds RepoKindModel demo_repo []"
proof -
  have "sb_dec_manifest demo_s3 (sb_enc_manifest demo_s3 m) = Some m"
    if "length (sb_enc_manifest demo_s3 m) \<le> 64 * 2 ^ 20" for m
    using that by (cases "m = demo_commit") (simp_all add: demo_store_def)
  then show ?thesis
    using demo_s3_served unfolding s3_good_def s3_env_def by simp (simp add: demo_store_def)
qed

lemma demo_s3_put:
  "key \<noteq> [] \<Longrightarrow> putBytes demo_s3 key data w = (Ok (), AList.update key data w)"
  using s3_write_arrives(1) [OF demo_s3_served] by (simp add: putBytes_def)

lemma demo_s3_PutBlob:
  "s3b_PutBlob demo_s3 RepoKindModel demo_repo demo_digest [7] 1 [] =
     (Ok (), [(blobKey demo_s3 RepoKindModel demo_repo demo_digest, [7])])"
proof -
  have "spoolAndVerify demo_s3 [7] demo_digest 1 = Ok (1, demo_sha256hex [7])"
    by (simp add: spoolAndVerify_def demo_sha256hex_def)
  then show ?thesis
    using s3_write_arrives(1) [OF demo_s3_served, of "blobKey demo_s3 RepoKindModel demo_repo demo_digest" "[7]" 1 "[]"]
    by (simp add: s3b_PutBlob_def s3_Head_bucket [OF demo_s3_served])
qed

lemma demo_s3_PutManifest: "\<exists>w'. s3b_PutManifest demo_s3 demo_commit [(''main'', demo_sha)] w = (Ok (), w')"
proof -
  have v: "validRelPath ''vae/w.bin''" "validRelPath ''main''" "IsCommitSHA demo_sha" "demo_sha \<noteq> []"
    "\<not> repo_is_zero demo_repo"
    by code_simp+
  show ?thesis
    using v by (simp add: s3b_PutManifest_def demo_commit_def demo_s3_put refKey_def)
qed


end
