(* ===== verification/Config.thy ===== *)
theory Config
  imports Relay_Write S3_Client Server_Base Replication Fsbackend
begin

text \<open>
  Packages internal/config and internal/app: the configuration with its defaults
  and its validation, and the assembly of backends, router, upstream client,
  replication queue, relay, Xet store and server from it. The YAML decoder, the
  environment, url.Parse and the constructors that touch the file system or the
  network are arguments. A Go map is an association list in its order of iteration;
  durations are nanoseconds, but the lifetime of a token verdict is in seconds, as in
  \<open>Server_Base\<close>.
\<close>

section \<open>The configuration (config.go)\<close>

record Listen =
  li_API :: string
  li_Admin :: string
  li_Metrics :: string

record Limits =
  lm_MaxConcurrentUploads :: int
  lm_MaxConcurrentDownloads :: int
  lm_PerConnBufferMB :: int

record HuggingFaceUpstream =
  hf_Endpoint :: string
  hf_TokenEnv :: string
  hf_PullThrough :: bool
  hf_RefreshInterval :: int

record BackendAuth =
  ba_UsernameEnv :: string
  ba_PasswordEnv :: string
  ba_AccessKeyIDEnv :: string
  ba_SecretAccessKeyEnv :: string
  ba_SessionTokenEnv :: string

record BackendConfig =
  bc_Type :: string
  bc_Path :: string
  bc_URL :: string
  bc_Format :: string
  bc_LayerPerFile :: bool
  bc_RepoPrefix :: string
  bc_Auth :: BackendAuth
  bc_Bucket :: string
  bc_Region :: string
  bc_Endpoint :: string
  bc_Prefix :: string

record ReplicationConfig =
  rp_SpoolDir :: string
  rp_Workers :: int

record AuthConfig =
  ac_Mode :: string
  ac_CacheTTL :: int

record XetConfig =
  xc_Enabled :: bool
  xc_DataDir :: string
  xc_StoreBackend :: string

record LogConfig =
  lc_Level :: string
  lc_Format :: string
  lc_AuditPath :: string

record Config =
  cf_Listen :: Listen
  cf_Limits :: Limits
  cf_HuggingFace :: HuggingFaceUpstream
  cf_Backends :: "(string \<times> BackendConfig) list"
  cf_Routes :: "route_config list"
  cf_Replication :: ReplicationConfig
  cf_Auth :: AuthConfig
  cf_AdminTokenEnv :: string
  cf_Xet :: XetConfig
  cf_Log :: LogConfig

text \<open>\<open>Token\<close> of the upstream and of the admin API.\<close>

definition env_token :: "(string \<Rightarrow> string) \<Rightarrow> string \<Rightarrow> string" where
  "env_token getenv v = (if v = [] then [] else getenv v)"

definition Default :: Config where
  "Default =
     \<lparr>cf_Listen = \<lparr>li_API = '':8080'', li_Admin = [], li_Metrics = '':9090''\<rparr>,
      cf_Limits = \<lparr>lm_MaxConcurrentUploads = 64, lm_MaxConcurrentDownloads = 512, lm_PerConnBufferMB = 8\<rparr>,
      cf_HuggingFace = \<lparr>hf_Endpoint = ''https://huggingface.co'', hf_TokenEnv = [], hf_PullThrough = False,
        hf_RefreshInterval = 300 * second\<rparr>,
      cf_Backends = [], cf_Routes = [], cf_Replication = \<lparr>rp_SpoolDir = [], rp_Workers = 0\<rparr>,
      cf_Auth = \<lparr>ac_Mode = ''none'', ac_CacheTTL = 300\<rparr>, cf_AdminTokenEnv = [],
      cf_Xet = \<lparr>xc_Enabled = False, xc_DataDir = [], xc_StoreBackend = []\<rparr>,
      cf_Log = \<lparr>lc_Level = ''info'', lc_Format = ''json'', lc_AuditPath = []\<rparr>\<rparr>"

text \<open>\<open>filepath.Clean\<close> and \<open>filepath.Join\<close> of two elements.\<close>

definition filepath_Clean :: "string \<Rightarrow> string" where
  "filepath_Clean p =
     (if has_prefix ''/'' p then ''/'' @ join_on ''/'' (walk [] (split_on CHR ''/'' p)) else clean_rel p)"

definition filepath_Join :: "string \<Rightarrow> string \<Rightarrow> string" where
  "filepath_Join a b =
     (if a = [] \<and> b = [] then [] else filepath_Clean (if a = [] then b else if b = [] then a else a @ ''/'' @ b))"

definition fs_config :: "string \<Rightarrow> BackendConfig" where
  "fs_config path =
     \<lparr>bc_Type = ''fs'', bc_Path = path, bc_URL = [], bc_Format = [], bc_LayerPerFile = False, bc_RepoPrefix = [],
      bc_Auth = \<lparr>ba_UsernameEnv = [], ba_PasswordEnv = [], ba_AccessKeyIDEnv = [], ba_SecretAccessKeyEnv = [],
        ba_SessionTokenEnv = []\<rparr>, bc_Bucket = [], bc_Region = [], bc_Endpoint = [], bc_Prefix = []\<rparr>"

definition Local :: "string \<Rightarrow> Config" where
  "Local dataDir =
     Default\<lparr>cf_Listen := (cf_Listen Default)\<lparr>li_API := ''127.0.0.1:8080'', li_Metrics := []\<rparr>,
       cf_HuggingFace := (cf_HuggingFace Default)\<lparr>hf_PullThrough := True\<rparr>,
       cf_Backends := [(''local'', fs_config dataDir)],
       cf_Routes := [\<lparr>rc_Match = ''*'', rc_Primary = ''local'', rc_Replicas = []\<rparr>],
       cf_Xet := \<lparr>xc_Enabled = True, xc_DataDir = filepath_Join dataDir ''.xet'', xc_StoreBackend = []\<rparr>\<rparr>"

definition DefaultLocalDataDir :: "string option \<Rightarrow> string" where
  "DefaultLocalDataDir home = (case home of None \<Rightarrow> ''.shpiel'' | Some h \<Rightarrow> filepath_Join h ''.shpiel'')"

datatype load_error = ReadingConfig | ParsingConfig | MultipleDocuments

text \<open>
  \<open>Load\<close>: \<open>decode\<close> decodes the first document over a configuration, refusing
  unknown fields, and says whether a second document follows.
\<close>

definition Load ::
  "(byte list \<Rightarrow> Config \<Rightarrow> (Config \<times> bool) option) \<Rightarrow> byte list option \<Rightarrow> (load_error, Config) res" where
  "Load decode file =
     (case file of
        None \<Rightarrow> Err ReadingConfig
      | Some data \<Rightarrow>
          (case decode data Default of
             None \<Rightarrow> Err ParsingConfig
           | Some (cfg, multi) \<Rightarrow> if multi then Err MultipleDocuments else Ok cfg))"

section \<open>Validation\<close>

datatype config_error =
  NoListenAPI | AuthNotImplemented string | AuthInvalid string | NoBackends
| FsNoPath string | OciNoURL string | OciFormat string string | S3NoBucket string | S3NoRegion string
| TypeNotImplemented string string | TypeUnknown string string
| NoRoutes | RouteNoMatch nat | RoutePrimary nat string | RouteReplica nat string
| NoReplicationSpool | NoAdminToken | XetNoStore | XetTwoStores | XetUnknownBackend string
| XetNotS3 string string | LogFormat string

definition check :: "bool \<Rightarrow> config_error \<Rightarrow> config_error list" where
  "check bad e = (if bad then [e] else [])"

definition validate_backend :: "string \<times> BackendConfig \<Rightarrow> config_error list" where
  "validate_backend nb =
     (let (name, b) = nb; t = bc_Type b in
      if t = ''fs'' then check (bc_Path b = []) (FsNoPath name)
      else if t = ''oci'' then
        check (bc_URL b = []) (OciNoURL name) @
        check (bc_Format b \<notin> {[], ''modelpack'', ''tar-layers''}) (OciFormat name (bc_Format b))
      else if t = ''s3'' then
        check (bc_Bucket b = []) (S3NoBucket name) @
        check (bc_Region b = [] \<and> bc_Endpoint b = []) (S3NoRegion name)
      else if t = ''huggingface'' then [TypeNotImplemented name t]
      else [TypeUnknown name t])"

definition backend_config :: "Config \<Rightarrow> string \<Rightarrow> BackendConfig option" where
  "backend_config c = map_of (cf_Backends c)"

definition validate_route :: "Config \<Rightarrow> nat \<times> route_config \<Rightarrow> config_error list" where
  "validate_route c ir =
     (let (i, r) = ir in
      check (rc_Match r = []) (RouteNoMatch i) @
      check (backend_config c (rc_Primary r) = None) (RoutePrimary i (rc_Primary r)) @
      concat (map (\<lambda>rep. check (backend_config c rep = None) (RouteReplica i rep)) (rc_Replicas r)))"

definition hasReplicas :: "Config \<Rightarrow> bool" where
  "hasReplicas c \<longleftrightarrow> list_ex (\<lambda>r. rc_Replicas r \<noteq> []) (cf_Routes c)"

text \<open>\<open>Validate\<close>: all errors at once; the empty list is a nil error.\<close>

definition Validate :: "Config \<Rightarrow> config_error list" where
  "Validate c =
     check (li_API (cf_Listen c) = []) NoListenAPI @
     (let mode = ac_Mode (cf_Auth c) in
      if mode = ''none'' \<or> mode = ''passthrough'' then []
      else if mode = ''local'' \<or> mode = ''oidc'' then [AuthNotImplemented mode] else [AuthInvalid mode]) @
     check (cf_Backends c = []) NoBackends @
     concat (map validate_backend (cf_Backends c)) @
     check (cf_Routes c = [] \<and> cf_Backends c \<noteq> []) NoRoutes @
     concat (map (validate_route c) (enumerate 0 (cf_Routes c))) @
     check (hasReplicas c \<and> rp_SpoolDir (cf_Replication c) = []) NoReplicationSpool @
     check (li_Admin (cf_Listen c) \<noteq> [] \<and> cf_AdminTokenEnv c = []) NoAdminToken @
     (let x = cf_Xet c in
      (if xc_Enabled x then
         (if xc_DataDir x = [] \<and> xc_StoreBackend x = [] then [XetNoStore]
          else if xc_DataDir x \<noteq> [] \<and> xc_StoreBackend x \<noteq> [] then [XetTwoStores] else [])
       else []) @
      (if xc_StoreBackend x \<noteq> [] then
         (case backend_config c (xc_StoreBackend x) of
            None \<Rightarrow> [XetUnknownBackend (xc_StoreBackend x)]
          | Some b \<Rightarrow> check (bc_Type b \<noteq> ''s3'') (XetNotS3 (xc_StoreBackend x) (bc_Type b)))
       else [])) @
     check (lc_Format (cf_Log c) \<noteq> ''json'' \<and> lc_Format (cf_Log c) \<noteq> ''text'') (LogFormat (lc_Format (cf_Log c)))"

section \<open>Credentials of a bucket (app.go, webidentity.go)\<close>

datatype creds_provider = StaticCredentials Credentials | WebIdentity string string string string

definition or_default :: "string \<Rightarrow> string \<Rightarrow> string" where
  "or_default a b = (if a = [] then b else a)"

definition NewWebIdentityProvider ::
  "(string \<Rightarrow> (string \<times> string \<times> string) option) \<Rightarrow> string \<Rightarrow> string \<Rightarrow> string \<Rightarrow> string \<Rightarrow> (s3_error, creds_provider) res" where
  "NewWebIdentityProvider parse ep roleARN tokenFile session =
     (case parse ep of
        None \<Rightarrow> Err S3Config
      | Some (scheme, host, path) \<Rightarrow>
          if scheme = [] \<or> host = [] then Err S3Config
          else if roleARN = [] \<or> tokenFile = [] then Err S3Config
          else Ok (WebIdentity (trim_right_char CHR ''/'' ep) roleARN tokenFile
                     (if session = [] then ''shpiel'' else session)))"

definition s3CredentialsProvider ::
  "(string \<Rightarrow> (string \<times> string \<times> string) option) \<Rightarrow> (string \<Rightarrow> string) \<Rightarrow> BackendAuth \<Rightarrow> string
   \<Rightarrow> (s3_error, creds_provider) res" where
  "s3CredentialsProvider parse getenv auth region =
     (let static = \<lparr>AccessKeyID = getenv (or_default (ba_AccessKeyIDEnv auth) ''AWS_ACCESS_KEY_ID''),
                    SecretAccessKey = getenv (or_default (ba_SecretAccessKeyEnv auth) ''AWS_SECRET_ACCESS_KEY''),
                    SessionToken = getenv (or_default (ba_SessionTokenEnv auth) ''AWS_SESSION_TOKEN'')\<rparr> in
      if \<not> IsZero static then Ok (StaticCredentials static)
      else
        let tokenFile = getenv ''AWS_WEB_IDENTITY_TOKEN_FILE''; roleARN = getenv ''AWS_ROLE_ARN'' in
        if tokenFile = [] \<or> roleARN = [] then
          Ok (StaticCredentials \<lparr>AccessKeyID = [], SecretAccessKey = [], SessionToken = []\<rparr>)
        else
          NewWebIdentityProvider parse
            (or_default (getenv ''AWS_ENDPOINT_URL_STS'')
              (''https://sts.'' @ or_default region ''us-east-1'' @ ''.amazonaws.com''))
            roleARN tokenFile (getenv ''AWS_ROLE_SESSION_NAME''))"

section \<open>Assembly (app.go)\<close>

text \<open>
  The constructors: the drivers of the three backend types (the bucket driver gets
  its credentials), the local Xet store, the audit file; \<open>ev_client\<close> attaches
  credentials to the parts of a bucket client that are not configured.
\<close>

record ('w, 'c, 'j) app_env =
  ev_getenv :: "string \<Rightarrow> string"
  ev_parse :: "string \<Rightarrow> (string \<times> string \<times> string) option"
  ev_level :: "string \<Rightarrow> bool"
  ev_valid_glob :: "string \<Rightarrow> bool"
  ev_fs :: "string \<Rightarrow> string \<Rightarrow> (string, 'w Backend) res"
  ev_oci :: "string \<Rightarrow> BackendConfig \<Rightarrow> string \<Rightarrow> string \<Rightarrow> (string, 'w Backend) res"
  ev_s3 :: "string \<Rightarrow> BackendConfig \<Rightarrow> creds_provider \<Rightarrow> (string, 'w Backend) res"
  ev_client :: "creds_provider \<Rightarrow> 'w s3_client"
  ev_xet_dir :: "string \<Rightarrow> bool"
  ev_audit :: "string \<Rightarrow> bool"
  ev_http :: "'w http"
  ev_version :: string
  ev_decode :: "byte list \<Rightarrow> ModelInfo option"
  ev_codec :: "'c job_codec"
  ev_readable :: "string \<Rightarrow> bool"
  ev_now :: int
  ev_spool :: "'c spool"
  ev_replicator :: "'w Replicator"
  ev_repl_hooks :: "'w repl_hooks"
  ev_relay :: "'w Relay"
  ev_server :: "('w, 'j) Server"

datatype 'w xet_store = XetDir string | XetBucket "'w s3_client" string

datatype build_error =
  InvalidConfig "config_error list" | LogLevel string | BuildBackend string string
| CredentialsError string s3_error | UnsupportedType string string | BuildRouter router_error
| BuildAudit | BuildQueue queue_error | BuildXet | XetBucketError s3_error

record ('w, 'c, 'j) App =
  app_Server :: "('w, 'j) Server"
  app_Relay :: "'w Relay"
  app_Queue :: "('w, 'c) Queue option"
  app_Xet :: "'w xet_store option"
  app_uploadSem :: "nat option"
  app_downloadSem :: "nat option"

definition build_backend ::
  "('w, 'c, 'j) app_env \<Rightarrow> string \<Rightarrow> BackendConfig \<Rightarrow> (build_error, 'w Backend) res" where
  "build_backend e name bc =
     (if bc_Type bc = ''fs'' then res_map_err (BuildBackend name) (ev_fs e name (bc_Path bc))
      else if bc_Type bc = ''oci'' then
        res_map_err (BuildBackend name)
          (ev_oci e name bc (ev_getenv e (ba_UsernameEnv (bc_Auth bc))) (ev_getenv e (ba_PasswordEnv (bc_Auth bc))))
      else if bc_Type bc = ''s3'' then
        res_bind (res_map_err (CredentialsError name)
            (s3CredentialsProvider (ev_parse e) (ev_getenv e) (bc_Auth bc) (bc_Region bc)))
          (\<lambda>creds. res_map_err (BuildBackend name) (ev_s3 e name bc creds))
      else Err (UnsupportedType name (bc_Type bc)))"

fun build_backends ::
  "('w, 'c, 'j) app_env \<Rightarrow> (string \<times> BackendConfig) list \<Rightarrow> (string \<rightharpoonup> 'w Backend)
   \<Rightarrow> (build_error, string \<rightharpoonup> 'w Backend) res" where
  "build_backends e [] bs = Ok bs"
| "build_backends e ((name, bc) # rest) bs =
     res_bind (build_backend e name bc) (\<lambda>b. build_backends e rest (bs(name \<mapsto> b)))"

text \<open>The queue is built for the first route that has replicas, once.\<close>

definition build_queue ::
  "('w, 'c, 'j) app_env \<Rightarrow> Config \<Rightarrow> (string \<rightharpoonup> 'w Backend) \<Rightarrow> (build_error, ('w, 'c) Queue option) res" where
  "build_queue e c bs =
     (if hasReplicas c then
        res_map Some (res_map_err BuildQueue
          (Queue_New (ev_codec e) (ev_readable e) (ev_now e) (rp_SpoolDir (cf_Replication c)) bs
             (rp_Workers (cf_Replication c)) 0 (ev_spool e)))
      else Ok None)"

text \<open>The bucket of a missing backend is that of the zero configuration, as a Go map lookup gives it.\<close>

definition xetStore :: "('w, 'c, 'j) app_env \<Rightarrow> Config \<Rightarrow> (build_error, 'w xet_store) res" where
  "xetStore e c =
     (let x = cf_Xet c in
      if xc_StoreBackend x = [] then
        (if ev_xet_dir e (xc_DataDir x) then Ok (XetDir (xc_DataDir x)) else Err BuildXet)
      else
        let bc = (case backend_config c (xc_StoreBackend x) of
                    Some bc \<Rightarrow> bc | None \<Rightarrow> (fs_config [])\<lparr>bc_Type := []\<rparr>)
        in res_bind (res_map_err XetBucketError
               (s3CredentialsProvider (ev_parse e) (ev_getenv e) (bc_Auth bc) (bc_Region bc)))
             (\<lambda>creds. res_map (\<lambda>cl. XetBucket cl (filepath_Join (trim_char CHR ''/'' (bc_Prefix bc)) ''xet''))
               (res_map_err XetBucketError
                 (s3_New \<lparr>so_Endpoint = bc_Endpoint bc, so_Bucket = bc_Bucket bc, so_Region = bc_Region bc\<rparr>
                    (ev_parse e (bc_Endpoint bc)) (ev_client e creds)))))"

definition upstream_of :: "('w, 'c, 'j) app_env \<Rightarrow> Config \<Rightarrow> 'w upstream_conn option" where
  "upstream_of e c =
     (let h = cf_HuggingFace c in
      if hf_Endpoint h = [] then None
      else Some \<lparr>uc_http = ev_http e, uc_version = ev_version e,
                 uc_client = Upstream_New (hf_Endpoint h) (env_token (ev_getenv e) (hf_TokenEnv h)),
                 uc_decode = ev_decode e\<rparr>)"

definition assembled ::
  "('w, 'c, 'j) app_env \<Rightarrow> Config \<Rightarrow> 'w Route list \<Rightarrow> ('w, 'c) Queue option \<Rightarrow> 'w xet_store option \<Rightarrow> ('w, 'c, 'j) App" where
  "assembled e c routes queue store =
     (let up = upstream_of e c;
          rl = (ev_relay e)\<lparr>rl_routes := routes,
                 rl_upstream := (if hf_PullThrough (cf_HuggingFace c) then up else None),
                 rl_refreshInterval := hf_RefreshInterval (cf_HuggingFace c),
                 rl_replicator := map_option (\<lambda>_. ev_replicator e) queue\<rparr>
      in \<lparr>app_Server = (ev_server e)\<lparr>sv_authMode := ac_Mode (cf_Auth c),
            sv_ttl := newTokenValidator_ttl (ac_CacheTTL (cf_Auth c)), sv_relay := rl, sv_upstream := up,
            sv_audit := (lc_AuditPath (cf_Log c) \<noteq> []),
            sv_repl := map_option (\<lambda>_. ev_repl_hooks e) queue,
            sv_xet := (if store = None then None else sv_xet (ev_server e)),
            sv_adminToken := env_token (ev_getenv e) (cf_AdminTokenEnv c)\<rparr>,
          app_Relay = rl, app_Queue = queue, app_Xet = store,
          app_uploadSem = slot_capacity (lm_MaxConcurrentUploads (cf_Limits c)),
          app_downloadSem = slot_capacity (lm_MaxConcurrentDownloads (cf_Limits c))\<rparr>)"

definition Build :: "('w, 'c, 'j) app_env \<Rightarrow> Config \<Rightarrow> (build_error, ('w, 'c, 'j) App) res" where
  "Build e c =
     (if Validate c \<noteq> [] then Err (InvalidConfig (Validate c))
      else if \<not> ev_level e (lc_Level (cf_Log c)) then Err (LogLevel (lc_Level (cf_Log c)))
      else res_bind (build_backends e (cf_Backends c) Map.empty) (\<lambda>bs.
        res_bind (res_map_err BuildRouter (NewRouter (ev_valid_glob e) (cf_Routes c) bs)) (\<lambda>routes.
          if lc_AuditPath (cf_Log c) \<notin> {[], ''-''} \<and> \<not> ev_audit e (lc_AuditPath (cf_Log c)) then Err BuildAudit
          else res_bind (build_queue e c bs) (\<lambda>queue.
            res_bind (if xc_Enabled (cf_Xet c) then res_map Some (xetStore e c) else Ok None) (\<lambda>store.
              Ok (assembled e c routes queue store))))))"

end
