(* ===== verification/Config_Build.thy ===== *)
theory Config_Build
  imports Config
begin

text \<open>
  What validation guarantees to the assembly: a validated configuration fails to
  build only for reasons outside of it, and the replication queue knows the source
  and the target of every job the relay hands to it.
\<close>

section \<open>Validated configurations\<close>

lemma check_Nil [simp]: "check b e = [] \<longleftrightarrow> \<not> b"
  by (simp add: check_def)

lemma enumerate_all: "(\<forall>ir \<in> set (enumerate k xs). P (snd ir)) \<longleftrightarrow> (\<forall>x \<in> set xs. P x)"
  by (induction xs arbitrary: k) auto

lemma validate_route_Nil:
  "validate_route c ir = [] \<longleftrightarrow> rc_Match (snd ir) \<noteq> [] \<and> backend_config c (rc_Primary (snd ir)) \<noteq> None \<and>
     (\<forall>rep \<in> set (rc_Replicas (snd ir)). backend_config c rep \<noteq> None)"
  by (cases ir) (auto simp: validate_route_def)

lemma validate_backend_types:
  "validate_backend (name, b) = [] \<Longrightarrow> bc_Type b = ''fs'' \<or> bc_Type b = ''oci'' \<or> bc_Type b = ''s3''"
  by (auto simp: validate_backend_def Let_def split: if_splits)

lemma Validate_Nil:
  assumes "Validate c = []"
  shows "\<forall>r \<in> set (cf_Routes c). backend_config c (rc_Primary r) \<noteq> None \<and>
           (\<forall>rep \<in> set (rc_Replicas r). backend_config c rep \<noteq> None)"
    and "(name, bc) \<in> set (cf_Backends c) \<Longrightarrow> bc_Type bc = ''fs'' \<or> bc_Type bc = ''oci'' \<or> bc_Type bc = ''s3''"
    and "hasReplicas c \<Longrightarrow> rp_SpoolDir (cf_Replication c) \<noteq> []"
    and "xc_StoreBackend (cf_Xet c) \<noteq> [] \<Longrightarrow> \<exists>bc. backend_config c (xc_StoreBackend (cf_Xet c)) = Some bc \<and> bc_Type bc = ''s3''"
proof -
  have parts: "concat (map validate_backend (cf_Backends c)) = []"
    "concat (map (validate_route c) (enumerate 0 (cf_Routes c))) = []"
    "check (hasReplicas c \<and> rp_SpoolDir (cf_Replication c) = []) NoReplicationSpool = []"
    "(if xc_StoreBackend (cf_Xet c) \<noteq> [] then
         (case backend_config c (xc_StoreBackend (cf_Xet c)) of
            None \<Rightarrow> [XetUnknownBackend (xc_StoreBackend (cf_Xet c))]
          | Some b \<Rightarrow> check (bc_Type b \<noteq> ''s3'') (XetNotS3 (xc_StoreBackend (cf_Xet c)) (bc_Type b)))
       else []) = []"
    using assms unfolding Validate_def Let_def append_is_Nil_conv by blast+
  show "\<forall>r \<in> set (cf_Routes c). backend_config c (rc_Primary r) \<noteq> None \<and>
           (\<forall>rep \<in> set (rc_Replicas r). backend_config c rep \<noteq> None)"
  proof -
    have "\<forall>ir \<in> set (enumerate 0 (cf_Routes c)). backend_config c (rc_Primary (snd ir)) \<noteq> None \<and>
           (\<forall>rep \<in> set (rc_Replicas (snd ir)). backend_config c rep \<noteq> None)"
      using parts(2) by (simp add: validate_route_Nil)
    then show ?thesis
      using enumerate_all [of 0 "cf_Routes c" "\<lambda>r. backend_config c (rc_Primary r) \<noteq> None \<and>
           (\<forall>rep \<in> set (rc_Replicas r). backend_config c rep \<noteq> None)"] by blast
  qed
  show "bc_Type bc = ''fs'' \<or> bc_Type bc = ''oci'' \<or> bc_Type bc = ''s3''" if "(name, bc) \<in> set (cf_Backends c)"
    using parts(1) that by (intro validate_backend_types) auto
  show "rp_SpoolDir (cf_Replication c) \<noteq> []" if "hasReplicas c" using parts(3) that by simp
  show "\<exists>bc. backend_config c (xc_StoreBackend (cf_Xet c)) = Some bc \<and> bc_Type bc = ''s3''"
    if "xc_StoreBackend (cf_Xet c) \<noteq> []"
    using parts(4) that by (simp split: option.splits)
qed

section \<open>Backends and routes\<close>

lemma list_all2_in_set: "list_all2 P xs ys \<Longrightarrow> y \<in> set ys \<Longrightarrow> \<exists>x \<in> set xs. P x y"
  by (induction rule: list_all2_induct) auto

lemma build_backends_Ok:
  "build_backends e l bs = Ok bs' \<Longrightarrow> dom bs' = dom bs \<union> fst ` set l \<and>
     (\<forall>n b. bs' n = Some b \<longrightarrow> bs n = Some b \<or> (\<exists>bc. (n, bc) \<in> set l \<and> build_backend e n bc = Ok b))"
proof (induction l arbitrary: bs)
  case Nil
  then show ?case by simp
next
  case (Cons z l)
  obtain name bc where z: "z = (name, bc)" by fastforce
  then obtain b where b: "build_backend e name bc = Ok b" "build_backends e l (bs(name \<mapsto> b)) = Ok bs'"
    using Cons.prems by (auto simp: go_res)
  note IH = Cons.IH [OF b(2)]
  have "dom bs' = dom bs \<union> fst ` set (z # l)" using conjunct1 [OF IH] z by auto
  moreover have "bs n = Some x \<or> (\<exists>bc. (n, bc) \<in> set (z # l) \<and> build_backend e n bc = Ok x)" if "bs' n = Some x" for n x
  proof -
    have "(bs(name \<mapsto> b)) n = Some x \<or> (\<exists>bc. (n, bc) \<in> set l \<and> build_backend e n bc = Ok x)"
      using conjunct2 [OF IH] that by blast
    then show ?thesis using b(1) z by (cases "n = name") auto
  qed
  ultimately show ?case by blast
qed

lemma build_backends_total:
  "(\<exists>bs'. build_backends e l bs = Ok bs') \<longleftrightarrow> (\<forall>(n, bc) \<in> set l. \<exists>b. build_backend e n bc = Ok b)"
proof (induction l arbitrary: bs)
  case (Cons z l)
  then show ?case by (cases z; cases "build_backend e (fst z) (snd z)") simp_all
qed simp

lemma resolve_replicas_total:
  "(\<exists>reps. resolve_replicas i bs ns = Ok reps) \<longleftrightarrow> (\<forall>n \<in> set ns. bs n \<noteq> None)"
  by (induction ns) (auto simp: go_res split: option.split)

lemma resolve_replicas_Ok:
  "resolve_replicas i bs ns = Ok reps \<Longrightarrow> list_all2 (\<lambda>n rep. bs n = Some rep) ns reps"
  by (induction ns arbitrary: reps) (auto simp: go_res split: option.splits)

lemma new_routes_total:
  "(\<exists>rs. new_routes valid i bs rcs = Ok rs) \<longleftrightarrow>
     (\<forall>rc \<in> set rcs. valid (rc_Match rc) \<and> bs (rc_Primary rc) \<noteq> None \<and> (\<forall>n \<in> set (rc_Replicas rc). bs n \<noteq> None))"
proof (induction rcs arbitrary: i)
  case Nil
  then show ?case by simp
next
  case (Cons rc rcs)
  show ?case
  proof (cases "valid (rc_Match rc) \<and> bs (rc_Primary rc) \<noteq> None")
    case True
    then obtain p where "bs (rc_Primary rc) = Some p" by blast
    with True Cons.IH [of "Suc i"] resolve_replicas_total [of i bs "rc_Replicas rc"] show ?thesis
      by (auto simp: go_res)
  qed (auto split: option.split)
qed

lemma new_routes_Ok:
  "new_routes valid i bs rcs = Ok rs \<Longrightarrow>
     list_all2 (\<lambda>rc r. rt_Match r = rc_Match rc \<and> bs (rc_Primary rc) = Some (rt_Primary r) \<and>
       list_all2 (\<lambda>n rep. bs n = Some rep) (rc_Replicas rc) (rt_Replicas r)) rcs rs"
  by (induction rcs arbitrary: i rs) (auto simp: go_res resolve_replicas_Ok split: if_splits option.splits)

section \<open>What building needs\<close>

lemma Queue_New_total: "dir \<noteq> [] \<Longrightarrow> \<exists>q. Queue_New jc rd now dir bs n m sp = Ok q \<and> q_backends q = bs"
  by (simp add: Queue_New_def loadSpool_def)


text \<open>The constructors of the drivers keep the name they are given.\<close>

definition drivers_named :: "('w, 'c, 'j) app_env \<Rightarrow> bool" where
  "drivers_named e \<longleftrightarrow>
     (\<forall>n p b. ev_fs e n p = Ok b \<longrightarrow> bk_Name b = n) \<and>
     (\<forall>n bc u p b. ev_oci e n bc u p = Ok b \<longrightarrow> bk_Name b = n) \<and>
     (\<forall>n bc cr b. ev_s3 e n bc cr = Ok b \<longrightarrow> bk_Name b = n)"

lemma assembled_fields [simp]:
  "app_Queue (assembled e c routes queue store) = queue"
  "rl_routes (app_Relay (assembled e c routes queue store)) = routes"
  "rl_replicator (app_Relay (assembled e c routes queue store)) = map_option (\<lambda>_. ev_replicator e) queue"
  by (simp_all add: assembled_def Let_def)

lemma res_map_err_Ok_iff: "res_map_err f r = Ok x \<longleftrightarrow> r = Ok x"
  by (cases r) auto

lemma build_backend_named: "drivers_named e \<Longrightarrow> build_backend e n bc = Ok b \<Longrightarrow> bk_Name b = n"
  by (auto simp: build_backend_def drivers_named_def go_res res_map_err_Ok_iff split: if_splits)

text \<open>
  C24. The queue of an assembled relay knows both ends of every job: for every route
  of the relay, a replica's name is in the queue the name of that very replica, the
  primary's name is that of the primary, and the relay has a replicator to hand the
  job to.
\<close>

theorem Build_queue_knows_targets:
  assumes "Build e c = Ok app" and "drivers_named e"
    and "route \<in> set (rl_routes (app_Relay app))" and "rep \<in> set (rt_Replicas route)"
  shows "\<exists>q. app_Queue app = Some q \<and> rl_replicator (app_Relay app) = Some (ev_replicator e) \<and>
    q_backends q (bk_Name rep) = Some rep \<and> q_backends q (bk_Name (rt_Primary route)) = Some (rt_Primary route)"
proof -
  obtain bs rs queue where bs: "build_backends e (cf_Backends c) Map.empty = Ok bs"
    and rs: "NewRouter (ev_valid_glob e) (cf_Routes c) bs = Ok rs"
    and queue: "build_queue e c bs = Ok queue"
    and app: "app_Queue app = queue" "rl_routes (app_Relay app) = rs"
      "rl_replicator (app_Relay app) = map_option (\<lambda>_. ev_replicator e) queue"
    using assms(1) assembled_fields by (fastforce simp: Build_def go_res res_map_err_Ok_iff split: if_splits)
  have named: "bk_Name b = n" if "bs n = Some b" for n b
    using build_backends_Ok [OF bs] that build_backend_named [OF assms(2)] by fastforce
  have "route \<in> set rs" using assms(3) app(2) by simp
  then obtain rc where rc: "rc \<in> set (cf_Routes c)" "bs (rc_Primary rc) = Some (rt_Primary route)"
      "list_all2 (\<lambda>n rep. bs n = Some rep) (rc_Replicas rc) (rt_Replicas route)"
    using list_all2_in_set [OF new_routes_Ok [OF rs [unfolded NewRouter_def]]] by blast
  obtain n where n: "bs n = Some rep"
    using list_all2_in_set [OF rc(3) assms(4)] by blast
  have "rc_Replicas rc \<noteq> []" using rc(3) assms(4) by auto
  then have "hasReplicas c" using rc(1) by (auto simp: hasReplicas_def list_ex_iff)
  then obtain q where "queue = Some q" "q_backends q = bs"
    using queue by (auto simp: build_queue_def go_res res_map_err_Ok_iff Queue_New_def loadSpool_def split: if_splits)
  with app n rc(2) named show ?thesis by auto
qed

section \<open>Laptop mode\<close>

lemma filepath_Clean_nonempty: "filepath_Clean p \<noteq> []"
proof -
  have step: "[] \<notin> set acc \<Longrightarrow> [] \<notin> set (path_step r acc s)" for r acc s
    by (auto simp: path_step_def dest: in_set_butlastD)
  have "[] \<notin> set acc \<Longrightarrow> [] \<notin> set (foldl (path_step r) acc ss)" for r acc ss
    by (induction ss arbitrary: acc) (simp_all add: step)
  then have "[] \<notin> set (foldl (path_step False) [] (split_on CHR ''/'' p))" by simp
  then show ?thesis
    unfolding filepath_Clean_def clean_rel_def Let_def
    by (cases "foldl (path_step False) [] (split_on CHR ''/'' p)") (auto simp: join_on_nonempty)
qed

lemma Validate_Local: "Validate (Local dir) = check (dir = []) (FsNoPath ''local'')"
proof -
  have "filepath_Join dir ''.xet'' \<noteq> []" by (simp add: filepath_Join_def filepath_Clean_nonempty)
  then have "xc_DataDir (cf_Xet (Local dir)) \<noteq> []" by (simp add: Local_def)
  moreover have "cf_Listen (Local dir) = \<lparr>li_API = ''127.0.0.1:8080'', li_Admin = [], li_Metrics = []\<rparr>"
    "ac_Mode (cf_Auth (Local dir)) = ''none''" "cf_Backends (Local dir) = [(''local'', fs_config dir)]"
    "cf_Routes (Local dir) = [\<lparr>rc_Match = ''*'', rc_Primary = ''local'', rc_Replicas = []\<rparr>]"
    "xc_Enabled (cf_Xet (Local dir))" "xc_StoreBackend (cf_Xet (Local dir)) = []" "lc_Format (cf_Log (Local dir)) = ''json''"
    by (simp_all add: Local_def Default_def)
  moreover have "validate_backend (''local'', fs_config dir) = check (dir = []) (FsNoPath ''local'')"
    by (simp add: validate_backend_def fs_config_def)
  ultimately show ?thesis
    unfolding Validate_def hasReplicas_def Let_def
    by (simp add: validate_route_def backend_config_def check_def)
qed

end
