(* ===== verification/Config_Demo.thy ===== *)
theory Config_Demo
  imports Config_Build Server_Demo
begin

text \<open>
  A configuration with two filesystem backends and a route that replicates from one
  to the other, in an environment whose drivers open the trees of a world.
\<close>

definition demo_config :: Config where
  "demo_config = Default\<lparr>cf_Backends := [(''a'', fs_config ''/a''), (''b'', fs_config ''/b'')],
     cf_Routes := [\<lparr>rc_Match = ''*'', rc_Primary = ''a'', rc_Replicas = [''b'']\<rparr>],
     cf_Replication := \<lparr>rp_SpoolDir = ''/spool'', rp_Workers = 0\<rparr>\<rparr>"

definition demo_driver :: "string \<Rightarrow> ((string \<Rightarrow> tree) \<times> (string \<Rightarrow> tree, Job option) Queue) Backend" where
  "demo_driver n = world_backend n (demo_fs\<lparr>fb_name := n\<rparr>)"

definition demo_codec :: "Job option job_codec" where
  "demo_codec = \<lparr>enc_job = Some, dec_job = (\<lambda>x. x)\<rparr>"

definition demo_app_env ::
  "((string \<Rightarrow> tree) \<times> (string \<Rightarrow> tree, Job option) Queue, Job option, string) app_env" where
  "demo_app_env =
     \<lparr>ev_getenv = (\<lambda>_. []), ev_parse = (\<lambda>_. None), ev_level = (\<lambda>_. True), ev_valid_glob = (\<lambda>_. True),
      ev_fs = (\<lambda>n _. Ok (demo_driver n)), ev_oci = (\<lambda>_ _ _ _. Err []), ev_s3 = (\<lambda>_ _ _. Err []),
      ev_client = (\<lambda>_. \<lparr>s3_scheme = [], s3_host = [], s3_pathPrefix = [], s3_region = [],
        s3_creds = (\<lambda>w. (Err [], w)), s3_http = (\<lambda>_ w. (Err [], w)), s3_now = (\<lambda>_. ([], [])),
        s3_crypto_of = \<lparr>cy_hmac = (\<lambda>k d. [1]), cy_sha256hex = (\<lambda>_. [])\<rparr>,
        s3_dec_error = (\<lambda>_. ([], [])), s3_dec_page = (\<lambda>_. None)\<rparr>),
      ev_xet_dir = (\<lambda>_. True), ev_audit = (\<lambda>_. True), ev_http = uc_http (demo_status 200), ev_version = [],
      ev_decode = (\<lambda>_. None), ev_codec = demo_codec, ev_readable = (\<lambda>_. True), ev_now = 0, ev_spool = [],
      ev_replicator = \<lparr>rp_EnqueueCommit = (\<lambda>_ _ _ _ _ _ w. (Ok (), w)), rp_EnqueueDeleteRepo = (\<lambda>_ _ _ _ w. (Ok (), w))\<rparr>,
      ev_repl_hooks = \<lparr>rh_Depth = (\<lambda>_. 0), rh_Snapshot = (\<lambda>_. []), rh_RetryNow = (\<lambda>_ w. (0, w))\<rparr>,
      ev_relay = sv_relay (demo_server [] 200), ev_server = demo_server [] 200\<rparr>"

lemma demo_config_valid: "Validate demo_config = []"
  by code_simp

lemma config_env_simps [simp]:
  "ev_fs demo_app_env = (\<lambda>n _. Ok (demo_driver n))" "ev_level demo_app_env l" "ev_valid_glob demo_app_env g"
  "ev_audit demo_app_env p" "ev_xet_dir demo_app_env d"
  by (simp_all add: demo_app_env_def)

lemma demo_driver_name [simp]: "bk_Name (demo_driver n) = n"
  by (simp add: demo_driver_def world_backend_def fst_backend_def lift_backend_def Fsbackend_def)

lemma demo_drivers_named: "drivers_named demo_app_env"
  by (auto simp: drivers_named_def demo_app_env_def demo_driver_def world_backend_def fst_backend_def
      lift_backend_def Fsbackend_def)

lemma demo_config_fields:
  "cf_Backends demo_config = [(''a'', fs_config ''/a''), (''b'', fs_config ''/b'')]"
  "cf_Routes demo_config = [\<lparr>rc_Match = ''*'', rc_Primary = ''a'', rc_Replicas = [''b'']\<rparr>]"
  "xc_Enabled (cf_Xet demo_config) = False" "lc_AuditPath (cf_Log demo_config) = []"
  by (simp_all add: demo_config_def Default_def)

lemma demo_build:
  "\<exists>app. Build demo_app_env demo_config = Ok app \<and>
     rl_routes (app_Relay app) = [\<lparr>rt_Match = ''*'', rt_Primary = demo_driver ''a'', rt_Replicas = [demo_driver ''b'']\<rparr>]"
proof -
  let ?bs = "[''a'' \<mapsto> demo_driver ''a'', ''b'' \<mapsto> demo_driver ''b'']"
  have "build_backends demo_app_env (cf_Backends demo_config) Map.empty = Ok ?bs"
    by (simp add: demo_config_fields build_backend_def fs_config_def)
  moreover have "NewRouter (ev_valid_glob demo_app_env) (cf_Routes demo_config) ?bs =
      Ok [\<lparr>rt_Match = ''*'', rt_Primary = demo_driver ''a'', rt_Replicas = [demo_driver ''b'']\<rparr>]"
    by (simp add: demo_config_fields NewRouter_def)
  moreover have "\<exists>q. build_queue demo_app_env demo_config ?bs = Ok q"
    by (simp add: build_queue_def hasReplicas_def demo_config_def Queue_New_def)
  ultimately show ?thesis
    by (auto simp: Build_def demo_config_valid demo_config_fields)
qed

theorem Build_queue_knows_targets_witness:
  "\<exists>app q. Build demo_app_env demo_config = Ok app \<and> app_Queue app = Some q \<and>
     q_backends q ''b'' = Some (demo_driver ''b'') \<and> q_backends q ''a'' = Some (demo_driver ''a'')"
proof -
  obtain app where app: "Build demo_app_env demo_config = Ok app"
    "rl_routes (app_Relay app) = [\<lparr>rt_Match = ''*'', rt_Primary = demo_driver ''a'', rt_Replicas = [demo_driver ''b'']\<rparr>]"
    using demo_build by blast
  let ?route = "\<lparr>rt_Match = ''*'', rt_Primary = demo_driver ''a'', rt_Replicas = [demo_driver ''b'']\<rparr>"
  show ?thesis
    using app Build_queue_knows_targets [OF app(1) demo_drivers_named, of ?route "demo_driver ''b''"] by auto
qed

end
