(* ===== verification/Spec2Isabelle.thy ===== *)
theory Spec2Isabelle
  imports Upstream Xet_Service Replication_Steps Replication_Fs Relay_Demo Server_Demo S3_Demo Config_Demo
begin

text \<open>
  Verification library of shpiel, a relay for the Hugging Face Hub: it serves the
  Hub's HTTP API from storage backends, pulls what is missing from an upstream Hub,
  takes uploads and commits, and replicates commits to further backends.

  The program and its model. A request enters internal/server, which parses the URL
  (internal/hfapi), checks the token and calls internal/relay. The relay picks the
  route of the repository and works on its primary backend
  (internal/backend and its drivers); on a miss it fetches through
  internal/upstream, and a successful write is handed to internal/replication, whose
  queue copies it to the replica backends. Clients of the Xet protocol upload chunked
  files through internal/xet, which stores xorbs and shards and materializes whole
  files through the relay. internal/app assembles all this from internal/config.

    \<^item> \<open>Prelude\<close>, \<open>Go_Text\<close>, \<open>Go_Url\<close>, \<open>Go_Base64\<close>: outcomes of Go calls
      (\<open>Ok\<close>, \<open>Err\<close>, \<open>Panic\<close>), slices with their bounds checks, bytes and int64,
      and the functions of Go's library the program calls.
    \<^item> \<open>Hfapi\<close>, \<open>Hfapi_Route\<close> (internal/hfapi): identifiers, wire types, the URL grammar.
    \<^item> \<open>Backend\<close> (internal/backend): digests, manifests, and the storage interface as a
      record of operations with its laws, the locale \<open>backend_contract\<close>.
    \<^item> \<open>Fsbackend\<close>, \<open>Fsbackend_Contract\<close> (internal/backend/fsbackend): the driver on a
      tree of files, links and directories, its invariant \<open>fs_good\<close>, and the
      interpretation of the contract.
    \<^item> \<open>S3_Client\<close> (internal/s3client), \<open>S3_Server\<close> (internal/fakes3), \<open>S3backend\<close>
      (internal/backend/s3backend): signing and bucket operations, the server with its
      own signature check, and the driver. \<open>S3_Sign\<close> relates signer and verifier,
      \<open>S3_Net\<close> puts a network that loses messages between them, \<open>S3_Ranged\<close> is about
      the ranged reader, \<open>S3_Contract\<close> interprets the contract, \<open>S3_Delete\<close> is about
      deletion, \<open>S3_Demo\<close> applies the properties.
    \<^item> \<open>Upstream\<close> (internal/upstream): the client of the Hub.
    \<^item> \<open>Xet_Hash\<close>, \<open>Xet_Chunks\<close>, \<open>Xet_Shard\<close>, \<open>Xet_Store\<close>, \<open>Xet_Service\<close>
      (internal/xet): hashes, chunk streams, shards, the store over a directory or a
      bucket (the locale of its byte layer is interpreted on both), and the CAS service.
    \<^item> \<open>Replication\<close>, \<open>Replication_Steps\<close> (internal/replication): the spooled queue, and its
      workers, crashes and restarts as an inductive step relation. \<open>Replication_Fs\<close> and
      \<open>Replication_S3\<close>: what a finished job leaves on a directory or in a bucket.
    \<^item> \<open>Relay\<close>, \<open>Relay_Write\<close> (internal/relay): routing, reads, writes. \<open>Relay_Contract\<close>
      proves their properties over any backend that keeps the contract, \<open>Relay_Read\<close>
      those of the read path, \<open>Relay_Fs\<close> interprets them on the filesystem backend,
      \<open>Relay_Queue\<close> follows a commit to its replica, \<open>Relay_Demo\<close> applies them.
    \<^item> \<open>Server_Base\<close>, \<open>Server\<close>, \<open>Server_Write\<close> (internal/server, internal/audit): handlers,
      tokens, error mapping, audit. \<open>Server_Tree\<close>, \<open>Server_Auth\<close>, \<open>Server_Commit\<close> hold
      their properties, \<open>Server_Demo\<close> applies them.
    \<^item> \<open>Config\<close>, \<open>Config_Build\<close>, \<open>Config_Demo\<close> (internal/config, internal/app): the
      configuration, its validation, and the assembly of the application.

  State and effects. A Go struct is a record, an enumeration a datatype, an error a
  value, a run-time panic the value \<open>Panic\<close>. A Go map is an association list, in an
  arbitrary order where the code iterates over it. What an operation changes is
  passed explicitly: the world of a backend is its tree, bucket or a family of them;
  concurrency is either a step relation (the queue, uploads of xorbs) or an argument
  that says what the others did (a flight joined, a slot granted). Failures of files
  and messages are arguments, so that the properties hold for all of them. No
  definition uses fuel: loops are structural or have a measure, and the one loop whose
  end depends on the service, the pages of a listing, is a \<open>partial_function\<close> that is
  proved to end.

  Lemma groups and what they show.
    \<^item> The client lemmas in \<open>context backend_contract\<close> (\<open>Replication\<close>) and
      \<open>context relay_store\<close> (\<open>Relay_Contract\<close>, \<open>Relay_Read\<close>) rest on the laws alone; the
      interpretations \<open>fs_contract\<close>, \<open>lifted_fs\<close>, \<open>s3_contract\<close>, \<open>store_s3\<close> and
      \<open>fs_relay\<close> discharge the laws for the drivers.
    \<^item> Storage: every served blob matches its digest, whatever failed before; commits
      that were answered are published with exactly the described tree and are copied
      to the replicas; acknowledged jobs survive crashes.
    \<^item> Protocols: URLs, shards, xorbs and tokens read back as they were written; signed
      requests verify; parsers of foreign bytes do not panic, except where a property
      shows that they do.
    \<^item> Defects the model shows, each with its property where it has one: a tree cursor
      that overflows, empty chunk ranges in a reconstruction, colliding uploads of a
      xorb, an older commit job overtaken in backoff, repositories that share a
      directory or a key prefix, a follower of a blob fetch that fails, upstream errors
      cached as refusals, manifests too large to be read back.

  Assumptions. Hash functions, JSON, XML, YAML and LZ4 codecs, HTTP transport, clocks
  and random identifiers are arguments; what is assumed of them (round trips of
  codecs, lengths of digests, a non-empty HMAC) are named hypotheses
  (\<open>env_law\<close>, \<open>job_codec_ok\<close>, \<open>relay_hashes\<close>, \<open>client_ok\<close>, \<open>pages_read\<close>), and each
  property that has hypotheses is applied to concrete functions in a witness.

  Not modelled. The drivers of OCI registries (internal/backend/ocibackend,
  internal/ociclient): their tar streams and chunked uploads are outside the present
  model, and the configuration treats their constructor as an argument. The ServeMux
  patterns, listeners and shutdown of the server, request logging, metrics and build
  information, the two commands, and the test doubles of the Hub and of a registry:
  glue around net/http and third-party libraries, or test code.
\<close>

end
